(* ===== verification/Prelude.thy ===== *)
theory Prelude
  imports Main "HOL-Library.Word" "HOL-Library.Multiset"
begin

text \<open>
  Shared vocabulary of the development: the Go integer types, the outcome of a Go call
  (a value, a run-time panic, or blocking for ever), iteration over a Go map in an
  arbitrary order, and the generic list and map lemmas the components use.
\<close>

section \<open>Integers and time\<close>

type_synonym byte = "8 word"
type_synonym int32 = "32 word"
type_synonym int64 = "64 word"

text \<open>A \<open>time.Time\<close> is an instant; the program only copies and stores it.\<close>

type_synonym time = int

text \<open>The collections of rewrite rules the component proofs share.\<close>

named_theorems sql_simps \<open>unfoldings of the SQL statements that change a table\<close>
named_theorems step_simps \<open>unfoldings of the steps of a process\<close>

text \<open>\<open>int32(x)\<close> of a 64-bit \<open>int\<close> keeps the low 32 bits.\<close>

definition int32_of_int :: "int64 \<Rightarrow> int32" where
  "int32_of_int x = ucast x"

text \<open>Postgres computes on \<open>integer\<close> columns and refuses a result outside 32 bits.\<close>

definition int4_range :: "int \<Rightarrow> bool" where
  "int4_range v \<longleftrightarrow> - (2 ^ 31) \<le> v \<and> v < 2 ^ 31"

lemma sint_word_of_int_int4: "int4_range v \<Longrightarrow> sint (word_of_int v :: int32) = v"
  by (simp add: int4_range_def signed_take_bit_int_eq_self sint_sbintrunc')

lemma int4_range_sint [simp]: "int4_range (sint (w :: int32))"
  using sint_range_size [of w] by (simp add: int4_range_def word_size)

text \<open>The conversion keeps a number exactly when Postgres could hold it.\<close>

lemma sint_int32_of_int: "sint (int32_of_int x) = (sint x + 2 ^ 31) mod 2 ^ 32 - 2 ^ 31"
proof -
  have "int32_of_int x = word_of_int (sint x)"
    unfolding int32_of_int_def by transfer (simp add: take_bit_signed_take_bit)
  then have "sint (int32_of_int x) = signed_take_bit 31 (sint x)" by (simp only: sint_sbintrunc' len_num1 len_bit0 len_bit1) simp
  then show ?thesis by (simp add: signed_take_bit_eq_take_bit_shift take_bit_eq_mod)
qed

lemma int32_of_int_exact: "sint (int32_of_int x) = sint x \<longleftrightarrow> int4_range (sint x)"
proof
  show "int4_range (sint x)" if "sint (int32_of_int x) = sint x"
    using int4_range_sint [of "int32_of_int x"] that by simp
  assume r: "int4_range (sint x)"
  then have "(sint x + 2 ^ 31) mod 2 ^ 32 = sint x + 2 ^ 31" by (simp add: int4_range_def)
  then show "sint (int32_of_int x) = sint x" by (simp add: sint_int32_of_int)
qed

section \<open>Outcomes of Go calls\<close>

text \<open>
  \<open>Ret\<close> is a normal return, \<open>Panic\<close> a run-time panic (its message is kept) and \<open>Blocked\<close>
  a call that never returns because a channel operation cannot proceed.
\<close>

datatype 'a outcome = Ret 'a | Panic string | Blocked

primrec and_then :: "'a outcome \<Rightarrow> ('a \<Rightarrow> 'b outcome) \<Rightarrow> 'b outcome" where
  "and_then (Ret a) f = f a"
| "and_then (Panic s) f = Panic s"
| "and_then Blocked f = Blocked"

lemma and_then_eq_Ret [simp]:
  "and_then m f = Ret b \<longleftrightarrow> (\<exists>a. m = Ret a \<and> f a = Ret b)"
  by (cases m) auto

text \<open>A \<open>for range\<close> loop over a slice whose body may panic.\<close>

primrec go_for :: "('s \<Rightarrow> 'a \<Rightarrow> 's outcome) \<Rightarrow> 's \<Rightarrow> 'a list \<Rightarrow> 's outcome" where
  "go_for f s [] = Ret s"
| "go_for f s (x # xs) = and_then (f s x) (\<lambda>s'. go_for f s' xs)"

lemma go_for_invariant:
  assumes "I s" and "\<And>s x. I s \<Longrightarrow> x \<in> set xs \<Longrightarrow> \<exists>s'. f s x = Ret s' \<and> I s'"
  shows "\<exists>s'. go_for f s xs = Ret s' \<and> I s'"
  using assms
proof (induction xs arbitrary: s)
  case Nil
  then show ?case by simp
next
  case (Cons x xs)
  from Cons.prems obtain s1 where s1: "f s x = Ret s1" "I s1"
    by (metis list.set_intros(1))
  with Cons.IH [of s1] Cons.prems(2) show ?case by auto
qed

lemma go_for_preserves:
  assumes "go_for f s xs = Ret s'" and "I s"
    and "\<And>s x s'. I s \<Longrightarrow> x \<in> set xs \<Longrightarrow> f s x = Ret s' \<Longrightarrow> I s'"
  shows "I s'"
  using assms
proof (induction xs arbitrary: s)
  case Nil
  then show ?case by simp
next
  case (Cons x xs)
  from Cons.prems(1) obtain s1 where s1: "f s x = Ret s1" "go_for f s1 xs = Ret s'"
    by auto
  from Cons.prems(2,3) s1(1) have "I s1" by (metis list.set_intros(1))
  then show ?case
    using Cons.IH [OF s1(2)] Cons.prems(3) by (metis list.set_intros(2))
qed

section \<open>Go maps and their iteration order\<close>

text \<open>
  \<open>for k, v := range m\<close> visits every key of \<open>m\<close> once, in an order the language leaves
  open. The order is an argument of the model: a list \<open>ks\<close> with \<open>enumerates ks m\<close>.
\<close>

definition enumerates :: "'k list \<Rightarrow> ('k \<rightharpoonup> 'v) \<Rightarrow> bool" where
  "enumerates ks m \<longleftrightarrow> distinct ks \<and> set ks = dom m"

definition go_range :: "'k list \<Rightarrow> ('k \<rightharpoonup> 'v) \<Rightarrow> ('k \<times> 'v) list" where
  "go_range ks m = List.map_filter (\<lambda>k. map_option (Pair k) (m k)) ks"

lemma go_range_Nil [simp]: "go_range [] m = []"
  by (simp add: go_range_def map_filter_simps)

lemma go_range_Cons [simp]:
  "go_range (k # ks) m = (case m k of None \<Rightarrow> go_range ks m | Some v \<Rightarrow> (k, v) # go_range ks m)"
  by (simp add: go_range_def map_filter_simps split: option.split)

lemma set_go_range: "set (go_range ks m) = {(k, v). k \<in> set ks \<and> m k = Some v}"
  by (induction ks) (auto split: option.splits)

lemma set_go_range_enumerates:
  "enumerates ks m \<Longrightarrow> set (go_range ks m) = {(k, v). m k = Some v}"
  by (auto simp: set_go_range enumerates_def)

lemma map_fst_go_range: "map fst (go_range ks m) = filter (\<lambda>k. m k \<noteq> None) ks"
  by (induction ks) (auto split: option.splits)

lemma distinct_go_range: "distinct ks \<Longrightarrow> distinct (map fst (go_range ks m))"
  by (simp add: map_fst_go_range)

lemma map_of_go_range: "distinct ks \<Longrightarrow> map_of (go_range ks m) k = (if k \<in> set ks then m k else None)"
  by (induction ks) (auto split: option.splits)

lemma map_of_go_range_enumerates: "enumerates ks m \<Longrightarrow> map_of (go_range ks m) k = m k"
  by (auto simp: map_of_go_range enumerates_def dom_def)

lemma enumerates_dom: "enumerates ks m \<Longrightarrow> dom m' = dom m \<Longrightarrow> enumerates ks m'"
  by (simp add: enumerates_def)

lemma enumerates_finite: "enumerates ks m \<Longrightarrow> finite (dom m)"
  by (metis List.finite_set enumerates_def)

section \<open>Results with errors\<close>

text \<open>The loop over the rows of a statement: the first failing row fails the statement.\<close>

primrec traverse :: "('a \<Rightarrow> 'e + 'b) \<Rightarrow> 'a list \<Rightarrow> 'e + 'b list" where
  "traverse f [] = Inr []"
| "traverse f (x # xs) =
     (case f x of
        Inl e \<Rightarrow> Inl e
      | Inr y \<Rightarrow> (case traverse f xs of Inl e \<Rightarrow> Inl e | Inr ys \<Rightarrow> Inr (y # ys)))"

lemma traverse_Inr_iff: "traverse f xs = Inr ys \<longleftrightarrow> list_all2 (\<lambda>x y. f x = Inr y) xs ys"
proof (induction xs arbitrary: ys)
  case Nil
  then show ?case by auto
next
  case (Cons x xs)
  show ?case
  proof (cases "f x")
    case (Inl e)
    then show ?thesis by (auto simp: list_all2_Cons1)
  next
    case (Inr y)
    then show ?thesis
      by (cases "traverse f xs") (auto simp: list_all2_Cons1 Cons.IH [symmetric])
  qed
qed

lemma traverse_map: "(\<And>x. x \<in> set xs \<Longrightarrow> f x = Inr (g x)) \<Longrightarrow> traverse f xs = Inr (map g xs)"
  by (induction xs) auto

lemma traverse_Inl: "traverse f xs = Inl e \<Longrightarrow> \<exists>x \<in> set xs. f x = Inl e"
  by (induction xs) (auto split: sum.splits)

text \<open>\<open>if err != nil { return ..., err }\<close>: the rest runs on the value only.\<close>

primrec if_ok :: "'e + 'a \<Rightarrow> ('a \<Rightarrow> 'e + 'b) \<Rightarrow> 'e + 'b" where
  "if_ok (Inl e) f = Inl e"
| "if_ok (Inr a) f = f a"

lemma if_ok_eq_Inr [simp]: "if_ok m f = Inr b \<longleftrightarrow> (\<exists>a. m = Inr a \<and> f a = Inr b)"
  by (cases m) auto

section \<open>Counting lemmas\<close>

lemma length_filter_conj_sum:
  assumes "finite K" and "\<forall>x \<in> set xs. P x \<longrightarrow> key x \<in> K"
  shows "length (filter P xs) = (\<Sum>k\<in>K. length (filter (\<lambda>x. P x \<and> key x = k) xs))"
  using assms(2)
proof (induction xs)
  case Nil
  then show ?case by simp
next
  case (Cons x xs)
  have split1: "length (filter (\<lambda>x. P x \<and> key x = k) (x # xs)) =
      (if P x \<and> key x = k then 1 else 0) + length (filter (\<lambda>x. P x \<and> key x = k) xs)" for k
    by simp
  have "(\<Sum>k\<in>K. (if P x \<and> key x = k then 1 else 0 :: nat)) = (if P x then 1 else 0)"
    using assms(1) Cons.prems by (auto simp: sum.delta)
  moreover have "length (filter P (x # xs)) = (if P x then 1 else 0) + length (filter P xs)"
    by simp
  ultimately show ?case
    using Cons by (simp add: split1 sum.distrib del: filter.simps(2))
qed

lemma filter_concat_map: "filter P (concat (map f xs)) = concat (map (\<lambda>x. filter P (f x)) xs)"
  by (induction xs) auto

lemma find_Some_set: "find P xs = Some x \<Longrightarrow> x \<in> set xs \<and> P x"
  by (auto simp: find_Some_iff)

end
