(* ===== verification/Uuid.thy ===== *)
theory Uuid
  imports Prelude
begin

text \<open>
  The identifier type of every table and request, \<open>github.com/google/uuid\<close> as vendored
  under \<open>vendor/\<close>: the 16-byte array, its canonical text \<open>String\<close> and the parser
  \<open>Parse\<close> with all the forms it accepts. The services key their maps by the text, so the
  round trip and the injectivity of \<open>String\<close> are what makes those maps keyed by identity.
\<close>

section \<open>The array and its text\<close>

datatype uuid = UUID byte byte byte byte byte byte byte byte byte byte byte byte byte byte byte byte

primrec uuid_bytes :: "uuid \<Rightarrow> byte list" where
  "uuid_bytes (UUID b0 b1 b2 b3 b4 b5 b6 b7 b8 b9 b10 b11 b12 b13 b14 b15) =
     [b0, b1, b2, b3, b4, b5, b6, b7, b8, b9, b10, b11, b12, b13, b14, b15]"

definition uuid_Nil :: uuid where
  "uuid_Nil = UUID 0 0 0 0 0 0 0 0 0 0 0 0 0 0 0 0"

text \<open>\<open>hex.Encode\<close>: two lower-case digits for each byte.\<close>

definition hexdigits :: string where
  "hexdigits = ''0123456789abcdef''"

definition hexChar :: "nat \<Rightarrow> char" where
  "hexChar n = hexdigits ! n"

definition hexByte :: "byte \<Rightarrow> string" where
  "hexByte b = [hexChar (unat b div 16), hexChar (unat b mod 16)]"

definition hexEncode :: "byte list \<Rightarrow> string" where
  "hexEncode bs = concat (map hexByte bs)"

text \<open>\<open>encodeHex\<close> writes the groups of 4, 2, 2, 2 and 6 bytes, separated by dashes.\<close>

definition uuid_String :: "uuid \<Rightarrow> string" where
  "uuid_String u = (let bs = uuid_bytes u in
     hexEncode (take 4 bs) @ ''-'' @
     hexEncode (take 2 (drop 4 bs)) @ ''-'' @
     hexEncode (take 2 (drop 6 bs)) @ ''-'' @
     hexEncode (take 2 (drop 8 bs)) @ ''-'' @
     hexEncode (drop 10 bs))"

section \<open>Parsing\<close>

datatype uuid_error = InvalidFormat | InvalidLength nat | InvalidUrnPrefix string

text \<open>The table \<open>xvalues\<close>: the value of a hexadecimal digit, or 255.\<close>

definition xvalues :: "char \<Rightarrow> byte" where
  "xvalues c = (let n = (of_char c :: nat) in
     if 48 \<le> n \<and> n \<le> 57 then of_nat (n - 48)
     else if 65 \<le> n \<and> n \<le> 70 then of_nat (n - 55)
     else if 97 \<le> n \<and> n \<le> 102 then of_nat (n - 87)
     else 255)"

definition xtob :: "char \<Rightarrow> char \<Rightarrow> byte option" where
  "xtob x1 x2 = (let b1 = xvalues x1; b2 = xvalues x2 in
     if b1 \<noteq> 255 \<and> b2 \<noteq> 255 then Some (or (push_bit 4 b1) b2) else None)"

text \<open>The loop over the offsets: \<open>uuid[i]\<close> from the two characters at each offset.\<close>

fun uuid_bytes_at :: "string \<Rightarrow> nat list \<Rightarrow> byte list option" where
  "uuid_bytes_at s [] = Some []"
| "uuid_bytes_at s (x # xs) =
     (case xtob (s ! x) (s ! (x + 1)) of
        None \<Rightarrow> None
      | Some b \<Rightarrow> map_option ((#) b) (uuid_bytes_at s xs))"

fun uuid_of_bytes :: "byte list \<Rightarrow> uuid option" where
  "uuid_of_bytes [b0, b1, b2, b3, b4, b5, b6, b7, b8, b9, b10, b11, b12, b13, b14, b15] =
     Some (UUID b0 b1 b2 b3 b4 b5 b6 b7 b8 b9 b10 b11 b12 b13 b14 b15)"
| "uuid_of_bytes bs = None"

definition uuid_scan :: "string \<Rightarrow> nat list \<Rightarrow> uuid_error + uuid" where
  "uuid_scan s offs =
     (case Option.bind (uuid_bytes_at s offs) uuid_of_bytes of
        None \<Rightarrow> Inl InvalidFormat
      | Some u \<Rightarrow> Inr u)"

definition hyphenated_offsets :: "nat list" where
  "hyphenated_offsets = [0, 2, 4, 6, 9, 11, 14, 16, 19, 21, 24, 26, 28, 30, 32, 34]"

definition parse_hyphenated :: "string \<Rightarrow> uuid_error + uuid" where
  "parse_hyphenated s =
     (if s ! 8 \<noteq> CHR ''-'' \<or> s ! 13 \<noteq> CHR ''-'' \<or> s ! 18 \<noteq> CHR ''-'' \<or> s ! 23 \<noteq> CHR ''-''
      then Inl InvalidFormat else uuid_scan s hyphenated_offsets)"

text \<open>\<open>strings.EqualFold\<close> on ASCII text compares letters without their case.\<close>

definition lower :: "char \<Rightarrow> char" where
  "lower c = (let n = (of_char c :: nat) in if 65 \<le> n \<and> n \<le> 90 then char_of (n + 32) else c)"

definition equalFold :: "string \<Rightarrow> string \<Rightarrow> bool" where
  "equalFold s t \<longleftrightarrow> map lower s = map lower t"

definition uuid_Parse :: "string \<Rightarrow> uuid_error + uuid" where
  "uuid_Parse s =
     (if length s = 36 then parse_hyphenated s
      else if length s = 36 + 9 then
        (if \<not> equalFold (take 9 s) ''urn:uuid:'' then Inl (InvalidUrnPrefix (take 9 s))
         else parse_hyphenated (drop 9 s))
      else if length s = 36 + 2 then parse_hyphenated (drop 1 s)
      else if length s = 32 then uuid_scan s (map (\<lambda>i. 2 * i) [0..<16])
      else Inl (InvalidLength (length s)))"

text \<open>
  The value \<open>Parse\<close> returns next to an error: the bytes it read before it stopped, then zeros.
  Several handlers print it in their message.
\<close>

fun bytes_until :: "string \<Rightarrow> nat list \<Rightarrow> byte list" where
  "bytes_until s [] = []"
| "bytes_until s (x # xs) =
     (case xtob (s ! x) (s ! (x + 1)) of None \<Rightarrow> [] | Some b \<Rightarrow> b # bytes_until s xs)"

definition hyphenated_until :: "string \<Rightarrow> byte list" where
  "hyphenated_until s =
     (if s ! 8 \<noteq> CHR ''-'' \<or> s ! 13 \<noteq> CHR ''-'' \<or> s ! 18 \<noteq> CHR ''-'' \<or> s ! 23 \<noteq> CHR ''-''
      then [] else bytes_until s hyphenated_offsets)"

definition uuid_Parse_value :: "string \<Rightarrow> uuid" where
  "uuid_Parse_value s =
     (let bs = (if length s = 36 then hyphenated_until s
                else if length s = 36 + 9 then
                  (if \<not> equalFold (take 9 s) ''urn:uuid:'' then [] else hyphenated_until (drop 9 s))
                else if length s = 36 + 2 then hyphenated_until (drop 1 s)
                else if length s = 32 then bytes_until s (map (\<lambda>i. 2 * i) [0..<16])
                else [])
      in case uuid_of_bytes (take 16 (bs @ replicate 16 0)) of None \<Rightarrow> uuid_Nil | Some u \<Rightarrow> u)"

section \<open>Hexadecimal digits\<close>

lemma hexChar_cases:
  "n < 16 \<Longrightarrow> n \<in> {0, 1, 2, 3, 4, 5, 6, 7, 8, 9, 10, 11, 12, 13, 14, 15 :: nat}"
  by (simp, arith)

lemma xvalues_hexChar: "n < 16 \<Longrightarrow> xvalues (hexChar n) = of_nat n"
  by (drule hexChar_cases) (auto simp: hexChar_def hexdigits_def xvalues_def)

lemma hexChar_not_255: "n < 16 \<Longrightarrow> (of_nat n :: byte) \<noteq> 255"
  by (drule hexChar_cases) auto

lemma byte_nibbles: "or (push_bit 4 (of_nat (unat b div 16))) (of_nat (unat b mod 16)) = (b :: byte)"
proof -
  have hi: "(of_nat (unat b div 16) :: byte) = drop_bit 4 b"
    by (simp add: drop_bit_eq_div word_arith_nat_div)
  have lo: "(of_nat (unat b mod 16) :: byte) = take_bit 4 b"
    by (simp add: take_bit_eq_mod word_arith_nat_mod)
  show ?thesis
    unfolding hi lo by (rule bit_eqI) (auto simp: bit_simps)
qed

lemma xtob_hexByte [simp]:
  "xtob (hexChar (unat b div 16)) (hexChar (unat b mod 16)) = Some b"
proof -
  have "unat b < 256" using unsigned_less [of b, where ?'a = nat] by simp
  then have hi: "unat b div 16 < 16" by simp
  have lo: "unat b mod 16 < 16" by simp
  from hi lo show ?thesis
    by (simp add: xtob_def Let_def xvalues_hexChar hexChar_not_255 byte_nibbles)
qed

section \<open>Round trip and injectivity\<close>

lemma uuid_String_expand:
  "uuid_String (UUID b0 b1 b2 b3 b4 b5 b6 b7 b8 b9 b10 b11 b12 b13 b14 b15) =
     hexByte b0 @ hexByte b1 @ hexByte b2 @ hexByte b3 @ ''-'' @ hexByte b4 @ hexByte b5 @ ''-'' @
     hexByte b6 @ hexByte b7 @ ''-'' @ hexByte b8 @ hexByte b9 @ ''-'' @ hexByte b10 @
     hexByte b11 @ hexByte b12 @ hexByte b13 @ hexByte b14 @ hexByte b15"
  by (simp add: uuid_String_def hexEncode_def Let_def numeral_eq_Suc)

lemma length_uuid_String [simp]: "length (uuid_String u) = 36"
  by (cases u) (simp add: uuid_String_expand hexByte_def)

lemma parse_hyphenated_String [simp]: "parse_hyphenated (uuid_String u) = Inr u"
  by (cases u)
    (simp add: uuid_String_expand hexByte_def parse_hyphenated_def uuid_scan_def
      hyphenated_offsets_def)

lemma uuid_Parse_String [simp]: "uuid_Parse (uuid_String u) = Inr u"
  by (simp add: uuid_Parse_def)

lemma uuid_String_inj [simp]: "uuid_String u = uuid_String v \<longleftrightarrow> u = v"
  by (metis uuid_Parse_String Inr_inject)

lemma uuid_String_not_Nil [simp]: "uuid_String u \<noteq> []"
  using length_uuid_String [of u] by force

text \<open>A key that came from \<open>String\<close> is turned back into its identifier.\<close>

lemma inj_uuid_String: "inj uuid_String"
  by (simp add: inj_def)

text \<open>
  The parser accepts three more spellings of the same identifier. For the braced form only
  the 36 characters in the middle are read, so any first and last character is accepted.
\<close>

lemma uuid_Parse_urn: "uuid_Parse (''urn:uuid:'' @ uuid_String u) = Inr u"
  by (simp add: uuid_Parse_def equalFold_def)

lemma uuid_bytes_at_append:
  "\<forall>x \<in> set xs. x + 1 < length s \<Longrightarrow> uuid_bytes_at (s @ t) xs = uuid_bytes_at s xs"
  by (induction xs) (auto simp: nth_append split: option.split)

lemma parse_hyphenated_snoc:
  assumes "length s = 36"
  shows "parse_hyphenated (s @ [c]) = parse_hyphenated s"
proof -
  have "uuid_bytes_at (s @ [c]) hyphenated_offsets = uuid_bytes_at s hyphenated_offsets"
    by (rule uuid_bytes_at_append) (simp add: hyphenated_offsets_def assms)
  with assms show ?thesis
    by (simp add: parse_hyphenated_def uuid_scan_def nth_append)
qed

lemma uuid_Parse_wrapped: "uuid_Parse (c # uuid_String u @ [d]) = Inr u"
  by (simp add: uuid_Parse_def parse_hyphenated_snoc)

lemma uuid_Parse_length:
  "uuid_Parse s = Inr u \<Longrightarrow> length s \<in> {32, 36, 38, 45}"
  by (auto simp: uuid_Parse_def split: if_splits)

lemma uuid_Parse_Nil [simp]: "uuid_Parse [] = Inl (InvalidLength 0)"
  by (simp add: uuid_Parse_def)

end
