(* ===== verification/Decimal.thy ===== *)
theory Decimal
  imports Prelude
begin

text \<open>
  Prices: \<open>shopspring/decimal\<close>'s \<open>Decimal\<close> (an arbitrary-precision coefficient behind a
  pointer and an exponent) and \<open>pgtype.Numeric\<close>, with the conversions the services make
  between them. A nil \<open>*big.Int\<close> is \<open>None\<close>.
\<close>

record decimal =
  dec_value :: "int option"
  dec_exp :: int32

datatype infinity_modifier = Infinity | Finite | NegativeInfinity

record pg_numeric =
  num_Int :: "int option"
  num_Exp :: int32
  num_NaN :: bool
  num_InfinityModifier :: infinity_modifier
  num_Valid :: bool

record pg_timestamptz =
  tz_Time :: time
  tz_InfinityModifier :: infinity_modifier
  tz_Valid :: bool

text \<open>\<open>decimal.New\<close> takes an \<open>int64\<close>; \<open>NewFromBigInt\<close> copies through the pointer.\<close>

definition decimal_New :: "int64 \<Rightarrow> int32 \<Rightarrow> decimal" where
  "decimal_New v e = \<lparr>dec_value = Some (sint v), dec_exp = e\<rparr>"

definition decimal_NewFromBigInt :: "int option \<Rightarrow> int32 \<Rightarrow> decimal outcome" where
  "decimal_NewFromBigInt v e =
     (case v of
        None \<Rightarrow> Panic ''invalid memory address or nil pointer dereference''
      | Some i \<Rightarrow> Ret \<lparr>dec_value = Some i, dec_exp = e\<rparr>)"

definition decimal_Coefficient :: "decimal \<Rightarrow> int" where
  "decimal_Coefficient d = (case dec_value d of None \<Rightarrow> 0 | Some i \<Rightarrow> i)"

definition decimal_Exponent :: "decimal \<Rightarrow> int32" where
  "decimal_Exponent d = dec_exp d"

text \<open>The literal \<open>pgtype.Numeric{Exp: ..., Int: ..., Valid: true}\<close> every service writes.\<close>

definition numeric_of_decimal :: "decimal \<Rightarrow> pg_numeric" where
  "numeric_of_decimal d =
     \<lparr>num_Int = Some (decimal_Coefficient d), num_Exp = decimal_Exponent d, num_NaN = False,
      num_InfinityModifier = Finite, num_Valid = True\<rparr>"

definition timestamptz_of_time :: "time \<Rightarrow> pg_timestamptz" where
  "timestamptz_of_time t = \<lparr>tz_Time = t, tz_InfinityModifier = Finite, tz_Valid = True\<rparr>"

text \<open>\<open>Int.Int64()\<close>: the low 64 bits, through the pointer.\<close>

definition bigInt_Int64 :: "int option \<Rightarrow> int64 outcome" where
  "bigInt_Int64 v =
     (case v of
        None \<Rightarrow> Panic ''invalid memory address or nil pointer dereference''
      | Some i \<Rightarrow> Ret (word_of_int i))"

lemma numeric_roundtrip:
  "dec_value d \<noteq> None \<Longrightarrow>
     decimal_NewFromBigInt (num_Int (numeric_of_decimal d)) (num_Exp (numeric_of_decimal d)) = Ret d"
  by (auto simp: decimal_NewFromBigInt_def numeric_of_decimal_def decimal_Coefficient_def
      decimal_Exponent_def)

lemma numeric_of_decimal_not_nil [simp]: "num_Int (numeric_of_decimal d) \<noteq> None"
  by (simp add: numeric_of_decimal_def)

lemma tz_Time_timestamptz [simp]: "tz_Time (timestamptz_of_time t) = t"
  by (simp add: timestamptz_of_time_def)

text \<open>An \<open>int64\<close> coefficient survives \<open>decimal.New(Int.Int64(), Exp)\<close>; a larger one does not.\<close>

lemma decimal_New_Int64:
  assumes "- (2 ^ 63) \<le> i" and "i < 2 ^ 63"
  shows "and_then (bigInt_Int64 (Some i)) (\<lambda>v. Ret (decimal_New v e)) =
    Ret \<lparr>dec_value = Some i, dec_exp = e\<rparr>"
proof -
  have "sint (word_of_int i :: int64) = i"
    using assms by (simp add: signed_take_bit_int_eq_self sint_sbintrunc')
  then show ?thesis by (simp add: bigInt_Int64_def decimal_New_def)
qed

end
