(* ===== verification/GoErrors.thy ===== *)
theory GoErrors
  imports Prelude
begin

text \<open>
  Error values as the program builds them: package variables compared by identity,
  \<open>errors.New\<close>, \<open>fmt.Errorf\<close> with a trailing \<open>%w\<close>, and \<open>errors.Join\<close>, together with the
  text \<open>Error()\<close> and the search \<open>errors.Is\<close>. The pieces of \<open>fmt.Sprintf\<close> the program uses
  (\<open>%d\<close> on integers, one \<open>%s\<close> in a cache key) are here too.
\<close>

section \<open>Error values\<close>

text \<open>
  \<open>ErrVar name msg\<close> is the package variable \<open>name\<close>; \<open>ErrNew\<close> is a fresh error, equal to no
  variable; \<open>ErrWrap p e\<close> is \<open>fmt.Errorf(p + "%w", e)\<close>.
\<close>

datatype go_error =
    ErrVar string string
  | ErrNew string
  | ErrWrap string go_error
  | ErrJoin "go_error list"

fun join_lines :: "string list \<Rightarrow> string" where
  "join_lines [] = []"
| "join_lines [s] = s"
| "join_lines (s # t # ss) = s @ [CHR 0x0A] @ join_lines (t # ss)"

primrec Error :: "go_error \<Rightarrow> string" where
  "Error (ErrVar n msg) = msg"
| "Error (ErrNew msg) = msg"
| "Error (ErrWrap p e) = p @ Error e"
| "Error (ErrJoin es) = join_lines (map Error es)"

text \<open>\<open>errors.Is(err, target)\<close> for a package variable as target, searching the whole tree.\<close>

primrec errors_Is :: "go_error \<Rightarrow> go_error \<Rightarrow> bool" where
  "errors_Is (ErrVar n msg) t \<longleftrightarrow> t = ErrVar n msg"
| "errors_Is (ErrNew msg) t \<longleftrightarrow> False"
| "errors_Is (ErrWrap p e) t \<longleftrightarrow> errors_Is e t"
| "errors_Is (ErrJoin es) t \<longleftrightarrow> list_ex (\<lambda>b. b) (map (\<lambda>e. errors_Is e t) es)"

text \<open>\<open>errors.Join\<close> drops nil errors and is nil when nothing is left.\<close>

definition errors_Join :: "go_error option list \<Rightarrow> go_error option" where
  "errors_Join es =
     (case List.map_filter (\<lambda>e. e) es of [] \<Rightarrow> None | xs \<Rightarrow> Some (ErrJoin xs))"

lemma errors_Join_Some [simp]:
  "errors_Join [e, Some t] = Some (ErrJoin (case e of None \<Rightarrow> [t] | Some x \<Rightarrow> [x, t]))"
  by (simp add: errors_Join_def map_filter_simps split: option.split)

section \<open>The package variables\<close>

definition ErrEmptyAuth :: go_error where
  "ErrEmptyAuth = ErrVar ''errors.ErrEmptyAuth'' ''missing authorization''"

definition ErrEmptySubject :: go_error where
  "ErrEmptySubject = ErrVar ''errors.ErrEmptySubject'' ''missing subject''"

definition ErrTokenInvalid :: go_error where
  "ErrTokenInvalid = ErrVar ''errors.ErrTokenInvalid'' ''invalid token''"

definition ErrFailedHashToken :: go_error where
  "ErrFailedHashToken = ErrVar ''errors.ErrFailedHashToken'' ''failed hashing token''"

definition ErrOutOfStock :: go_error where
  "ErrOutOfStock = ErrVar ''errors.ErrOutOfStock'' ''product is out of stock''"

definition ErrPasswordMismatch :: go_error where
  "ErrPasswordMismatch = ErrVar ''userErrors.ErrPasswordMismatch'' ''password mismatch''"

definition ErrUserNotFound :: go_error where
  "ErrUserNotFound = ErrVar ''userErrors.ErrUserNotFound'' ''user not found''"

definition ErrEmailExist :: go_error where
  "ErrEmailExist = ErrVar ''userErrors.ErrEmailExist'' ''email already exist''"

text \<open>\<open>pgx.ErrNoRows\<close>, what \<open>QueryRow(...).Scan\<close> returns when the statement has no row.\<close>

definition ErrNoRows :: go_error where
  "ErrNoRows = ErrVar ''pgx.ErrNoRows'' ''no rows in result set''"

lemmas error_vars = ErrEmptyAuth_def ErrEmptySubject_def ErrTokenInvalid_def
  ErrFailedHashToken_def ErrOutOfStock_def ErrPasswordMismatch_def ErrUserNotFound_def
  ErrEmailExist_def ErrNoRows_def

lemma errors_Is_ErrNew_target [simp]: "\<not> errors_Is e (ErrNew m)"
  by (induction e) (auto simp: list_ex_iff)

section \<open>Formatting\<close>

definition digit :: "nat \<Rightarrow> char" where
  "digit n = char_of (48 + n)"

fun nat_digits :: "nat \<Rightarrow> string" where
  "nat_digits n = (if n < 10 then [digit n] else nat_digits (n div 10) @ [digit (n mod 10)])"

declare nat_digits.simps [simp del]

text \<open>\<open>%d\<close> on a signed integer.\<close>

definition format_d :: "int \<Rightarrow> string" where
  "format_d i = (if i < 0 then ''-'' @ nat_digits (nat (- i)) else nat_digits (nat i))"

text \<open>\<open>fmt.Sprintf(fmt, arg)\<close> for a format with one \<open>%s\<close>: the first one is replaced.\<close>

fun sprintf_s :: "string \<Rightarrow> string \<Rightarrow> string" where
  "sprintf_s [] a = []"
| "sprintf_s [c] a = [c]"
| "sprintf_s (c # d # r) a =
     (if c = CHR ''%'' \<and> d = CHR ''s'' then a @ r else c # sprintf_s (d # r) a)"

end
