(* ===== verification/Models.thy ===== *)
theory Models
  imports Uuid Decimal GoErrors
begin

text \<open>
  The data of the program: the table rows of \<open>internal/repository/models.go\<close>, the request
  and response structs of the services. Field names carry a prefix for their struct, since
  several structs share names such as \<open>ID\<close> and \<open>Quantity\<close>. A row holds each column as pgx
  hands it back to Go.
\<close>

section \<open>Table rows\<close>

datatype order_status = WAITING_PAYMENT | SHIPPING | COMPLETED | EXPIRED | CANCELLED

fun order_status_text :: "order_status \<Rightarrow> string" where
  "order_status_text WAITING_PAYMENT = ''WAITING_PAYMENT''"
| "order_status_text SHIPPING = ''SHIPPING''"
| "order_status_text COMPLETED = ''COMPLETED''"
| "order_status_text EXPIRED = ''EXPIRED''"
| "order_status_text CANCELLED = ''CANCELLED''"

record user_row =
  user_ID :: uuid
  user_Username :: string
  user_Email :: string
  user_Password :: string
  user_CreatedAt :: pg_timestamptz
  user_UpdatedAt :: pg_timestamptz

record product_row =
  product_ID :: uuid
  product_Name :: string
  product_Price :: pg_numeric
  product_Quantity :: int32
  product_CreatedAt :: pg_timestamptz
  product_UpdatedAt :: pg_timestamptz

record cart_row =
  cart_ID :: uuid
  cart_UserID :: uuid
  cart_CreatedAt :: pg_timestamptz
  cart_UpdatedAt :: pg_timestamptz

record cart_item_row =
  citem_ID :: uuid
  citem_CartID :: uuid
  citem_ProductID :: uuid
  citem_Quantity :: int32
  citem_Price :: pg_numeric
  citem_CreatedAt :: pg_timestamptz
  citem_UpdatedAt :: pg_timestamptz

record order_row =
  order_ID :: uuid
  order_UserID :: uuid
  order_Status :: order_status
  order_CreatedAt :: pg_timestamptz
  order_UpdatedAt :: pg_timestamptz

record order_item_row =
  oitem_ID :: uuid
  oitem_OrderID :: uuid
  oitem_ProductID :: uuid
  oitem_Quantity :: int32
  oitem_Price :: pg_numeric
  oitem_CreatedAt :: pg_timestamptz
  oitem_UpdatedAt :: pg_timestamptz

section \<open>Order requests and responses\<close>

text \<open>The reference to a result channel is \<open>None\<close> for a nil channel.\<close>

type_synonym chan_ref = "nat option"

record req_order_item =
  roi_CreatedAt :: time
  roi_UpdatedAt :: time
  roi_ID :: uuid
  roi_OrderID :: uuid
  roi_ProductID :: uuid
  roi_Price :: decimal
  roi_Quantity :: int32

record create_order =
  co_OrderItems :: "req_order_item list"
  co_CreatedAt :: time
  co_UpdatedAt :: time
  co_ID :: uuid
  co_UserId :: uuid
  co_ResultChannel :: chan_ref

record find_order_by_id =
  fobi_UserId :: uuid
  fobi_OrderId :: uuid

record find_orders =
  fo_UserId :: uuid
  fo_OrderId :: uuid

record res_order_item =
  soi_CreatedAt :: time
  soi_UpdatedAt :: time
  soi_ID :: uuid
  soi_OrderId :: uuid
  soi_ProductId :: uuid
  soi_Price :: decimal
  soi_Quantity :: int32

record res_order =
  so_CreatedAt :: time
  so_UpdatedAt :: time
  so_OrderItems :: "res_order_item list"
  so_Status :: string
  so_ID :: uuid
  so_UserId :: uuid

text \<open>The zero value \<open>response.Order{}\<close>.\<close>

definition time_zero :: time where
  "time_zero = 0"

definition res_order_zero :: res_order where
  "res_order_zero = \<lparr>so_CreatedAt = time_zero, so_UpdatedAt = time_zero, so_OrderItems = [],
     so_Status = [], so_ID = uuid_Nil, so_UserId = uuid_Nil\<rparr>"

text \<open>What a worker sends back to the handler that waits on a result channel.\<close>

record order_result =
  res_Order :: res_order
  res_Err :: "go_error option"

section \<open>Cart requests and responses\<close>

record req_cart_item =
  rci_ProductId :: uuid
  rci_Price :: decimal
  rci_Quantity :: int32

record req_cart =
  rc_CartItems :: "req_cart_item list"

record remove_cart =
  rmc_ID :: uuid
  rmc_UserId :: uuid

record remove_cart_item =
  rmci_ID :: uuid
  rmci_CartId :: uuid
  rmci_UserId :: uuid

record checkout_cart =
  cc_UserId :: uuid
  cc_CartId :: uuid

record find_cart_by_id =
  fcbi_ID :: uuid
  fcbi_UserId :: uuid

record res_cart_item =
  sci_ID :: uuid
  sci_CartID :: uuid
  sci_ProductID :: uuid
  sci_Quantity :: int32
  sci_Price :: decimal
  sci_CreatedAt :: time
  sci_UpdatedAt :: time

record res_cart =
  sc_ID :: uuid
  sc_UserID :: uuid
  sc_CartItems :: "res_cart_item list"
  sc_CreatedAt :: time
  sc_UpdatedAt :: time

definition res_cart_zero :: res_cart where
  "res_cart_zero = \<lparr>sc_ID = uuid_Nil, sc_UserID = uuid_Nil, sc_CartItems = [],
     sc_CreatedAt = time_zero, sc_UpdatedAt = time_zero\<rparr>"

section \<open>Product and user requests and responses\<close>

record req_product =
  rp_Name :: string
  rp_Price :: decimal
  rp_Quantity :: int64

record res_product =
  sp_ID :: uuid
  sp_Name :: string
  sp_Price :: decimal
  sp_Quantity :: int32
  sp_CreatedAt :: time
  sp_UpdatedAt :: time

record login_request =
  lr_Email :: string
  lr_Password :: string

record register_request =
  rr_Username :: string
  rr_Email :: string
  rr_Password :: string

section \<open>The cart as an order request\<close>

text \<open>\<open>cart/pkg/response/mapper.go\<close>: a cart becomes the order with the same identifier.\<close>

definition cart_item_to_order_item :: "uuid \<Rightarrow> res_cart_item \<Rightarrow> req_order_item" where
  "cart_item_to_order_item cid item =
     \<lparr>roi_CreatedAt = sci_CreatedAt item, roi_UpdatedAt = sci_UpdatedAt item,
      roi_ID = sci_ID item, roi_OrderID = cid, roi_ProductID = sci_ProductID item,
      roi_Price = sci_Price item, roi_Quantity = sci_Quantity item\<rparr>"

definition Cart_Order :: "res_cart \<Rightarrow> create_order" where
  "Cart_Order c =
     \<lparr>co_OrderItems = map (cart_item_to_order_item (sc_ID c)) (sc_CartItems c),
      co_CreatedAt = sc_CreatedAt c, co_UpdatedAt = sc_UpdatedAt c, co_ID = sc_ID c,
      co_UserId = sc_UserID c, co_ResultChannel = None\<rparr>"

text \<open>Every item of an order made from a cart names that order.\<close>

lemma Cart_Order_items_own:
  "it \<in> set (co_OrderItems (Cart_Order c)) \<Longrightarrow> roi_OrderID it = co_ID (Cart_Order c)"
  by (auto simp: Cart_Order_def cart_item_to_order_item_def)

end
