(* ===== verification/OrderMerge.thy ===== *)
theory OrderMerge
  imports Models
begin

text \<open>
  The in-memory half of \<open>OrderService.BatchCreateOrder\<close> in \<open>order/internal/service/order.go\<close>:
  \<open>mergeOrderItems\<close> groups the items of a batch by product and adds up their quantities,
  \<open>checkDecreaseQuantity\<close> pops items, last first, until what is left fits the stock that was
  read. Both maps have the text of an identifier as key. Quantities are \<open>int32\<close> and wrap.
\<close>

section \<open>Merging the batch\<close>

record merged_order_item =
  moi_Items :: "req_order_item list"
  moi_OrderedItemQuantity :: int32

record merge_state =
  ms_mapMergedOrderItem :: "string \<rightharpoonup> merged_order_item"
  ms_mapOrder :: "string \<rightharpoonup> create_order"
  ms_productIds :: "uuid list"
  ms_orderIds :: "uuid list"

definition merge_init :: merge_state where
  "merge_init = \<lparr>ms_mapMergedOrderItem = Map.empty, ms_mapOrder = Map.empty,
     ms_productIds = [], ms_orderIds = []\<rparr>"

text \<open>The body of the inner loop, over the items of one order.\<close>

definition mergeItem :: "merge_state \<Rightarrow> req_order_item \<Rightarrow> merge_state" where
  "mergeItem s orderItem =
     (let productId = uuid_String (roi_ProductID orderItem) in
      case ms_mapMergedOrderItem s productId of
        None \<Rightarrow> s\<lparr>ms_mapMergedOrderItem := (ms_mapMergedOrderItem s)(productId \<mapsto>
                    \<lparr>moi_Items = [orderItem], moi_OrderedItemQuantity = roi_Quantity orderItem\<rparr>),
                  ms_productIds := ms_productIds s @ [roi_ProductID orderItem]\<rparr>
      | Some existing \<Rightarrow>
          s\<lparr>ms_mapMergedOrderItem := (ms_mapMergedOrderItem s)(productId \<mapsto>
               existing\<lparr>moi_OrderedItemQuantity :=
                          moi_OrderedItemQuantity existing + roi_Quantity orderItem,
                        moi_Items := moi_Items existing @ [orderItem]\<rparr>)\<rparr>)"

text \<open>The body of the outer loop.\<close>

definition mergeOrder :: "merge_state \<Rightarrow> create_order \<Rightarrow> merge_state" where
  "mergeOrder s order =
     (let orderId = uuid_String (co_ID order);
          s1 = s\<lparr>ms_orderIds := ms_orderIds s @ [co_ID order]\<rparr>;
          s2 = (if ms_mapOrder s1 orderId = None
                then s1\<lparr>ms_mapOrder := (ms_mapOrder s1)(orderId \<mapsto> order)\<rparr> else s1)
      in foldl mergeItem s2 (co_OrderItems order))"

definition mergeOrderItems :: "create_order list \<Rightarrow> merge_state" where
  "mergeOrderItems params = foldl mergeOrder merge_init params"

subsection \<open>What the merge computes\<close>

text \<open>All items of the batch, and those of one product, in the order they were received.\<close>

definition batch_items :: "create_order list \<Rightarrow> req_order_item list" where
  "batch_items params = concat (map co_OrderItems params)"

definition items_of_product :: "uuid \<Rightarrow> req_order_item list \<Rightarrow> req_order_item list" where
  "items_of_product p items = filter (\<lambda>i. roi_ProductID i = p) items"

definition total_quantity :: "req_order_item list \<Rightarrow> int32" where
  "total_quantity items = sum_list (map roi_Quantity items)"

text \<open>A merged entry is consistent when its quantity is the (wrapped) sum of its items.\<close>

definition moi_consistent :: "merged_order_item \<Rightarrow> bool" where
  "moi_consistent m \<longleftrightarrow> moi_OrderedItemQuantity m = total_quantity (moi_Items m)"

definition merged_of :: "req_order_item list \<Rightarrow> merged_order_item" where
  "merged_of items = \<lparr>moi_Items = items, moi_OrderedItemQuantity = total_quantity items\<rparr>"

lemma moi_consistent_merged_of [simp]: "moi_consistent (merged_of items)"
  by (simp add: moi_consistent_def merged_of_def)

lemma total_quantity_append [simp]: "total_quantity (xs @ ys) = total_quantity xs + total_quantity ys"
  by (simp add: total_quantity_def)

lemma total_quantity_simps [simp]:
  "total_quantity [] = 0"
  "total_quantity (i # xs) = roi_Quantity i + total_quantity xs"
  by (simp_all add: total_quantity_def)

lemma items_of_product_append [simp]:
  "items_of_product p (xs @ ys) = items_of_product p xs @ items_of_product p ys"
  by (simp add: items_of_product_def)

lemma items_of_product_simps [simp]:
  "items_of_product p [] = []"
  "items_of_product p (i # xs) =
     (if roi_ProductID i = p then i # items_of_product p xs else items_of_product p xs)"
  by (simp_all add: items_of_product_def)

lemma batch_items_simps [simp]:
  "batch_items [] = []"
  "batch_items (o1 # ps) = co_OrderItems o1 @ batch_items ps"
  by (simp_all add: batch_items_def)

lemma batch_items_append [simp]: "batch_items (ps @ qs) = batch_items ps @ batch_items qs"
  by (simp add: batch_items_def)

text \<open>The invariant of the inner loop after the items \<open>done\<close>.\<close>

definition merged_upto :: "req_order_item list \<Rightarrow> merge_state \<Rightarrow> bool" where
  "merged_upto seen s \<longleftrightarrow>
     (\<forall>p. ms_mapMergedOrderItem s (uuid_String p) =
        (if items_of_product p seen = [] then None
         else Some (merged_of (items_of_product p seen)))) \<and>
     dom (ms_mapMergedOrderItem s) \<subseteq> range uuid_String \<and>
     distinct (ms_productIds s) \<and> set (ms_productIds s) = roi_ProductID ` set seen"

lemma items_of_product_Nil_iff: "items_of_product p xs = [] \<longleftrightarrow> p \<notin> roi_ProductID ` set xs"
  by (auto simp: items_of_product_def filter_empty_conv)

lemma merged_upto_mergeItem:
  assumes "merged_upto seen s"
  shows "merged_upto (seen @ [item]) (mergeItem s item)"
proof (cases "items_of_product (roi_ProductID item) seen = []")
  case True
  then have "ms_mapMergedOrderItem s (uuid_String (roi_ProductID item)) = None"
    using assms by (simp add: merged_upto_def)
  moreover have "roi_ProductID item \<notin> set (ms_productIds s)"
    using assms True by (simp add: merged_upto_def items_of_product_Nil_iff)
  ultimately show ?thesis
    using assms True by (auto simp: merged_upto_def mergeItem_def merged_of_def)
next
  case False
  then have "ms_mapMergedOrderItem s (uuid_String (roi_ProductID item)) =
      Some (merged_of (items_of_product (roi_ProductID item) seen))"
    using assms by (simp add: merged_upto_def)
  moreover have "roi_ProductID item \<in> set (ms_productIds s)"
    using assms False by (simp add: merged_upto_def items_of_product_Nil_iff)
  ultimately show ?thesis
    using assms False by (auto simp: merged_upto_def mergeItem_def merged_of_def)
qed

lemma merged_upto_foldl:
  "merged_upto seen s \<Longrightarrow> merged_upto (seen @ items) (foldl mergeItem s items)"
proof (induction items arbitrary: seen s)
  case Nil
  then show ?case by simp
next
  case (Cons i items)
  then show ?case
    using Cons.IH [OF merged_upto_mergeItem [OF Cons.prems, of i]] by simp
qed

lemma mergeItem_other [simp]:
  "ms_mapOrder (mergeItem s i) = ms_mapOrder s" "ms_orderIds (mergeItem s i) = ms_orderIds s"
  by (simp_all add: mergeItem_def Let_def split: option.split)

lemma foldl_mergeItem_other [simp]:
  "ms_mapOrder (foldl mergeItem s items) = ms_mapOrder s"
  "ms_orderIds (foldl mergeItem s items) = ms_orderIds s"
  by (induction items arbitrary: s) auto

lemma merged_upto_mergeOrder:
  "merged_upto seen s \<Longrightarrow> merged_upto (seen @ co_OrderItems order) (mergeOrder s order)"
  unfolding mergeOrder_def Let_def
  by (rule merged_upto_foldl) (simp add: merged_upto_def)

lemma mergeOrder_other [simp]:
  "ms_mapOrder (mergeOrder s order) = (if ms_mapOrder s (uuid_String (co_ID order)) = None
     then (ms_mapOrder s)(uuid_String (co_ID order) \<mapsto> order) else ms_mapOrder s)"
  "ms_orderIds (mergeOrder s order) = ms_orderIds s @ [co_ID order]"
  by (simp_all add: mergeOrder_def Let_def)

lemma foldl_mergeOrder:
  assumes "merged_upto seen s"
  shows "merged_upto (seen @ batch_items params) (foldl mergeOrder s params)"
  using assms
proof (induction params arbitrary: seen s)
  case Nil
  then show ?case by simp
next
  case (Cons o1 params)
  show ?case
    using Cons.IH [OF merged_upto_mergeOrder [OF Cons.prems, of o1]] by simp
qed

lemma mergeOrderItems_merged: "merged_upto (batch_items params) (mergeOrderItems params)"
proof -
  have "merged_upto [] merge_init"
    by (simp add: merged_upto_def merge_init_def)
  from foldl_mergeOrder [OF this] show ?thesis by (simp add: mergeOrderItems_def)
qed

text \<open>The first order of the batch with an identifier is the one \<open>mapOrder\<close> keeps.\<close>

definition first_order :: "create_order list \<Rightarrow> uuid \<Rightarrow> create_order option" where
  "first_order params i = find (\<lambda>o1. co_ID o1 = i) params"

lemma foldl_mergeOrder_mapOrder:
  "ms_mapOrder (foldl mergeOrder s params) (uuid_String i) =
     (case ms_mapOrder s (uuid_String i) of Some o1 \<Rightarrow> Some o1 | None \<Rightarrow> first_order params i)"
proof (induction params arbitrary: s)
  case Nil
  then show ?case by (simp add: first_order_def split: option.split)
next
  case (Cons o1 params)
  show ?case
    by (simp add: Cons.IH first_order_def split: option.split)
qed

lemma mergeOrderItems_mapOrder:
  "ms_mapOrder (mergeOrderItems params) (uuid_String i) = first_order params i"
  by (simp add: mergeOrderItems_def foldl_mergeOrder_mapOrder merge_init_def)

lemma foldl_mergeOrder_dom:
  "dom (ms_mapOrder (foldl mergeOrder s params)) =
     dom (ms_mapOrder s) \<union> (\<lambda>o1. uuid_String (co_ID o1)) ` set params"
  by (induction params arbitrary: s) auto

lemma mergeOrderItems_mapOrder_dom:
  "dom (ms_mapOrder (mergeOrderItems params)) = (\<lambda>o1. uuid_String (co_ID o1)) ` set params"
  by (simp add: mergeOrderItems_def foldl_mergeOrder_dom merge_init_def)

lemma mergeOrderItems_orderIds: "ms_orderIds (mergeOrderItems params) = map co_ID params"
proof -
  have "ms_orderIds (foldl mergeOrder s params) = ms_orderIds s @ map co_ID params" for s
    by (induction params arbitrary: s) auto
  then show ?thesis by (simp add: mergeOrderItems_def merge_init_def)
qed

lemma mergeOrderItems_dom:
  "dom (ms_mapMergedOrderItem (mergeOrderItems params)) =
     uuid_String ` roi_ProductID ` set (batch_items params)"
proof (intro equalityI subsetI)
  fix k
  assume k: "k \<in> dom (ms_mapMergedOrderItem (mergeOrderItems params))"
  with mergeOrderItems_merged obtain p where p: "k = uuid_String p"
    unfolding merged_upto_def by blast
  with k mergeOrderItems_merged [of params] have "p \<in> roi_ProductID ` set (batch_items params)"
    by (auto simp: merged_upto_def items_of_product_Nil_iff split: if_splits)
  with p show "k \<in> uuid_String ` roi_ProductID ` set (batch_items params)" by (rule image_eqI)
next
  fix k
  assume "k \<in> uuid_String ` roi_ProductID ` set (batch_items params)"
  then show "k \<in> dom (ms_mapMergedOrderItem (mergeOrderItems params))"
    using mergeOrderItems_merged [of params]
    by (auto simp: merged_upto_def items_of_product_Nil_iff)
qed

end
