(* ===== verification/OrderCheck.thy ===== *)
theory OrderCheck
  imports OrderMerge "HOL-Library.Sublist"
begin

text \<open>
  \<open>checkDecreaseQuantity\<close> of \<open>order/internal/service/order.go\<close>. For each product that was
  read, the loop takes the last item off the merged list (and one item off the list of the
  order it names) while stock minus ordered quantity is negative in \<open>int32\<close>. Slicing
  \<open>order.OrderItems[:len(order.OrderItems)-1]\<close> panics on an empty list.
\<close>

section \<open>The loops\<close>

definition slice_panic :: string where
  "slice_panic = ''runtime error: slice bounds out of range [:-1]''"

type_synonym order_map = "string \<rightharpoonup> create_order"
type_synonym merged_map = "string \<rightharpoonup> merged_order_item"

text \<open>The removal of one item from \<open>mapOrder\<close>: \<open>if order, ok := mapOrder[orderId]; ok { ... }\<close>.\<close>

definition dropOrderItem :: "order_map \<Rightarrow> string \<Rightarrow> order_map outcome" where
  "dropOrderItem mapOrder orderId =
     (case mapOrder orderId of
        None \<Rightarrow> Ret mapOrder
      | Some order \<Rightarrow>
          if co_OrderItems order = [] then Panic slice_panic
          else Ret (mapOrder(orderId \<mapsto>
                      order\<lparr>co_OrderItems := butlast (co_OrderItems order)\<rparr>)))"

text \<open>The merged entry without its last item.\<close>

definition popItem :: "merged_order_item \<Rightarrow> merged_order_item" where
  "popItem merged =
     merged\<lparr>moi_OrderedItemQuantity :=
               moi_OrderedItemQuantity merged - roi_Quantity (last (moi_Items merged)),
            moi_Items := butlast (moi_Items merged)\<rparr>"

lemma moi_Items_popItem [simp]: "moi_Items (popItem merged) = butlast (moi_Items merged)"
  by (simp add: popItem_def)

function popLoop :: "int32 \<Rightarrow> merged_order_item \<Rightarrow> order_map \<Rightarrow>
    (merged_order_item \<times> order_map) outcome" where
  "popLoop quantity merged mapOrder =
     (if \<not> quantity - moi_OrderedItemQuantity merged <s 0 then Ret (merged, mapOrder)
      else if moi_Items merged = [] then Ret (merged, mapOrder)
      else and_then (dropOrderItem mapOrder (uuid_String (roi_OrderID (last (moi_Items merged)))))
             (\<lambda>mapOrder'. popLoop quantity (popItem merged) mapOrder'))"
  by auto
termination
  by (relation "measure (\<lambda>(q, m, mo). length (moi_Items m))") auto

declare popLoop.simps [simp del]

definition checkProduct :: "merged_map \<times> order_map \<Rightarrow> product_row \<Rightarrow>
    (merged_map \<times> order_map) outcome" where
  "checkProduct maps product =
     (case maps of (mapMergedOrderItem, mapOrder) \<Rightarrow>
        let productId = uuid_String (product_ID product) in
        case mapMergedOrderItem productId of
          None \<Rightarrow> Ret (mapMergedOrderItem, mapOrder)
        | Some merged \<Rightarrow>
            and_then (popLoop (product_Quantity product) merged mapOrder)
              (\<lambda>(merged', mapOrder'). Ret (mapMergedOrderItem(productId \<mapsto> merged'), mapOrder')))"

definition checkDecreaseQuantity :: "product_row list \<Rightarrow> merged_map \<Rightarrow> order_map \<Rightarrow>
    (merged_map \<times> order_map) outcome" where
  "checkDecreaseQuantity products mapMergedOrderItem mapOrder =
     go_for checkProduct (mapMergedOrderItem, mapOrder) products"

section \<open>The items that stay: the longest prefix that fits\<close>

definition fits :: "int32 \<Rightarrow> req_order_item list \<Rightarrow> bool" where
  "fits quantity items \<longleftrightarrow> 0 \<le> sint (quantity - total_quantity items)"

definition retained :: "int32 \<Rightarrow> req_order_item list \<Rightarrow> req_order_item list" where
  "retained quantity items = last (filter (\<lambda>xs. xs = [] \<or> fits quantity xs) (prefixes items))"

lemma retained_Nil [simp]: "retained q [] = []"
  by (simp add: retained_def)

lemma retained_snoc:
  "retained q (xs @ [x]) = (if fits q (xs @ [x]) then xs @ [x] else retained q xs)"
  by (simp add: retained_def prefixes_snoc)

lemma retained_butlast:
  "xs \<noteq> [] \<Longrightarrow> retained q xs = (if fits q xs then xs else retained q (butlast xs))"
  using retained_snoc [of q "butlast xs" "last xs"] by simp

lemma retained_prefix: "prefix (retained q xs) xs"
proof (induction xs rule: rev_induct)
  case Nil
  then show ?case by simp
next
  case (snoc x xs)
  then show ?case by (auto simp: retained_snoc intro: prefix_order.trans)
qed

lemma retained_set: "set (retained q xs) \<subseteq> set xs"
  using retained_prefix set_mono_prefix by blast

lemma retained_fits: "retained q xs \<noteq> [] \<Longrightarrow> fits q (retained q xs)"
  by (induction xs rule: rev_induct) (auto simp: retained_snoc split: if_splits)

lemma retained_maximal:
  "prefix ys xs \<Longrightarrow> fits q ys \<Longrightarrow> length ys \<le> length (retained q xs)"
proof (induction xs rule: rev_induct)
  case Nil
  then show ?case by simp
next
  case (snoc x xs)
  then show ?case
    by (auto simp: retained_snoc dest: prefix_length_le)
qed

lemma retained_all: "fits q xs \<Longrightarrow> retained q xs = xs"
  by (cases xs rule: rev_cases) (simp_all add: retained_snoc)

lemma total_quantity_butlast:
  "xs \<noteq> [] \<Longrightarrow> total_quantity (butlast xs) = total_quantity xs - roi_Quantity (last xs)"
  using total_quantity_append [of "butlast xs" "[last xs]"] by simp

lemma popItem_merged_of [simp]: "xs \<noteq> [] \<Longrightarrow> popItem (merged_of xs) = merged_of (butlast xs)"
  by (simp add: popItem_def merged_of_def total_quantity_butlast)

lemma loop_condition: "q - total_quantity xs <s 0 \<longleftrightarrow> \<not> fits q xs"
  by (simp add: word_sless_alt fits_def not_le)

lemma merged_of_sel [simp]:
  "moi_Items (merged_of xs) = xs" "moi_OrderedItemQuantity (merged_of xs) = total_quantity xs"
  by (simp_all add: merged_of_def)

lemma popLoop_merged_of:
  "popLoop q (merged_of xs) mo =
     (if fits q xs \<or> xs = [] then Ret (merged_of xs, mo)
      else and_then (dropOrderItem mo (uuid_String (roi_OrderID (last xs))))
             (\<lambda>mo'. popLoop q (merged_of (butlast xs)) mo'))"
  by (simp add: popLoop.simps [of q "merged_of xs" mo] loop_condition)

text \<open>Whatever \<open>mapOrder\<close> holds, the loop that returns leaves the longest prefix that fits.\<close>

lemma popLoop_retained:
  "popLoop q (merged_of xs) mo = Ret (m', mo') \<Longrightarrow> m' = merged_of (retained q xs)"
proof (induction xs arbitrary: mo rule: rev_induct)
  case Nil
  then show ?case by (simp add: popLoop_merged_of)
next
  case (snoc x xs)
  then show ?case
    by (auto simp: popLoop_merged_of [of q "xs @ [x]"] retained_snoc split: if_splits)
qed

section \<open>The map of orders during the loop\<close>

text \<open>Only the item lists shrink.\<close>

definition shrunk :: "create_order \<Rightarrow> create_order \<Rightarrow> bool" where
  "shrunk o1 o2 \<longleftrightarrow> prefix (co_OrderItems o2) (co_OrderItems o1) \<and>
     o2 = o1\<lparr>co_OrderItems := co_OrderItems o2\<rparr>"

definition same_orders :: "order_map \<Rightarrow> order_map \<Rightarrow> bool" where
  "same_orders mo mo' \<longleftrightarrow> (\<forall>k. rel_option shrunk (mo k) (mo' k))"

lemma shrunk_refl [simp]: "shrunk o1 o1"
  by (simp add: shrunk_def)

lemma shrunk_trans: "shrunk o1 o2 \<Longrightarrow> shrunk o2 o3 \<Longrightarrow> shrunk o1 o3"
  by (cases o1, cases o2, cases o3) (auto simp: shrunk_def intro: prefix_order.trans)

lemma shrunk_ID: "shrunk o1 o2 \<Longrightarrow> co_ID o2 = co_ID o1 \<and> co_UserId o2 = co_UserId o1"
  by (cases o1, cases o2) (auto simp: shrunk_def)

lemma shrunk_butlast: "shrunk o1 (o1\<lparr>co_OrderItems := butlast (co_OrderItems o1)\<rparr>)"
  by (simp add: shrunk_def prefixeq_butlast)

lemma same_orders_refl [intro, simp]: "same_orders mo mo"
  by (simp add: same_orders_def option.rel_refl)

lemma same_ordersD:
  "same_orders mo mo' \<Longrightarrow> mo k = Some o1 \<Longrightarrow> \<exists>o2. mo' k = Some o2 \<and> shrunk o1 o2"
  by (metis option_rel_Some1 same_orders_def)

lemma same_ordersD':
  "same_orders mo mo' \<Longrightarrow> mo' k = Some o2 \<Longrightarrow> \<exists>o1. mo k = Some o1 \<and> shrunk o1 o2"
  by (metis option_rel_Some2 same_orders_def)

lemma same_orders_dom: "same_orders mo mo' \<Longrightarrow> dom mo' = dom mo"
  using same_ordersD same_ordersD' by blast

lemma same_orders_trans [trans]:
  assumes "same_orders mo1 mo2" and "same_orders mo2 mo3"
  shows "same_orders mo1 mo3"
  unfolding same_orders_def
proof
  fix k
  from assms have "rel_option shrunk (mo1 k) (mo2 k)" "rel_option shrunk (mo2 k) (mo3 k)"
    by (simp_all add: same_orders_def)
  then show "rel_option shrunk (mo1 k) (mo3 k)"
    by (auto simp: rel_option_iff split: option.splits intro: shrunk_trans)
qed

lemma dropOrderItem_same_orders: "dropOrderItem mo k = Ret mo' \<Longrightarrow> same_orders mo mo'"
  by (auto simp: dropOrderItem_def same_orders_def shrunk_butlast option.rel_refl
      split: option.splits if_splits)

lemma popLoop_same_orders:
  "popLoop q m mo = Ret (m', mo') \<Longrightarrow> same_orders mo mo'"
proof (induction q m mo rule: popLoop.induct)
  case (1 q m mo)
  show ?case
  proof (cases "\<not> q - moi_OrderedItemQuantity m <s 0 \<or> moi_Items m = []")
    case True
    with "1.prems" show ?thesis by (subst (asm) popLoop.simps) (auto split: if_splits)
  next
    case False
    with "1.prems" obtain mo1 where
      "dropOrderItem mo (uuid_String (roi_OrderID (last (moi_Items m)))) = Ret mo1"
      "popLoop q (popItem m) mo1 = Ret (m', mo')"
      by (subst (asm) popLoop.simps) auto
    with False "1.IH" show ?thesis
      by (meson dropOrderItem_same_orders same_orders_trans)
  qed
qed

lemma checkProduct_same_orders:
  "checkProduct (mm, mo) r = Ret (mm', mo') \<Longrightarrow> same_orders mo mo'"
  by (auto simp: checkProduct_def Let_def split: option.splits dest: popLoop_same_orders)

lemma checkDecreaseQuantity_same_orders:
  assumes "checkDecreaseQuantity products mm mo = Ret (mm', mo')"
  shows "same_orders mo mo'"
proof -
  have "(\<lambda>(mm', mo'). same_orders mo mo') (mm', mo')"
    using assms unfolding checkDecreaseQuantity_def
    by (rule go_for_preserves)
      (auto dest: checkProduct_same_orders intro: same_orders_trans)
  then show ?thesis by simp
qed

end
