(* ===== verification/OrderBalance.thy ===== *)
theory OrderBalance
  imports OrderCheck
begin

text \<open>
  What \<open>checkDecreaseQuantity\<close> returns, as a closed form of its input, and why it does not
  panic: as long as the items of an order name that order and no identifier comes twice, the
  length of an order's own list is the number of its items that are left in the merged lists.
\<close>

section \<open>The merged lists after the check\<close>

definition all_consistent :: "merged_map \<Rightarrow> bool" where
  "all_consistent mm \<longleftrightarrow> (\<forall>k m. mm k = Some m \<longrightarrow> m = merged_of (moi_Items m))"

definition decided :: "product_row list \<Rightarrow> string \<Rightarrow> merged_order_item \<Rightarrow> merged_order_item" where
  "decided products k m =
     (case find (\<lambda>r. uuid_String (product_ID r) = k) products of
        None \<Rightarrow> m
      | Some r \<Rightarrow> merged_of (retained (product_Quantity r) (moi_Items m)))"

lemma decided_Nil [simp]: "decided [] k m = m"
  by (simp add: decided_def)

lemma all_consistent_upd [simp]: "all_consistent mm \<Longrightarrow> all_consistent (mm(k \<mapsto> merged_of xs))"
  by (simp add: all_consistent_def)

lemma popLoop_consistent:
  assumes "popLoop q m mo = Ret (m', mo')" and "m = merged_of (moi_Items m)"
  shows "m' = merged_of (retained q (moi_Items m))"
  using assms popLoop_retained by metis

lemma checkProduct_merged:
  assumes "checkProduct (mm, mo) r = Ret (mm', mo')" and "all_consistent mm"
  shows "mm' = (case mm (uuid_String (product_ID r)) of
     None \<Rightarrow> mm
   | Some m \<Rightarrow> mm(uuid_String (product_ID r) \<mapsto> merged_of (retained (product_Quantity r) (moi_Items m))))"
proof (cases "mm (uuid_String (product_ID r))")
  case None
  with assms(1) show ?thesis by (simp add: checkProduct_def Let_def)
next
  case (Some m)
  with assms obtain m' where m': "popLoop (product_Quantity r) m mo = Ret (m', mo')"
    "mm' = mm(uuid_String (product_ID r) \<mapsto> m')"
    by (auto simp: checkProduct_def Let_def)
  from Some assms(2) have "m = merged_of (moi_Items m)" by (simp add: all_consistent_def)
  with m' have "m' = merged_of (retained (product_Quantity r) (moi_Items m))"
    by (simp add: popLoop_consistent)
  with m' Some show ?thesis by simp
qed

lemma checkDecreaseQuantity_Cons:
  "checkDecreaseQuantity (r # rs) mm mo =
     and_then (checkProduct (mm, mo) r) (\<lambda>(mm1, mo1). checkDecreaseQuantity rs mm1 mo1)"
  by (simp add: checkDecreaseQuantity_def case_prod_unfold)

lemma checkDecreaseQuantity_merged:
  assumes "checkDecreaseQuantity products mm mo = Ret (mm', mo')"
    and "all_consistent mm" and "distinct (map product_ID products)"
  shows "mm' k = map_option (decided products k) (mm k)"
  using assms
proof (induction products arbitrary: mm mo)
  case Nil
  then show ?case by (simp add: checkDecreaseQuantity_def option.map_ident)
next
  case (Cons r rs)
  let ?k = "uuid_String (product_ID r)"
  from Cons.prems(1) obtain mm1 mo1 where s1: "checkProduct (mm, mo) r = Ret (mm1, mo1)"
    "checkDecreaseQuantity rs mm1 mo1 = Ret (mm', mo')"
    by (auto simp: checkDecreaseQuantity_Cons)
  note mm1 = checkProduct_merged [OF s1(1) Cons.prems(2)]
  from mm1 Cons.prems(2) have "all_consistent mm1" by (simp split: option.splits)
  with Cons.IH [OF s1(2)] Cons.prems(3) have IH: "mm' k = map_option (decided rs k) (mm1 k)" by simp
  have other: "find (\<lambda>r. uuid_String (product_ID r) = ?k) rs = None"
    using Cons.prems(3) by (auto simp: find_None_iff image_iff)
  show ?case
  proof (cases "k = ?k")
    case True
    with IH mm1 other show ?thesis by (simp add: decided_def split: option.splits)
  next
    case False
    with mm1 have "mm1 k = mm k" by (simp split: option.splits)
    moreover have "decided (r # rs) k = decided rs k"
      using False by (auto simp: decided_def)
    ultimately show ?thesis using IH by simp
  qed
qed

section \<open>Balance\<close>

definition merged_items :: "merged_map \<Rightarrow> uuid \<Rightarrow> req_order_item list" where
  "merged_items mm p = (case mm (uuid_String p) of None \<Rightarrow> [] | Some m \<Rightarrow> moi_Items m)"

definition items_naming :: "uuid \<Rightarrow> req_order_item list \<Rightarrow> nat" where
  "items_naming i xs = length (filter (\<lambda>x. roi_OrderID x = i) xs)"

definition item_count :: "merged_map \<Rightarrow> uuid set \<Rightarrow> uuid \<Rightarrow> nat" where
  "item_count mm P i = (\<Sum>p\<in>P. items_naming i (merged_items mm p))"

definition balanced :: "uuid set \<Rightarrow> merged_map \<Rightarrow> order_map \<Rightarrow> bool" where
  "balanced P mm mo \<longleftrightarrow> finite P \<and> (\<forall>p. mm (uuid_String p) \<noteq> None \<longrightarrow> p \<in> P) \<and>
     (\<forall>i o1. mo (uuid_String i) = Some o1 \<longrightarrow> length (co_OrderItems o1) = item_count mm P i)"

lemma items_naming_simps [simp]:
  "items_naming i [] = 0"
  "items_naming i (xs @ ys) = items_naming i xs + items_naming i ys"
  "items_naming i [x] = (if roi_OrderID x = i then 1 else 0)"
  by (simp_all add: items_naming_def)

lemma merged_items_upd [simp]:
  "merged_items (mm(uuid_String p \<mapsto> m)) p' = (if p' = p then moi_Items m else merged_items mm p')"
  by (simp add: merged_items_def)

lemma item_count_upd:
  assumes "finite P" and "p \<in> P"
  shows "item_count (mm(uuid_String p \<mapsto> m)) P i =
    items_naming i (moi_Items m) + item_count mm (P - {p}) i"
  using assms by (simp add: item_count_def sum.remove [of P p])

lemma balanced_dropOrderItem:
  assumes "balanced P (mm(uuid_String p \<mapsto> merged_of (xs @ [x]))) mo" and "p \<in> P"
  shows "\<exists>mo'. dropOrderItem mo (uuid_String (roi_OrderID x)) = Ret mo' \<and>
    balanced P (mm(uuid_String p \<mapsto> merged_of xs)) mo'"
proof (cases "mo (uuid_String (roi_OrderID x))")
  case None
  with assms show ?thesis
    by (auto simp: balanced_def dropOrderItem_def item_count_upd split: if_splits)
next
  case (Some o1)
  from assms(1) have fin: "finite P" by (simp add: balanced_def)
  from assms Some have "length (co_OrderItems o1) =
      item_count (mm(uuid_String p \<mapsto> merged_of (xs @ [x]))) P (roi_OrderID x)"
    by (simp add: balanced_def del: fun_upd_apply)
  with assms(2) fin have len: "length (co_OrderItems o1) =
      Suc (item_count (mm(uuid_String p \<mapsto> merged_of xs)) P (roi_OrderID x))"
    by (simp add: item_count_upd)
  then have "co_OrderItems o1 \<noteq> []" by auto
  with Some have drop: "dropOrderItem mo (uuid_String (roi_OrderID x)) =
      Ret (mo(uuid_String (roi_OrderID x) \<mapsto> o1\<lparr>co_OrderItems := butlast (co_OrderItems o1)\<rparr>))"
    by (simp add: dropOrderItem_def)
  have "balanced P (mm(uuid_String p \<mapsto> merged_of xs))
      (mo(uuid_String (roi_OrderID x) \<mapsto> o1\<lparr>co_OrderItems := butlast (co_OrderItems o1)\<rparr>))"
    using assms len fin by (auto simp: balanced_def item_count_upd split: if_splits)
  with drop show ?thesis by blast
qed

lemma popLoop_balanced:
  assumes "balanced P (mm(uuid_String p \<mapsto> merged_of xs)) mo" and "p \<in> P"
  shows "\<exists>mo'. popLoop q (merged_of xs) mo = Ret (merged_of (retained q xs), mo') \<and>
    balanced P (mm(uuid_String p \<mapsto> merged_of (retained q xs))) mo'"
  using assms
proof (induction xs arbitrary: mo rule: rev_induct)
  case Nil
  then show ?case by (simp add: popLoop_merged_of)
next
  case (snoc x xs)
  show ?case
  proof (cases "fits q (xs @ [x])")
    case True
    with snoc.prems show ?thesis by (simp add: popLoop_merged_of retained_all del: fun_upd_apply)
  next
    case False
    from balanced_dropOrderItem [OF snoc.prems] obtain mo1 where
      "dropOrderItem mo (uuid_String (roi_OrderID x)) = Ret mo1"
      "balanced P (mm(uuid_String p \<mapsto> merged_of xs)) mo1" by blast
    with False snoc.IH [OF this(2) snoc.prems(2)] show ?thesis
      by (simp add: popLoop_merged_of [of q "xs @ [x]"] retained_snoc del: fun_upd_apply)
  qed
qed

lemma checkProduct_balanced:
  assumes "balanced P mm mo" and "all_consistent mm"
  shows "\<exists>mm' mo'. checkProduct (mm, mo) r = Ret (mm', mo') \<and> balanced P mm' mo' \<and> all_consistent mm'"
proof (cases "mm (uuid_String (product_ID r))")
  case None
  with assms show ?thesis by (simp add: checkProduct_def Let_def)
next
  case (Some m)
  let ?p = "product_ID r"
  have p: "?p \<in> P" using assms(1) Some by (simp add: balanced_def)
  have m: "m = merged_of (moi_Items m)" using assms(2) Some by (simp add: all_consistent_def)
  then have "mm = mm(uuid_String ?p \<mapsto> merged_of (moi_Items m))"
    using Some by (metis fun_upd_triv)
  then have "balanced P (mm(uuid_String ?p \<mapsto> merged_of (moi_Items m))) mo"
    using assms(1) by metis
  from popLoop_balanced [OF this p, of "product_Quantity r"] obtain mo' where
    "popLoop (product_Quantity r) m mo =
       Ret (merged_of (retained (product_Quantity r) (moi_Items m)), mo')"
    "balanced P (mm(uuid_String ?p \<mapsto> merged_of (retained (product_Quantity r) (moi_Items m)))) mo'"
    using m by auto
  with Some assms(2) show ?thesis
    by (simp add: checkProduct_def Let_def del: fun_upd_apply)
qed

lemma checkDecreaseQuantity_balanced:
  assumes "balanced P mm mo" and "all_consistent mm"
  shows "\<exists>mm' mo'. checkDecreaseQuantity products mm mo = Ret (mm', mo') \<and> balanced P mm' mo'"
  using assms
proof (induction products arbitrary: mm mo)
  case Nil
  then show ?case by (simp add: checkDecreaseQuantity_def)
next
  case (Cons r rs)
  from checkProduct_balanced [OF Cons.prems, of r] obtain mm1 mo1 where
    "checkProduct (mm, mo) r = Ret (mm1, mo1)" "balanced P mm1 mo1" "all_consistent mm1" by blast
  with Cons.IH [of mm1 mo1] show ?case by (simp add: checkDecreaseQuantity_Cons)
qed

section \<open>The merged batch is balanced\<close>

definition batch_wf :: "create_order list \<Rightarrow> bool" where
  "batch_wf params \<longleftrightarrow> distinct (map co_ID params) \<and>
     (\<forall>o1 \<in> set params. \<forall>it \<in> set (co_OrderItems o1). roi_OrderID it = co_ID o1)"

lemma all_consistent_merge: "all_consistent (ms_mapMergedOrderItem (mergeOrderItems params))"
  unfolding all_consistent_def
proof (intro allI impI)
  fix k m
  assume k: "ms_mapMergedOrderItem (mergeOrderItems params) k = Some m"
  then have "k \<in> dom (ms_mapMergedOrderItem (mergeOrderItems params))" by blast
  then obtain p where "k = uuid_String p" by (auto simp: mergeOrderItems_dom)
  with k mergeOrderItems_merged [of params] show "m = merged_of (moi_Items m)"
    by (auto simp: merged_upto_def split: if_splits)
qed

lemma merged_items_merge:
  "merged_items (ms_mapMergedOrderItem (mergeOrderItems params)) p =
     items_of_product p (batch_items params)"
  using mergeOrderItems_merged [of params] by (simp add: merged_items_def merged_upto_def)

lemma item_count_merge:
  "item_count (ms_mapMergedOrderItem (mergeOrderItems params))
     (roi_ProductID ` set (batch_items params)) i = items_naming i (batch_items params)"
proof -
  have "items_naming i (batch_items params) =
      (\<Sum>p \<in> roi_ProductID ` set (batch_items params).
        length (filter (\<lambda>x. roi_OrderID x = i \<and> roi_ProductID x = p) (batch_items params)))"
    unfolding items_naming_def by (rule length_filter_conj_sum) auto
  then show ?thesis
    by (simp add: item_count_def merged_items_merge items_naming_def items_of_product_def
        conj_commute)
qed

lemma items_naming_none:
  "\<forall>x \<in> set xs. roi_OrderID x \<noteq> i \<Longrightarrow> items_naming i xs = 0"
  by (simp add: items_naming_def filter_empty_conv)

lemma items_naming_all:
  "\<forall>x \<in> set xs. roi_OrderID x = i \<Longrightarrow> items_naming i xs = length xs"
  by (simp add: items_naming_def filter_id_conv)

lemma items_naming_batch:
  assumes "batch_wf params" and "o1 \<in> set params"
  shows "items_naming (co_ID o1) (batch_items params) = length (co_OrderItems o1)"
  using assms
proof (induction params)
  case Nil
  then show ?case by simp
next
  case (Cons o2 params)
  from Cons.prems(1) have wf: "batch_wf params" and own: "\<forall>it \<in> set (co_OrderItems o2). roi_OrderID it = co_ID o2"
    and fresh: "co_ID o2 \<notin> co_ID ` set params"
    by (auto simp: batch_wf_def)
  show ?case
  proof (cases "o1 = o2")
    case True
    have "\<forall>x \<in> set (batch_items params). roi_OrderID x \<noteq> co_ID o2"
      using wf fresh by (auto simp: batch_wf_def batch_items_def image_iff)
    with True own show ?thesis by (simp add: items_naming_none items_naming_all)
  next
    case False
    with Cons.prems(2) have o1: "o1 \<in> set params" by simp
    with fresh have "co_ID o1 \<noteq> co_ID o2" by (metis imageI)
    with own Cons.IH [OF wf o1] show ?thesis by (simp add: items_naming_none)
  qed
qed

lemma first_order_wf:
  "first_order params i = Some o1 \<Longrightarrow> o1 \<in> set params \<and> co_ID o1 = i"
  unfolding first_order_def by (rule find_Some_set)

lemma balanced_merge:
  assumes "batch_wf params"
  shows "balanced (roi_ProductID ` set (batch_items params))
    (ms_mapMergedOrderItem (mergeOrderItems params)) (ms_mapOrder (mergeOrderItems params))"
  unfolding balanced_def
proof (intro conjI allI impI)
  fix p
  assume "ms_mapMergedOrderItem (mergeOrderItems params) (uuid_String p) \<noteq> None"
  then have "uuid_String p \<in> dom (ms_mapMergedOrderItem (mergeOrderItems params))" by blast
  then show "p \<in> roi_ProductID ` set (batch_items params)"
    by (auto simp: mergeOrderItems_dom)
next
  fix i o1
  assume "ms_mapOrder (mergeOrderItems params) (uuid_String i) = Some o1"
  then have "o1 \<in> set params" "co_ID o1 = i"
    by (simp_all add: mergeOrderItems_mapOrder first_order_wf)
  with assms show "length (co_OrderItems o1) = item_count (ms_mapMergedOrderItem (mergeOrderItems params))
      (roi_ProductID ` set (batch_items params)) i"
    by (auto simp: item_count_merge items_naming_batch)
qed simp

text \<open>A well-formed batch is never stopped by a run-time panic of the check.\<close>

lemma check_never_panics:
  assumes "batch_wf params"
  shows "\<exists>mm' mo'. checkDecreaseQuantity products
      (ms_mapMergedOrderItem (mergeOrderItems params)) (ms_mapOrder (mergeOrderItems params)) =
      Ret (mm', mo') \<and> balanced (roi_ProductID ` set (batch_items params)) mm' mo'"
  by (rule checkDecreaseQuantity_balanced [OF balanced_merge [OF assms] all_consistent_merge])

end
