(* ===== verification/Json.thy ===== *)
theory Json
  imports Models
begin

text \<open>
  JSON values and the encoders and decoders the program runs on them: Postgres' \<open>to_json\<close>
  and \<open>json_agg\<close> over the item tables, \<open>encoding/json\<close> over the response structs and rows
  that go into Redis, and \<open>json.Unmarshal\<close> into the structs read back. JSON text is modelled
  by its value. A JSON string whose content is structured has a constructor of its own:
  \<open>JTime\<close> an RFC 3339 time, \<open>JDec\<close> a quoted decimal number, \<open>JB64\<close> the base64 text of a
  \<open>[]byte\<close> that itself holds JSON.
\<close>

section \<open>Values\<close>

datatype json =
    JNull
  | JBool bool
  | JNum int int
  | JStr string
  | JTime time
  | JDec int int
  | JB64 json
  | JArr "json list"
  | JObj "(string \<times> json) list"

text \<open>A missing key leaves the Go field at its zero value, as \<open>null\<close> does.\<close>

definition json_field :: "string \<Rightarrow> (string \<times> json) list \<Rightarrow> json" where
  "json_field k o1 = (case map_of o1 k of None \<Rightarrow> JNull | Some v \<Rightarrow> v)"

definition typeError :: "string \<Rightarrow> go_error" where
  "typeError t = ErrNew (''json: cannot unmarshal into Go value of type '' @ t)"

section \<open>Decoding the leaf types\<close>

definition uuid_error_text :: "uuid_error \<Rightarrow> string" where
  "uuid_error_text e = (case e of
     InvalidFormat \<Rightarrow> ''invalid UUID format''
   | InvalidLength n \<Rightarrow> ''invalid UUID length: '' @ format_d (int n)
   | InvalidUrnPrefix p \<Rightarrow> ''invalid urn prefix: '' @ p)"

fun decode_uuid :: "json \<Rightarrow> go_error + uuid" where
  "decode_uuid JNull = Inr uuid_Nil"
| "decode_uuid (JStr s) =
     (case uuid_Parse s of Inl e \<Rightarrow> Inl (ErrNew (uuid_error_text e)) | Inr u \<Rightarrow> Inr u)"
| "decode_uuid j = Inl (typeError ''uuid.UUID'')"

fun decode_int32 :: "json \<Rightarrow> go_error + int32" where
  "decode_int32 JNull = Inr 0"
| "decode_int32 (JNum c e) =
     (if e = 0 \<and> int4_range c then Inr (word_of_int c) else Inl (typeError ''int32''))"
| "decode_int32 j = Inl (typeError ''int32'')"

fun decode_decimal :: "json \<Rightarrow> go_error + decimal" where
  "decode_decimal JNull = Inr \<lparr>dec_value = None, dec_exp = 0\<rparr>"
| "decode_decimal (JNum c e) = Inr \<lparr>dec_value = Some c, dec_exp = word_of_int e\<rparr>"
| "decode_decimal (JDec c e) = Inr \<lparr>dec_value = Some c, dec_exp = word_of_int e\<rparr>"
| "decode_decimal j = Inl (typeError ''decimal.Decimal'')"

fun decode_time :: "json \<Rightarrow> go_error + time" where
  "decode_time JNull = Inr time_zero"
| "decode_time (JTime t) = Inr t"
| "decode_time j = Inl (typeError ''time.Time'')"

fun decode_string :: "json \<Rightarrow> go_error + string" where
  "decode_string JNull = Inr []"
| "decode_string (JStr s) = Inr s"
| "decode_string j = Inl (typeError ''string'')"

text \<open>A slice of structs: an array of objects, or \<open>null\<close> for the nil slice.\<close>

fun decode_list :: "(json \<Rightarrow> go_error + 'a) \<Rightarrow> json \<Rightarrow> go_error + 'a list" where
  "decode_list f JNull = Inr []"
| "decode_list f (JArr js) = traverse f js"
| "decode_list f j = Inl (typeError ''[]struct'')"

section \<open>Encoding the leaf types\<close>

text \<open>
  A number is written without exponent: a positive exponent becomes trailing zeros, a
  negative one digits behind the point.
\<close>

definition plain_number :: "int \<Rightarrow> int32 \<Rightarrow> int \<times> int" where
  "plain_number c e = (if 0 \<le> sint e then (c * 10 ^ nat (sint e), 0) else (c, sint e))"

definition numeric_json :: "pg_numeric \<Rightarrow> json" where
  "numeric_json n =
     (if \<not> num_Valid n then JNull
      else if num_NaN n then JStr ''NaN''
      else (case num_Int n of
          None \<Rightarrow> JNull
        | Some c \<Rightarrow> (case plain_number c (num_Exp n) of (c', e') \<Rightarrow> JNum c' e')))"

definition decimal_json :: "decimal \<Rightarrow> json" where
  "decimal_json d =
     (case plain_number (decimal_Coefficient d) (dec_exp d) of (c', e') \<Rightarrow> JDec c' e')"

definition timestamptz_json :: "pg_timestamptz \<Rightarrow> json" where
  "timestamptz_json t =
     (if \<not> tz_Valid t then JNull
      else case tz_InfinityModifier t of
          Finite \<Rightarrow> JTime (tz_Time t)
        | Infinity \<Rightarrow> JStr ''infinity''
        | NegativeInfinity \<Rightarrow> JStr ''-infinity'')"

definition uuid_json :: "uuid \<Rightarrow> json" where
  "uuid_json u = JStr (uuid_String u)"

definition int32_json :: "int32 \<Rightarrow> json" where
  "int32_json w = JNum (sint w) 0"

text \<open>What is left of a price after it went through its plain decimal text.\<close>

definition plain_decimal :: "int \<Rightarrow> int32 \<Rightarrow> decimal" where
  "plain_decimal c e =
     (case plain_number c e of (c', e') \<Rightarrow> \<lparr>dec_value = Some c', dec_exp = word_of_int e'\<rparr>)"

lemma decode_uuid_json [simp]: "decode_uuid (uuid_json u) = Inr u"
  by (simp add: uuid_json_def)

lemma decode_int32_json [simp]: "decode_int32 (int32_json w) = Inr w"
  by (simp add: int32_json_def)

lemma decode_decimal_json [simp]:
  "decode_decimal (decimal_json d) = Inr (plain_decimal (decimal_Coefficient d) (dec_exp d))"
  by (simp add: decimal_json_def plain_decimal_def split: prod.split)

text \<open>The columns of a row the program wrote: finite times, valid numbers.\<close>

definition finite_tz :: "pg_timestamptz \<Rightarrow> bool" where
  "finite_tz t \<longleftrightarrow> tz_Valid t \<and> tz_InfinityModifier t = Finite"

definition proper_numeric :: "pg_numeric \<Rightarrow> bool" where
  "proper_numeric n \<longleftrightarrow> num_Valid n \<and> \<not> num_NaN n \<and> num_Int n \<noteq> None"

lemma finite_tz_timestamptz [simp]: "finite_tz (timestamptz_of_time t)"
  by (simp add: finite_tz_def timestamptz_of_time_def)

lemma proper_numeric_of_decimal [simp]: "proper_numeric (numeric_of_decimal d)"
  by (simp add: proper_numeric_def numeric_of_decimal_def)

lemma decode_time_json [simp]: "finite_tz t \<Longrightarrow> decode_time (timestamptz_json t) = Inr (tz_Time t)"
  by (simp add: finite_tz_def timestamptz_json_def)

lemma decode_numeric_json [simp]:
  "proper_numeric n \<Longrightarrow>
     decode_decimal (numeric_json n) = Inr (plain_decimal (the (num_Int n)) (num_Exp n))"
  by (auto simp: proper_numeric_def numeric_json_def plain_decimal_def split: prod.split)

text \<open>A number with a non-positive exponent is its own plain text.\<close>

lemma plain_decimal_id:
  "sint e \<le> 0 \<Longrightarrow> plain_decimal c e = \<lparr>dec_value = Some c, dec_exp = e\<rparr>"
proof -
  assume "sint e \<le> 0"
  moreover have "sint e = 0 \<Longrightarrow> e = 0"
    by (metis signed_0 signed_word_eqI)
  ultimately show ?thesis
    by (auto simp: plain_decimal_def plain_number_def)
qed

section \<open>Item rows: \<open>to_json\<close> and the response structs\<close>

text \<open>\<open>to_json(oi.*)\<close> and \<open>to_json(ci.*)\<close>: one key for each column of the table.\<close>

definition order_item_to_json :: "order_item_row \<Rightarrow> json" where
  "order_item_to_json r = JObj
     [(''id'', uuid_json (oitem_ID r)), (''order_id'', uuid_json (oitem_OrderID r)),
      (''product_id'', uuid_json (oitem_ProductID r)), (''quantity'', int32_json (oitem_Quantity r)),
      (''price'', numeric_json (oitem_Price r)),
      (''created_at'', timestamptz_json (oitem_CreatedAt r)),
      (''updated_at'', timestamptz_json (oitem_UpdatedAt r))]"

definition cart_item_to_json :: "cart_item_row \<Rightarrow> json" where
  "cart_item_to_json r = JObj
     [(''id'', uuid_json (citem_ID r)), (''cart_id'', uuid_json (citem_CartID r)),
      (''product_id'', uuid_json (citem_ProductID r)), (''quantity'', int32_json (citem_Quantity r)),
      (''price'', numeric_json (citem_Price r)),
      (''created_at'', timestamptz_json (citem_CreatedAt r)),
      (''updated_at'', timestamptz_json (citem_UpdatedAt r))]"

definition json_agg :: "json list \<Rightarrow> json" where
  "json_agg js = JArr js"

text \<open>The structs decode field by field, by their \<open>json\<close> tags.\<close>

fun decode_res_order_item :: "json \<Rightarrow> go_error + res_order_item" where
  "decode_res_order_item (JObj kvs) =
     if_ok (decode_time (json_field ''created_at'' kvs)) (\<lambda>c.
     if_ok (decode_time (json_field ''updated_at'' kvs)) (\<lambda>u.
     if_ok (decode_uuid (json_field ''id'' kvs)) (\<lambda>i.
     if_ok (decode_uuid (json_field ''order_id'' kvs)) (\<lambda>oid.
     if_ok (decode_uuid (json_field ''product_id'' kvs)) (\<lambda>pid.
     if_ok (decode_decimal (json_field ''price'' kvs)) (\<lambda>pr.
     if_ok (decode_int32 (json_field ''quantity'' kvs)) (\<lambda>q.
       Inr \<lparr>soi_CreatedAt = c, soi_UpdatedAt = u, soi_ID = i, soi_OrderId = oid,
            soi_ProductId = pid, soi_Price = pr, soi_Quantity = q\<rparr>)))))))"
| "decode_res_order_item JNull =
     Inr \<lparr>soi_CreatedAt = time_zero, soi_UpdatedAt = time_zero, soi_ID = uuid_Nil,
          soi_OrderId = uuid_Nil, soi_ProductId = uuid_Nil,
          soi_Price = \<lparr>dec_value = None, dec_exp = 0\<rparr>, soi_Quantity = 0\<rparr>"
| "decode_res_order_item j = Inl (typeError ''response.OrderItem'')"

fun decode_res_cart_item :: "json \<Rightarrow> go_error + res_cart_item" where
  "decode_res_cart_item (JObj kvs) =
     if_ok (decode_uuid (json_field ''id'' kvs)) (\<lambda>i.
     if_ok (decode_uuid (json_field ''cart_id'' kvs)) (\<lambda>cid.
     if_ok (decode_uuid (json_field ''product_id'' kvs)) (\<lambda>pid.
     if_ok (decode_int32 (json_field ''quantity'' kvs)) (\<lambda>q.
     if_ok (decode_decimal (json_field ''price'' kvs)) (\<lambda>pr.
     if_ok (decode_time (json_field ''created_at'' kvs)) (\<lambda>c.
     if_ok (decode_time (json_field ''updated_at'' kvs)) (\<lambda>u.
       Inr \<lparr>sci_ID = i, sci_CartID = cid, sci_ProductID = pid, sci_Quantity = q,
            sci_Price = pr, sci_CreatedAt = c, sci_UpdatedAt = u\<rparr>)))))))"
| "decode_res_cart_item JNull =
     Inr \<lparr>sci_ID = uuid_Nil, sci_CartID = uuid_Nil, sci_ProductID = uuid_Nil, sci_Quantity = 0,
          sci_Price = \<lparr>dec_value = None, dec_exp = 0\<rparr>, sci_CreatedAt = time_zero,
          sci_UpdatedAt = time_zero\<rparr>"
| "decode_res_cart_item j = Inl (typeError ''response.CartItem'')"

text \<open>The item the client sees for a stored row.\<close>

definition res_order_item_of_row :: "order_item_row \<Rightarrow> res_order_item" where
  "res_order_item_of_row r =
     \<lparr>soi_CreatedAt = tz_Time (oitem_CreatedAt r), soi_UpdatedAt = tz_Time (oitem_UpdatedAt r),
      soi_ID = oitem_ID r, soi_OrderId = oitem_OrderID r, soi_ProductId = oitem_ProductID r,
      soi_Price = plain_decimal (the (num_Int (oitem_Price r))) (num_Exp (oitem_Price r)),
      soi_Quantity = oitem_Quantity r\<rparr>"

definition res_cart_item_of_row :: "cart_item_row \<Rightarrow> res_cart_item" where
  "res_cart_item_of_row r =
     \<lparr>sci_ID = citem_ID r, sci_CartID = citem_CartID r, sci_ProductID = citem_ProductID r,
      sci_Quantity = citem_Quantity r,
      sci_Price = plain_decimal (the (num_Int (citem_Price r))) (num_Exp (citem_Price r)),
      sci_CreatedAt = tz_Time (citem_CreatedAt r), sci_UpdatedAt = tz_Time (citem_UpdatedAt r)\<rparr>"

definition proper_order_item :: "order_item_row \<Rightarrow> bool" where
  "proper_order_item r \<longleftrightarrow> proper_numeric (oitem_Price r) \<and> finite_tz (oitem_CreatedAt r) \<and>
     finite_tz (oitem_UpdatedAt r)"

definition proper_cart_item :: "cart_item_row \<Rightarrow> bool" where
  "proper_cart_item r \<longleftrightarrow> proper_numeric (citem_Price r) \<and> finite_tz (citem_CreatedAt r) \<and>
     finite_tz (citem_UpdatedAt r)"

lemma decode_order_item_to_json:
  "proper_order_item r \<Longrightarrow>
     decode_res_order_item (order_item_to_json r) = Inr (res_order_item_of_row r)"
  by (simp add: order_item_to_json_def json_field_def proper_order_item_def
      res_order_item_of_row_def)

lemma decode_cart_item_to_json:
  "proper_cart_item r \<Longrightarrow>
     decode_res_cart_item (cart_item_to_json r) = Inr (res_cart_item_of_row r)"
  by (simp add: cart_item_to_json_def json_field_def proper_cart_item_def
      res_cart_item_of_row_def)

end
