(* ===== verification/Repository.thy ===== *)
theory Repository
  imports Json
begin

text \<open>
  The repository layer: the tables of \<open>migrations/\<close> as lists of rows and the SQL statements
  of \<open>internal/repository/*.sql.go\<close> as functions on them, with the constraints the schema
  declares (primary keys, unique columns, foreign keys, not-null columns, the 32-bit range of
  \<open>integer\<close>). A statement that breaks one fails and changes nothing. \<open>:one\<close> statements fail
  with \<open>pgx.ErrNoRows\<close> when no row matches. \<open>gen_random_uuid()\<close> and \<open>now()\<close> are arguments.
  Failures of the connection are not here: the services take them as arguments.
\<close>

section \<open>The tables\<close>

record database =
  db_users :: "user_row list"
  db_products :: "product_row list"
  db_carts :: "cart_row list"
  db_cart_items :: "cart_item_row list"
  db_orders :: "order_row list"
  db_order_items :: "order_item_row list"

definition unique_violation :: "string \<Rightarrow> go_error" where
  "unique_violation t =
     ErrNew (''ERROR: duplicate key value violates unique constraint '' @ t @ '' (SQLSTATE 23505)'')"

definition fkey_violation :: "string \<Rightarrow> go_error" where
  "fkey_violation t =
     ErrNew (''ERROR: violates foreign key constraint '' @ t @ '' (SQLSTATE 23503)'')"

definition not_null_violation :: "string \<Rightarrow> go_error" where
  "not_null_violation c =
     ErrNew (''ERROR: null value violates not-null constraint '' @ c @ '' (SQLSTATE 23502)'')"

definition integer_out_of_range :: go_error where
  "integer_out_of_range = ErrNew ''ERROR: integer out of range (SQLSTATE 22003)''"

definition syntax_error :: go_error where
  "syntax_error = ErrNew ''ERROR: syntax error at or near (SQLSTATE 42601)''"

definition ambiguous_column :: "string \<Rightarrow> go_error" where
  "ambiguous_column c =
     ErrNew (''ERROR: column reference is ambiguous: '' @ c @ '' (SQLSTATE 42702)'')"

text \<open>The schema constraints as a predicate on the database.\<close>

definition db_ok :: "database \<Rightarrow> bool" where
  "db_ok db \<longleftrightarrow>
     distinct (map user_ID (db_users db)) \<and>
     distinct (map user_Username (db_users db)) \<and>
     distinct (map user_Email (db_users db)) \<and>
     distinct (map product_ID (db_products db)) \<and>
     distinct (map product_Name (db_products db)) \<and>
     distinct (map cart_ID (db_carts db)) \<and>
     distinct (map citem_ID (db_cart_items db)) \<and>
     distinct (map order_ID (db_orders db)) \<and>
     distinct (map oitem_ID (db_order_items db)) \<and>
     cart_UserID ` set (db_carts db) \<subseteq> user_ID ` set (db_users db) \<and>
     citem_CartID ` set (db_cart_items db) \<subseteq> cart_ID ` set (db_carts db) \<and>
     citem_ProductID ` set (db_cart_items db) \<subseteq> product_ID ` set (db_products db) \<and>
     order_UserID ` set (db_orders db) \<subseteq> user_ID ` set (db_users db) \<and>
     oitem_OrderID ` set (db_order_items db) \<subseteq> order_ID ` set (db_orders db) \<and>
     oitem_ProductID ` set (db_order_items db) \<subseteq> product_ID ` set (db_products db)"

text \<open>\<open>QueryRow(...).Scan\<close>: the first row, or \<open>pgx.ErrNoRows\<close>.\<close>

definition one_row :: "'a list \<Rightarrow> go_error + 'a" where
  "one_row rs = (case rs of [] \<Rightarrow> Inl ErrNoRows | r # _ \<Rightarrow> Inr r)"

lemma one_row_Inr_iff: "one_row rs = Inr r \<longleftrightarrow> (\<exists>rs'. rs = r # rs')"
  by (auto simp: one_row_def split: list.splits)

lemma one_row_filter: "one_row (filter P xs) = Inr r \<Longrightarrow> r \<in> set xs \<and> P r"
  by (auto simp: one_row_Inr_iff filter_eq_Cons_iff)

lemma one_row_Inl_iff: "one_row rs = Inl e \<longleftrightarrow> rs = [] \<and> e = ErrNoRows"
  by (auto simp: one_row_def split: list.splits)

section \<open>Users\<close>

record insert_user_params =
  iup_Username :: string
  iup_Email :: string
  iup_Password :: string
  iup_CreatedAt :: pg_timestamptz
  iup_UpdatedAt :: pg_timestamptz

definition FindByEmail :: "database \<Rightarrow> string \<Rightarrow> go_error + user_row" where
  "FindByEmail db email = one_row (filter (\<lambda>u. user_Email u = email) (db_users db))"

definition FindById :: "database \<Rightarrow> uuid \<Rightarrow> go_error + user_row" where
  "FindById db i = one_row (filter (\<lambda>u. user_ID u = i) (db_users db))"

definition InsertUser ::
    "uuid \<Rightarrow> database \<Rightarrow> insert_user_params \<Rightarrow> go_error + (database \<times> user_row)" where
  "InsertUser newId db arg =
     (let row = \<lparr>user_ID = newId, user_Username = iup_Username arg, user_Email = iup_Email arg,
                 user_Password = iup_Password arg, user_CreatedAt = iup_CreatedAt arg,
                 user_UpdatedAt = iup_UpdatedAt arg\<rparr>
      in if newId \<in> user_ID ` set (db_users db) then Inl (unique_violation ''users_pkey'')
         else if iup_Username arg \<in> user_Username ` set (db_users db)
           then Inl (unique_violation ''users_username_key'')
         else if iup_Email arg \<in> user_Email ` set (db_users db)
           then Inl (unique_violation ''users_email_key'')
         else Inr (db\<lparr>db_users := db_users db @ [row]\<rparr>, row))"

section \<open>Products\<close>

record insert_product_params =
  ipp_Name :: string
  ipp_Price :: pg_numeric
  ipp_Quantity :: int32

record update_product_params =
  upp_Name :: string
  upp_Price :: pg_numeric
  upp_Quantity :: int32
  upp_ID :: uuid

record update_product_quantity_params =
  upq_ID :: uuid
  upq_Quantity :: int32

definition FindProductById :: "database \<Rightarrow> uuid \<Rightarrow> go_error + product_row" where
  "FindProductById db i = one_row (filter (\<lambda>p. product_ID p = i) (db_products db))"

definition FindProductByName :: "database \<Rightarrow> string \<Rightarrow> go_error + product_row" where
  "FindProductByName db nm = one_row (filter (\<lambda>p. product_Name p = nm) (db_products db))"

definition FindProducts :: "database \<Rightarrow> product_row list" where
  "FindProducts db = db_products db"

definition GetProducts :: "database \<Rightarrow> product_row list" where
  "GetProducts db = db_products db"

definition FindProductsByIds :: "database \<Rightarrow> uuid list \<Rightarrow> product_row list" where
  "FindProductsByIds db ids = filter (\<lambda>p. product_ID p \<in> set ids) (db_products db)"

definition InsertProduct ::
    "uuid \<Rightarrow> time \<Rightarrow> database \<Rightarrow> insert_product_params \<Rightarrow> go_error + (database \<times> product_row)" where
  "InsertProduct newId now db arg =
     (let row = \<lparr>product_ID = newId, product_Name = ipp_Name arg, product_Price = ipp_Price arg,
                 product_Quantity = ipp_Quantity arg,
                 product_CreatedAt = timestamptz_of_time now,
                 product_UpdatedAt = timestamptz_of_time now\<rparr>
      in if \<not> num_Valid (ipp_Price arg) then Inl (not_null_violation ''price'')
         else if newId \<in> product_ID ` set (db_products db)
           then Inl (unique_violation ''products_pkey'')
         else if ipp_Name arg \<in> product_Name ` set (db_products db)
           then Inl (unique_violation ''products_name_key'')
         else Inr (db\<lparr>db_products := db_products db @ [row]\<rparr>, row))"

definition UpdateProduct ::
    "time \<Rightarrow> database \<Rightarrow> update_product_params \<Rightarrow> go_error + (database \<times> product_row)" where
  "UpdateProduct now db arg =
     (case filter (\<lambda>p. product_ID p = upp_ID arg) (db_products db) of
        [] \<Rightarrow> Inl ErrNoRows
      | p # _ \<Rightarrow>
          let row = p\<lparr>product_Name := upp_Name arg, product_Price := upp_Price arg,
                      product_Quantity := upp_Quantity arg,
                      product_UpdatedAt := timestamptz_of_time now\<rparr>
          in if \<not> num_Valid (upp_Price arg) then Inl (not_null_violation ''price'')
             else if upp_Name arg \<in>
                 product_Name ` set (filter (\<lambda>q. product_ID q \<noteq> upp_ID arg) (db_products db))
               then Inl (unique_violation ''products_name_key'')
             else Inr (db\<lparr>db_products :=
                 map (\<lambda>q. if product_ID q = upp_ID arg then row else q) (db_products db)\<rparr>, row))"

definition UpdateProductQuantity ::
    "database \<Rightarrow> update_product_quantity_params \<Rightarrow> go_error + (database \<times> product_row)" where
  "UpdateProductQuantity db arg =
     (case filter (\<lambda>p. product_ID p = upq_ID arg) (db_products db) of
        [] \<Rightarrow> Inl ErrNoRows
      | p # _ \<Rightarrow>
          let row = p\<lparr>product_Quantity := upq_Quantity arg\<rparr>
          in Inr (db\<lparr>db_products :=
               map (\<lambda>q. if product_ID q = upq_ID arg then row else q) (db_products db)\<rparr>, row))"

text \<open>The item tables reference products without a cascade.\<close>

definition DeleteProduct :: "database \<Rightarrow> uuid \<Rightarrow> go_error + (database \<times> product_row)" where
  "DeleteProduct db i =
     (case filter (\<lambda>p. product_ID p = i) (db_products db) of
        [] \<Rightarrow> Inl ErrNoRows
      | p # _ \<Rightarrow>
          if i \<in> citem_ProductID ` set (db_cart_items db)
            then Inl (fkey_violation ''cart_items_product_id_fkey'')
          else if i \<in> oitem_ProductID ` set (db_order_items db)
            then Inl (fkey_violation ''order_items_product_id_fkey'')
          else Inr (db\<lparr>db_products := filter (\<lambda>q. product_ID q \<noteq> i) (db_products db)\<rparr>, p))"

text \<open>
  The two locking reads, which no service calls: \<open>for update skip locked\<close> leaves out the rows
  another transaction holds (\<open>locked\<close>), \<open>for share\<close> reads the rows as they are.
\<close>

definition FindProductByIdLock :: "uuid set \<Rightarrow> database \<Rightarrow> uuid \<Rightarrow> go_error + product_row" where
  "FindProductByIdLock locked db i =
     one_row (filter (\<lambda>p. product_ID p = i \<and> product_ID p \<notin> locked) (db_products db))"

definition FindProductsByIdsLock :: "database \<Rightarrow> uuid list \<Rightarrow> product_row list" where
  "FindProductsByIdsLock db ids = filter (\<lambda>p. product_ID p \<in> set ids) (db_products db)"

section \<open>Carts\<close>

record cart_find_params =
  fcp_ID :: uuid
  fcp_ID_2 :: uuid

record cart_delete_params =
  dcp_ID :: uuid
  dcp_UserID :: uuid

record cart_item_delete_params =
  dci_ID :: uuid
  dci_CartID :: uuid

record insert_cart_item_params =
  ici_ID :: uuid
  ici_CartID :: uuid
  ici_ProductID :: uuid
  ici_Quantity :: int32
  ici_Price :: pg_numeric

text \<open>The row of \<open>FindCartById\<close>; its last column is the \<open>[]byte\<close> of a JSON array.\<close>

record find_cart_by_id_row =
  fcr_ID :: uuid
  fcr_UserID :: uuid
  fcr_CreatedAt :: pg_timestamptz
  fcr_UpdatedAt :: pg_timestamptz
  fcr_CartItems :: json

definition items_of_cart :: "database \<Rightarrow> uuid \<Rightarrow> cart_item_row list" where
  "items_of_cart db cid = filter (\<lambda>i. citem_CartID i = cid) (db_cart_items db)"

text \<open>\<open>where u.id = $1 and c.id = $2\<close>: the first argument is the user, the second the cart.\<close>

definition FindCartById ::
    "database \<Rightarrow> cart_find_params \<Rightarrow> go_error + find_cart_by_id_row" where
  "FindCartById db arg = one_row
     (map (\<lambda>c. \<lparr>fcr_ID = cart_ID c, fcr_UserID = cart_UserID c,
               fcr_CreatedAt = cart_CreatedAt c, fcr_UpdatedAt = cart_UpdatedAt c,
               fcr_CartItems = json_agg (map cart_item_to_json (items_of_cart db (cart_ID c)))\<rparr>)
        (filter (\<lambda>c. cart_ID c = fcp_ID_2 arg \<and> cart_UserID c = fcp_ID arg \<and>
                     fcp_ID arg \<in> user_ID ` set (db_users db) \<and>
                     items_of_cart db (cart_ID c) \<noteq> []) (db_carts db)))"

text \<open>One row for each item of each cart of the user; the last column is a JSON object.\<close>

definition FindCartByUserId :: "database \<Rightarrow> uuid \<Rightarrow> find_cart_by_id_row list" where
  "FindCartByUserId db uid = concat
     (map (\<lambda>c. map (\<lambda>i. \<lparr>fcr_ID = cart_ID c, fcr_UserID = cart_UserID c,
                           fcr_CreatedAt = cart_CreatedAt c, fcr_UpdatedAt = cart_UpdatedAt c,
                           fcr_CartItems = cart_item_to_json i\<rparr>)
                  (items_of_cart db (cart_ID c)))
        (filter (\<lambda>c. cart_UserID c = uid \<and> uid \<in> user_ID ` set (db_users db)) (db_carts db)))"

definition FindCartItemByCartId :: "database \<Rightarrow> uuid \<Rightarrow> cart_item_row list" where
  "FindCartItemByCartId db cid = filter (\<lambda>i. citem_CartID i = cid) (db_cart_items db)"

definition FindCartItemById :: "database \<Rightarrow> uuid \<Rightarrow> go_error + cart_item_row" where
  "FindCartItemById db i = one_row (filter (\<lambda>r. citem_ID r = i) (db_cart_items db))"

definition InsertCart ::
    "uuid \<Rightarrow> time \<Rightarrow> database \<Rightarrow> uuid \<Rightarrow> go_error + (database \<times> cart_row)" where
  "InsertCart newId now db uid =
     (let row = \<lparr>cart_ID = newId, cart_UserID = uid, cart_CreatedAt = timestamptz_of_time now,
                 cart_UpdatedAt = timestamptz_of_time now\<rparr>
      in if newId \<in> cart_ID ` set (db_carts db) then Inl (unique_violation ''carts_pkey'')
         else if uid \<notin> user_ID ` set (db_users db) then Inl (fkey_violation ''carts_user_id_fkey'')
         else Inr (db\<lparr>db_carts := db_carts db @ [row]\<rparr>, row))"

definition cart_item_of_params :: "time \<Rightarrow> insert_cart_item_params \<Rightarrow> cart_item_row" where
  "cart_item_of_params now arg =
     \<lparr>citem_ID = ici_ID arg, citem_CartID = ici_CartID arg, citem_ProductID = ici_ProductID arg,
      citem_Quantity = ici_Quantity arg, citem_Price = ici_Price arg,
      citem_CreatedAt = timestamptz_of_time now, citem_UpdatedAt = timestamptz_of_time now\<rparr>"

text \<open>\<open>COPY cart_items (...)\<close> of a batch of rows: all of them or none.\<close>

definition InsertCartItems ::
    "time \<Rightarrow> database \<Rightarrow> insert_cart_item_params list \<Rightarrow> go_error + (database \<times> nat)" where
  "InsertCartItems now db args =
     (let rows = map (cart_item_of_params now) args;
          items = db_cart_items db @ rows
      in if \<exists>r \<in> set rows. \<not> num_Valid (citem_Price r) then Inl (not_null_violation ''price'')
         else if \<not> distinct (map citem_ID items) then Inl (unique_violation ''cart_items_pkey'')
         else if \<exists>r \<in> set rows. citem_CartID r \<notin> cart_ID ` set (db_carts db)
           then Inl (fkey_violation ''cart_items_cart_id_fkey'')
         else if \<exists>r \<in> set rows. citem_ProductID r \<notin> product_ID ` set (db_products db)
           then Inl (fkey_violation ''cart_items_product_id_fkey'')
         else Inr (db\<lparr>db_cart_items := items\<rparr>, length args))"

definition InsertCartItem ::
    "time \<Rightarrow> database \<Rightarrow> insert_cart_item_params \<Rightarrow> go_error + (database \<times> cart_item_row)" where
  "InsertCartItem now db arg =
     if_ok (InsertCartItems now db [arg]) (\<lambda>(db', n). Inr (db', cart_item_of_params now arg))"

text \<open>The items of a deleted cart go with it (\<open>on delete cascade\<close>).\<close>

definition DeleteCartByIdAndUserId ::
    "database \<Rightarrow> cart_delete_params \<Rightarrow> go_error + (database \<times> cart_row)" where
  "DeleteCartByIdAndUserId db arg =
     (case filter (\<lambda>c. cart_ID c = dcp_ID arg \<and> cart_UserID c = dcp_UserID arg) (db_carts db) of
        [] \<Rightarrow> Inl ErrNoRows
      | c # _ \<Rightarrow> Inr (db\<lparr>db_carts := filter (\<lambda>c. \<not> (cart_ID c = dcp_ID arg \<and>
                                                  cart_UserID c = dcp_UserID arg)) (db_carts db),
                        db_cart_items :=
                          filter (\<lambda>i. citem_CartID i \<noteq> dcp_ID arg) (db_cart_items db)\<rparr>, c))"

definition DeleteCartItemFromCartsById ::
    "database \<Rightarrow> cart_item_delete_params \<Rightarrow> go_error + (database \<times> cart_item_row)" where
  "DeleteCartItemFromCartsById db arg =
     (case filter (\<lambda>i. citem_ID i = dci_ID arg \<and> citem_CartID i = dci_CartID arg)
             (db_cart_items db) of
        [] \<Rightarrow> Inl ErrNoRows
      | i # _ \<Rightarrow> Inr (db\<lparr>db_cart_items :=
                  filter (\<lambda>i. \<not> (citem_ID i = dci_ID arg \<and> citem_CartID i = dci_CartID arg))
                    (db_cart_items db)\<rparr>, i))"

section \<open>Orders\<close>

record order_find_params =
  fop_ID :: uuid
  fop_ID_2 :: uuid

record insert_order_params =
  iop_ID :: uuid
  iop_UserID :: uuid
  iop_CreatedAt :: pg_timestamptz
  iop_UpdatedAt :: pg_timestamptz

record insert_order_item_params =
  ioi_ID :: uuid
  ioi_OrderID :: uuid
  ioi_ProductID :: uuid
  ioi_Quantity :: int32
  ioi_Price :: pg_numeric
  ioi_CreatedAt :: pg_timestamptz
  ioi_UpdatedAt :: pg_timestamptz

text \<open>The row of \<open>FindOrderById\<close> and \<open>GetOrders\<close>.\<close>

record get_orders_row =
  gor_ID :: uuid
  gor_UserID :: uuid
  gor_Status :: order_status
  gor_CreatedAt :: pg_timestamptz
  gor_UpdatedAt :: pg_timestamptz
  gor_OrderItems :: json

definition items_of_order :: "database \<Rightarrow> uuid \<Rightarrow> order_item_row list" where
  "items_of_order db oid = filter (\<lambda>i. oitem_OrderID i = oid) (db_order_items db)"

definition get_orders_row_of :: "database \<Rightarrow> order_row \<Rightarrow> get_orders_row" where
  "get_orders_row_of db o1 =
     \<lparr>gor_ID = order_ID o1, gor_UserID = order_UserID o1, gor_Status = order_Status o1,
      gor_CreatedAt = order_CreatedAt o1, gor_UpdatedAt = order_UpdatedAt o1,
      gor_OrderItems = json_agg (map order_item_to_json (items_of_order db (order_ID o1)))\<rparr>"

text \<open>\<open>where u.id = $1 and o.id = $2\<close>, joined with the items: an order without items has no row.\<close>

definition FindOrderById :: "database \<Rightarrow> order_find_params \<Rightarrow> go_error + get_orders_row" where
  "FindOrderById db arg = one_row (map (get_orders_row_of db)
     (filter (\<lambda>o1. order_ID o1 = fop_ID_2 arg \<and> order_UserID o1 = fop_ID arg \<and>
                   fop_ID arg \<in> user_ID ` set (db_users db) \<and>
                   items_of_order db (order_ID o1) \<noteq> []) (db_orders db)))"

definition GetOrders :: "database \<Rightarrow> uuid list \<Rightarrow> get_orders_row list" where
  "GetOrders db ids = map (get_orders_row_of db)
     (filter (\<lambda>o1. order_ID o1 \<in> set ids \<and> items_of_order db (order_ID o1) \<noteq> []) (db_orders db))"

definition FindOrderByUserId :: "database \<Rightarrow> uuid \<Rightarrow> order_row list" where
  "FindOrderByUserId db uid = filter (\<lambda>o1. order_UserID o1 = uid) (db_orders db)"

definition FindOrderUserId :: "database \<Rightarrow> uuid \<Rightarrow> order_row list" where
  "FindOrderUserId db uid =
     filter (\<lambda>o1. order_UserID o1 = uid \<and> uid \<in> user_ID ` set (db_users db)) (db_orders db)"

text \<open>\<open>select * from order_items where id = $1\<close>: the argument is compared with the item's id.\<close>

definition FindOrderItemById :: "database \<Rightarrow> uuid \<Rightarrow> order_item_row list" where
  "FindOrderItemById db i = filter (\<lambda>r. oitem_ID r = i) (db_order_items db)"

text \<open>
  \<open>FindOrderItemByIdAndUserId\<close> compares an unqualified \<open>id\<close>, a column of both joined tables:
  Postgres refuses the statement whatever the arguments.
\<close>

definition FindOrderItemByIdAndUserId ::
    "database \<Rightarrow> string \<Rightarrow> string \<Rightarrow> go_error + order_item_row list" where
  "FindOrderItemByIdAndUserId db c1 c2 = Inl (ambiguous_column ''id'')"

definition DeleteOrderItemFromOrdersById ::
    "database \<Rightarrow> uuid \<Rightarrow> go_error + (database \<times> order_item_row)" where
  "DeleteOrderItemFromOrdersById db i =
     (case filter (\<lambda>r. oitem_ID r = i) (db_order_items db) of
        [] \<Rightarrow> Inl ErrNoRows
      | r # _ \<Rightarrow> Inr (db\<lparr>db_order_items := filter (\<lambda>r. oitem_ID r \<noteq> i) (db_order_items db)\<rparr>, r))"

definition InsertOrder ::
    "time \<Rightarrow> database \<Rightarrow> uuid \<Rightarrow> uuid \<Rightarrow> go_error + (database \<times> order_row)" where
  "InsertOrder now db i uid =
     (let row = \<lparr>order_ID = i, order_UserID = uid, order_Status = WAITING_PAYMENT,
                 order_CreatedAt = timestamptz_of_time now,
                 order_UpdatedAt = timestamptz_of_time now\<rparr>
      in if i \<in> order_ID ` set (db_orders db) then Inl (unique_violation ''orders_pkey'')
         else if uid \<notin> user_ID ` set (db_users db) then Inl (fkey_violation ''orders_user_id_fkey'')
         else Inr (db\<lparr>db_orders := db_orders db @ [row]\<rparr>, row))"

definition order_of_params :: "insert_order_params \<Rightarrow> order_row" where
  "order_of_params arg =
     \<lparr>order_ID = iop_ID arg, order_UserID = iop_UserID arg, order_Status = WAITING_PAYMENT,
      order_CreatedAt = iop_CreatedAt arg, order_UpdatedAt = iop_UpdatedAt arg\<rparr>"

definition order_item_of_params :: "insert_order_item_params \<Rightarrow> order_item_row" where
  "order_item_of_params arg =
     \<lparr>oitem_ID = ioi_ID arg, oitem_OrderID = ioi_OrderID arg, oitem_ProductID = ioi_ProductID arg,
      oitem_Quantity = ioi_Quantity arg, oitem_Price = ioi_Price arg,
      oitem_CreatedAt = ioi_CreatedAt arg, oitem_UpdatedAt = ioi_UpdatedAt arg\<rparr>"

definition InsertOrders ::
    "database \<Rightarrow> insert_order_params list \<Rightarrow> go_error + (database \<times> nat)" where
  "InsertOrders db args =
     (let rows = map order_of_params args; orders = db_orders db @ rows
      in if \<not> distinct (map order_ID orders) then Inl (unique_violation ''orders_pkey'')
         else if \<exists>r \<in> set rows. order_UserID r \<notin> user_ID ` set (db_users db)
           then Inl (fkey_violation ''orders_user_id_fkey'')
         else Inr (db\<lparr>db_orders := orders\<rparr>, length args))"

definition InsertOrderItem ::
    "database \<Rightarrow> insert_order_item_params list \<Rightarrow> go_error + (database \<times> nat)" where
  "InsertOrderItem db args =
     (let rows = map order_item_of_params args; items = db_order_items db @ rows
      in if \<exists>r \<in> set rows. \<not> num_Valid (oitem_Price r) then Inl (not_null_violation ''price'')
         else if \<not> distinct (map oitem_ID items) then Inl (unique_violation ''order_items_pkey'')
         else if \<exists>r \<in> set rows. oitem_OrderID r \<notin> order_ID ` set (db_orders db)
           then Inl (fkey_violation ''order_items_order_id_fkey'')
         else if \<exists>r \<in> set rows. oitem_ProductID r \<notin> product_ID ` set (db_products db)
           then Inl (fkey_violation ''order_items_product_id_fkey'')
         else Inr (db\<lparr>db_order_items := items\<rparr>, length args))"

section \<open>The statements that change a table\<close>

lemmas insert_statements [sql_simps] = InsertUser_def InsertProduct_def InsertCart_def InsertCartItems_def
  InsertCartItem_def InsertOrder_def InsertOrders_def InsertOrderItem_def

lemmas change_statements [sql_simps] = UpdateProduct_def UpdateProductQuantity_def DeleteProduct_def
  DeleteCartByIdAndUserId_def DeleteCartItemFromCartsById_def DeleteOrderItemFromOrdersById_def

end
