(* ===== verification/CopyFrom.thy ===== *)
theory CopyFrom
  imports Repository
begin

text \<open>
  \<open>internal/repository/copyfrom.go\<close>: the three iterators behind the bulk inserts. They are one
  algorithm on three row types: \<open>Next\<close> keeps the first row on its first call and drops one
  afterwards, \<open>Values\<close> reads the columns of the head row and panics on an empty slice. The
  loop that pgx runs over them is \<open>copy_loop\<close>; it hands over every row once, in order.
\<close>

record 'a copy_iterator =
  ci_rows :: "'a list"
  ci_skippedFirstNextCall :: bool

definition Next :: "'a copy_iterator \<Rightarrow> bool \<times> 'a copy_iterator" where
  "Next r =
     (if ci_rows r = [] then (False, r)
      else if \<not> ci_skippedFirstNextCall r then (True, r\<lparr>ci_skippedFirstNextCall := True\<rparr>)
      else let rows = tl (ci_rows r) in (rows \<noteq> [], r\<lparr>ci_rows := rows\<rparr>))"

definition Values :: "('a \<Rightarrow> 'v) \<Rightarrow> 'a copy_iterator \<Rightarrow> 'v outcome" where
  "Values cols r =
     (case ci_rows r of
        [] \<Rightarrow> Panic ''runtime error: index out of range [0] with length 0''
      | x # _ \<Rightarrow> Ret (cols x))"

definition copy_size :: "'a copy_iterator \<Rightarrow> nat" where
  "copy_size r = 2 * length (ci_rows r) + (if ci_skippedFirstNextCall r then 0 else 1)"

lemma Next_decreases: "Next r = (True, r') \<Longrightarrow> copy_size r' < copy_size r"
  by (cases "ci_rows r") (auto simp: Next_def copy_size_def Let_def split: if_splits)

lemma Next_nonempty: "Next r = (True, r') \<Longrightarrow> ci_rows r' \<noteq> []"
  by (auto simp: Next_def Let_def split: if_splits)

text \<open>The loop of \<open>CopyFrom\<close>: \<open>for src.Next() { values, err := src.Values(); ... }\<close>.\<close>

function copy_loop :: "('a \<Rightarrow> 'v) \<Rightarrow> 'a copy_iterator \<Rightarrow> 'v list outcome" where
  "copy_loop cols r =
     (case Next r of
        (False, r') \<Rightarrow> Ret []
      | (True, r') \<Rightarrow>
          and_then (Values cols r') (\<lambda>v. and_then (copy_loop cols r') (\<lambda>vs. Ret (v # vs))))"
  by auto
termination
  by (relation "measure (\<lambda>(cols, r). copy_size r)") (auto intro: Next_decreases dest: sym)

declare copy_loop.simps [simp del]

lemma copy_loop_skipped:
  "copy_loop cols \<lparr>ci_rows = x # xs, ci_skippedFirstNextCall = True\<rparr> = Ret (map cols xs)"
proof (induction xs arbitrary: x)
  case Nil
  then show ?case by (simp add: copy_loop.simps Next_def)
next
  case (Cons y ys)
  then show ?case
    by (subst copy_loop.simps) (simp add: Next_def Values_def Let_def)
qed

lemma copy_loop_fresh:
  "copy_loop cols \<lparr>ci_rows = xs, ci_skippedFirstNextCall = False\<rparr> = Ret (map cols xs)"
proof (cases xs)
  case Nil
  then show ?thesis by (simp add: copy_loop.simps Next_def)
next
  case (Cons y ys)
  then show ?thesis
    by (subst copy_loop.simps) (simp add: Next_def Values_def copy_loop_skipped)
qed

section \<open>The three instances\<close>

datatype sql_value =
    SqlUuid uuid
  | SqlInt4 int32
  | SqlNumeric pg_numeric
  | SqlTimestamptz pg_timestamptz

definition cart_items_columns :: "string list" where
  "cart_items_columns = [''id'', ''cart_id'', ''product_id'', ''quantity'', ''price'']"

definition order_items_columns :: "string list" where
  "order_items_columns =
     [''id'', ''order_id'', ''product_id'', ''quantity'', ''price'', ''created_at'', ''updated_at'']"

definition orders_columns :: "string list" where
  "orders_columns = [''id'', ''user_id'', ''created_at'', ''updated_at'']"

definition cart_items_values :: "insert_cart_item_params \<Rightarrow> sql_value list" where
  "cart_items_values r =
     [SqlUuid (ici_ID r), SqlUuid (ici_CartID r), SqlUuid (ici_ProductID r),
      SqlInt4 (ici_Quantity r), SqlNumeric (ici_Price r)]"

definition order_items_values :: "insert_order_item_params \<Rightarrow> sql_value list" where
  "order_items_values r =
     [SqlUuid (ioi_ID r), SqlUuid (ioi_OrderID r), SqlUuid (ioi_ProductID r),
      SqlInt4 (ioi_Quantity r), SqlNumeric (ioi_Price r),
      SqlTimestamptz (ioi_CreatedAt r), SqlTimestamptz (ioi_UpdatedAt r)]"

definition orders_values :: "insert_order_params \<Rightarrow> sql_value list" where
  "orders_values r =
     [SqlUuid (iop_ID r), SqlUuid (iop_UserID r),
      SqlTimestamptz (iop_CreatedAt r), SqlTimestamptz (iop_UpdatedAt r)]"

text \<open>What the table stores for a named column of a row.\<close>

definition order_row_column :: "order_row \<Rightarrow> string \<Rightarrow> sql_value option" where
  "order_row_column r = map_of
     [(''id'', SqlUuid (order_ID r)), (''user_id'', SqlUuid (order_UserID r)),
      (''created_at'', SqlTimestamptz (order_CreatedAt r)),
      (''updated_at'', SqlTimestamptz (order_UpdatedAt r))]"

definition order_item_row_column :: "order_item_row \<Rightarrow> string \<Rightarrow> sql_value option" where
  "order_item_row_column r = map_of
     [(''id'', SqlUuid (oitem_ID r)), (''order_id'', SqlUuid (oitem_OrderID r)),
      (''product_id'', SqlUuid (oitem_ProductID r)), (''quantity'', SqlInt4 (oitem_Quantity r)),
      (''price'', SqlNumeric (oitem_Price r)),
      (''created_at'', SqlTimestamptz (oitem_CreatedAt r)),
      (''updated_at'', SqlTimestamptz (oitem_UpdatedAt r))]"

definition cart_item_row_column :: "cart_item_row \<Rightarrow> string \<Rightarrow> sql_value option" where
  "cart_item_row_column r = map_of
     [(''id'', SqlUuid (citem_ID r)), (''cart_id'', SqlUuid (citem_CartID r)),
      (''product_id'', SqlUuid (citem_ProductID r)), (''quantity'', SqlInt4 (citem_Quantity r)),
      (''price'', SqlNumeric (citem_Price r)),
      (''created_at'', SqlTimestamptz (citem_CreatedAt r)),
      (''updated_at'', SqlTimestamptz (citem_UpdatedAt r))]"

lemma orders_columns_aligned:
  "map Some (orders_values r) = map (order_row_column (order_of_params r)) orders_columns"
  by (simp add: orders_values_def order_row_column_def orders_columns_def order_of_params_def)

lemma order_items_columns_aligned:
  "map Some (order_items_values r) =
     map (order_item_row_column (order_item_of_params r)) order_items_columns"
  by (simp add: order_items_values_def order_item_row_column_def order_items_columns_def
      order_item_of_params_def)

lemma cart_items_columns_aligned:
  "map Some (cart_items_values r) =
     map (cart_item_row_column (cart_item_of_params now r)) cart_items_columns"
  by (simp add: cart_items_values_def cart_item_row_column_def cart_items_columns_def
      cart_item_of_params_def)

end
