(* ===== verification/Mapper.thy ===== *)
theory Mapper
  imports Repository
begin

text \<open>
  \<open>internal/repository/mapper.go\<close>: database rows to response structs. The item lists arrive as
  JSON text built by Postgres and are decoded again, which can fail; a price arrives as a
  numeric whose coefficient is a pointer.
\<close>

definition Product_Response :: "product_row \<Rightarrow> res_product outcome" where
  "Product_Response p =
     and_then (decimal_NewFromBigInt (num_Int (product_Price p)) (num_Exp (product_Price p)))
       (\<lambda>price. Ret \<lparr>sp_ID = product_ID p, sp_Name = product_Name p, sp_Price = price,
                     sp_Quantity = product_Quantity p, sp_CreatedAt = tz_Time (product_CreatedAt p),
                     sp_UpdatedAt = tz_Time (product_UpdatedAt p)\<rparr>)"

definition GetOrdersRow_Response :: "get_orders_row \<Rightarrow> go_error + res_order" where
  "GetOrdersRow_Response r =
     if_ok (decode_list decode_res_order_item (gor_OrderItems r))
       (\<lambda>items. Inr \<lparr>so_CreatedAt = tz_Time (gor_CreatedAt r),
                     so_UpdatedAt = tz_Time (gor_UpdatedAt r), so_OrderItems = items,
                     so_Status = order_status_text (gor_Status r), so_ID = gor_ID r,
                     so_UserId = gor_UserID r\<rparr>)"

text \<open>\<open>FindOrderByIdRow\<close> has the same columns and the same mapping.\<close>

definition FindOrderByIdRow_ResponseOrder :: "get_orders_row \<Rightarrow> go_error + res_order" where
  "FindOrderByIdRow_ResponseOrder r =
     if_ok (decode_list decode_res_order_item (gor_OrderItems r))
       (\<lambda>items. Inr \<lparr>so_CreatedAt = tz_Time (gor_CreatedAt r),
                     so_UpdatedAt = tz_Time (gor_UpdatedAt r), so_OrderItems = items,
                     so_Status = order_status_text (gor_Status r), so_ID = gor_ID r,
                     so_UserId = gor_UserID r\<rparr>)"

definition FindCartByIdRow_Response :: "find_cart_by_id_row \<Rightarrow> go_error + res_cart" where
  "FindCartByIdRow_Response r =
     if_ok (decode_list decode_res_cart_item (fcr_CartItems r))
       (\<lambda>items. Inr \<lparr>sc_ID = fcr_ID r, sc_UserID = fcr_UserID r, sc_CartItems = items,
                     sc_CreatedAt = tz_Time (fcr_CreatedAt r),
                     sc_UpdatedAt = tz_Time (fcr_UpdatedAt r)\<rparr>)"

lemma decode_json_agg:
  assumes "\<And>r. r \<in> set rs \<Longrightarrow> dec (enc r) = Inr (f r)"
  shows "decode_list dec (json_agg (map enc rs)) = Inr (map f rs)"
proof -
  have "traverse dec (map enc rs) = Inr (map f rs)"
    using assms by (induction rs) auto
  then show ?thesis by (simp add: json_agg_def)
qed

text \<open>The response of an order is its row and the rows of its items.\<close>

definition res_order_of_row :: "database \<Rightarrow> order_row \<Rightarrow> res_order" where
  "res_order_of_row db r =
     \<lparr>so_CreatedAt = tz_Time (order_CreatedAt r), so_UpdatedAt = tz_Time (order_UpdatedAt r),
      so_OrderItems = map res_order_item_of_row (items_of_order db (order_ID r)),
      so_Status = order_status_text (order_Status r), so_ID = order_ID r,
      so_UserId = order_UserID r\<rparr>"

definition res_cart_of_row :: "database \<Rightarrow> cart_row \<Rightarrow> res_cart" where
  "res_cart_of_row db c =
     \<lparr>sc_ID = cart_ID c, sc_UserID = cart_UserID c,
      sc_CartItems = map res_cart_item_of_row (items_of_cart db (cart_ID c)),
      sc_CreatedAt = tz_Time (cart_CreatedAt c), sc_UpdatedAt = tz_Time (cart_UpdatedAt c)\<rparr>"

lemma GetOrdersRow_Response_of:
  assumes "\<forall>i \<in> set (items_of_order db (order_ID r)). proper_order_item i"
  shows "GetOrdersRow_Response (get_orders_row_of db r) = Inr (res_order_of_row db r)"
proof -
  have "decode_list decode_res_order_item
      (json_agg (map order_item_to_json (items_of_order db (order_ID r)))) =
      Inr (map res_order_item_of_row (items_of_order db (order_ID r)))"
    using assms by (intro decode_json_agg) (auto intro: decode_order_item_to_json)
  then show ?thesis
    by (simp add: GetOrdersRow_Response_def get_orders_row_of_def res_order_of_row_def)
qed

lemma FindOrderByIdRow_ResponseOrder_eq: "FindOrderByIdRow_ResponseOrder = GetOrdersRow_Response"
  by (rule ext) (simp add: FindOrderByIdRow_ResponseOrder_def GetOrdersRow_Response_def)

lemma decode_cart_items_agg:
  assumes "\<forall>i \<in> set rs. proper_cart_item i"
  shows "decode_list decode_res_cart_item (json_agg (map cart_item_to_json rs)) =
    Inr (map res_cart_item_of_row rs)"
  using assms by (intro decode_json_agg) (auto intro: decode_cart_item_to_json)

lemma Product_Response_not_nil:
  "num_Int (product_Price p) \<noteq> None \<Longrightarrow> \<exists>r. Product_Response p = Ret r"
  by (auto simp: Product_Response_def decimal_NewFromBigInt_def)

text \<open>The enum \<open>order_status\<close> as text: \<open>Scan\<close> stores any text, \<open>Value\<close> hands it back.\<close>

datatype scan_source = ScanNil | ScanBytes string | ScanString string | ScanOther string

definition OrderStatus_Scan :: "scan_source \<Rightarrow> go_error + string" where
  "OrderStatus_Scan src =
     (case src of
        ScanBytes s \<Rightarrow> Inr s
      | ScanString s \<Rightarrow> Inr s
      | ScanNil \<Rightarrow> Inl (ErrNew ''unsupported scan type for OrderStatus: <nil>'')
      | ScanOther t \<Rightarrow> Inl (ErrNew (''unsupported scan type for OrderStatus: '' @ t)))"

record null_order_status =
  nos_OrderStatus :: string
  nos_Valid :: bool

definition NullOrderStatus_Scan :: "null_order_status \<Rightarrow> scan_source \<Rightarrow>
    null_order_status \<times> go_error option" where
  "NullOrderStatus_Scan ns value =
     (if value = ScanNil then (ns\<lparr>nos_OrderStatus := [], nos_Valid := False\<rparr>, None)
      else case OrderStatus_Scan value of
          Inl e \<Rightarrow> (ns\<lparr>nos_Valid := True\<rparr>, Some e)
        | Inr s \<Rightarrow> (ns\<lparr>nos_Valid := True, nos_OrderStatus := s\<rparr>, None))"

definition NullOrderStatus_Value :: "null_order_status \<Rightarrow> scan_source" where
  "NullOrderStatus_Value ns = (if \<not> nos_Valid ns then ScanNil else ScanString (nos_OrderStatus ns))"

lemma NullOrderStatus_scan_value:
  "(\<And>t. src \<noteq> ScanOther t) \<Longrightarrow>
     NullOrderStatus_Value (fst (NullOrderStatus_Scan ns src)) =
       (case src of ScanBytes s \<Rightarrow> ScanString s | x \<Rightarrow> x)"
  by (cases src)
    (auto simp: NullOrderStatus_Scan_def NullOrderStatus_Value_def OrderStatus_Scan_def)

end
