(* ===== verification/RepositoryLaws.thy ===== *)
theory RepositoryLaws
  imports CopyFrom Mapper
begin

text \<open>
  What the statements of the repository promise: each one that succeeds keeps every schema
  constraint, and changes no table but its own (a delete cascades to the items of the cart).
\<close>

section \<open>The schema constraints\<close>

lemma db_ok_products:
  "db_ok db \<Longrightarrow> distinct (map product_ID (db_products db))"
  by (simp add: db_ok_def)

lemma db_ok_add_orders:
  "db_ok db \<Longrightarrow> distinct (map order_ID (db_orders db @ rows)) \<Longrightarrow>
     \<forall>r \<in> set rows. order_UserID r \<in> user_ID ` set (db_users db) \<Longrightarrow>
     db_ok (db\<lparr>db_orders := db_orders db @ rows\<rparr>)"
  unfolding db_ok_def
  by (simp add: image_Un image_subset_iff ball_Un del: map_append distinct_append)

lemma InsertUser_ok: "InsertUser i db arg = Inr (db', r) \<Longrightarrow> db_ok db \<Longrightarrow> db_ok db'"
  by (auto simp: InsertUser_def Let_def db_ok_def image_subset_iff split: if_splits)

lemma InsertProduct_ok: "InsertProduct i now db arg = Inr (db', r) \<Longrightarrow> db_ok db \<Longrightarrow> db_ok db'"
  by (auto simp: InsertProduct_def Let_def db_ok_def image_subset_iff split: if_splits)

lemma InsertCart_ok: "InsertCart i now db uid = Inr (db', r) \<Longrightarrow> db_ok db \<Longrightarrow> db_ok db'"
  by (auto simp: InsertCart_def Let_def db_ok_def image_subset_iff split: if_splits)

lemma InsertCartItems_ok:
  "InsertCartItems now db args = Inr (db', n) \<Longrightarrow> db_ok db \<Longrightarrow> db_ok db'"
  by (auto simp: InsertCartItems_def Let_def db_ok_def image_subset_iff split: if_splits)

lemma InsertCartItem_ok:
  "InsertCartItem now db arg = Inr (db', r) \<Longrightarrow> db_ok db \<Longrightarrow> db_ok db'"
  by (auto simp: InsertCartItem_def intro: InsertCartItems_ok)

lemma InsertOrder_ok: "InsertOrder now db i uid = Inr (db', r) \<Longrightarrow> db_ok db \<Longrightarrow> db_ok db'"
  by (auto simp: InsertOrder_def Let_def db_ok_def image_subset_iff split: if_splits)

lemma InsertOrders_ok: "InsertOrders db args = Inr (db', n) \<Longrightarrow> db_ok db \<Longrightarrow> db_ok db'"
  by (auto simp: InsertOrders_def Let_def split: if_splits
      simp del: map_append distinct_append intro!: db_ok_add_orders)

lemma InsertOrderItem_ok: "InsertOrderItem db args = Inr (db', n) \<Longrightarrow> db_ok db \<Longrightarrow> db_ok db'"
  by (auto simp: InsertOrderItem_def Let_def db_ok_def image_subset_iff split: if_splits)

text \<open>Rewriting the row of one identifier keeps the identifiers.\<close>

lemma map_key_update:
  assumes "key row = i"
  shows "map key (map (\<lambda>q. if key q = i then row else q) xs) = map key xs"
  using assms by (induction xs) auto

lemma distinct_name_update:
  assumes "distinct (map nm xs)" and "distinct (map key xs)"
    and "nm row \<notin> nm ` set (filter (\<lambda>q. key q \<noteq> i) xs)"
  shows "distinct (map nm (map (\<lambda>q. if key q = i then row else q) xs))"
  using assms
proof (induction xs)
  case Nil
  then show ?case by simp
next
  case (Cons x xs)
  show ?case
  proof (cases "key x = i")
    case True
    then have "\<forall>q \<in> set xs. key q \<noteq> i" using Cons.prems(2) by (auto simp: image_iff)
    then have "map (\<lambda>q. if key q = i then row else q) xs = xs" "filter (\<lambda>q. key q \<noteq> i) xs = xs"
      by (auto intro: map_idI simp: filter_id_conv)
    with True Cons.prems show ?thesis by simp
  next
    case False
    have "\<forall>y \<in> set xs. nm x \<noteq> nm (if key y = i then row else y)"
      using False Cons.prems(1,3) by auto
    with False Cons show ?thesis by (auto simp: o_def)
  qed
qed

lemma db_ok_update_products:
  assumes "db_ok db" and "map product_ID ps = map product_ID (db_products db)"
    and "distinct (map product_Name ps)"
  shows "db_ok (db\<lparr>db_products := ps\<rparr>)"
proof -
  have "product_ID ` set ps = product_ID ` set (db_products db)"
    using assms(2) by (metis image_set)
  with assms show ?thesis by (simp add: db_ok_def)
qed

lemma UpdateProduct_ok:
  assumes "UpdateProduct now db arg = Inr (db', r)" and "db_ok db"
  shows "db_ok db'"
proof -
  from assms(1) obtain p ps where p: "filter (\<lambda>p. product_ID p = upp_ID arg) (db_products db) = p # ps"
    by (auto simp: UpdateProduct_def split: list.splits)
  then have pid: "product_ID p = upp_ID arg" by (auto simp: filter_eq_Cons_iff)
  let ?row = "p\<lparr>product_Name := upp_Name arg, product_Price := upp_Price arg,
    product_Quantity := upp_Quantity arg, product_UpdatedAt := timestamptz_of_time now\<rparr>"
  from assms(1) p have
    fresh: "upp_Name arg \<notin>
      product_Name ` set (filter (\<lambda>q. product_ID q \<noteq> upp_ID arg) (db_products db))" and
    db': "db' = db\<lparr>db_products :=
      map (\<lambda>q. if product_ID q = upp_ID arg then ?row else q) (db_products db)\<rparr>"
    by (auto simp: UpdateProduct_def Let_def split: if_splits)
  show ?thesis unfolding db'
    using assms(2) pid fresh
    by (intro db_ok_update_products map_key_update distinct_name_update) (auto simp: db_ok_def)
qed

lemma UpdateProductQuantity_ok:
  assumes "UpdateProductQuantity db arg = Inr (db', r)" and "db_ok db"
  shows "db_ok db'"
proof -
  from assms(1) obtain p ps where
    p: "filter (\<lambda>p. product_ID p = upq_ID arg) (db_products db) = p # ps" and
    db': "db' = db\<lparr>db_products := map (\<lambda>q. if product_ID q = upq_ID arg
      then p\<lparr>product_Quantity := upq_Quantity arg\<rparr> else q) (db_products db)\<rparr>"
    by (auto simp: UpdateProductQuantity_def Let_def split: list.splits)
  from p have pid: "product_ID p = upq_ID arg" and mem: "p \<in> set (db_products db)"
    by (auto simp: filter_eq_Cons_iff)
  have "product_Name p \<notin> product_Name ` set (filter (\<lambda>q. product_ID q \<noteq> upq_ID arg) (db_products db))"
  proof
    assume "product_Name p \<in> product_Name ` set (filter (\<lambda>q. product_ID q \<noteq> upq_ID arg) (db_products db))"
    then obtain q where "q \<in> set (db_products db)" "product_ID q \<noteq> upq_ID arg"
      "product_Name p = product_Name q" by auto
    with mem assms(2) pid show False
      by (metis db_ok_def distinct_map inj_onD)
  qed
  then show ?thesis unfolding db'
    using assms(2) pid
    by (intro db_ok_update_products map_key_update distinct_name_update) (auto simp: db_ok_def)
qed

lemma distinct_map_filter_keep: "distinct (map f xs) \<Longrightarrow> distinct (map f (filter P xs))"
  by (simp add: distinct_map_filter)

lemma unreferenced_row_can_go:
  "f ` A \<subseteq> key ` set ps \<Longrightarrow> i \<notin> f ` A \<Longrightarrow> f ` A \<subseteq> key ` {q \<in> set ps. key q \<noteq> i}"
  by (auto simp: image_subset_iff image_iff) metis

lemma DeleteProduct_ok:
  assumes "DeleteProduct db i = Inr (db', r)" and "db_ok db"
  shows "db_ok db'"
proof -
  from assms(1) have db': "db' = db\<lparr>db_products := filter (\<lambda>q. product_ID q \<noteq> i) (db_products db)\<rparr>"
    and "i \<notin> citem_ProductID ` set (db_cart_items db)"
    and "i \<notin> oitem_ProductID ` set (db_order_items db)"
    by (auto simp: DeleteProduct_def split: list.splits if_splits)
  with assms(2) show ?thesis unfolding db' db_ok_def
    by (simp add: unreferenced_row_can_go distinct_map_filter_keep)
qed

lemma cascade_keeps_reference:
  assumes "item_key ` set items \<subseteq> key ` set cs"
  shows "item_key ` set (filter (\<lambda>i. item_key i \<noteq> k) items) \<subseteq>
    key ` set (filter (\<lambda>c. key c = k \<longrightarrow> owner c \<noteq> u) cs)"
proof
  fix x
  assume "x \<in> item_key ` set (filter (\<lambda>i. item_key i \<noteq> k) items)"
  then obtain i where i: "i \<in> set items" "x = item_key i" "x \<noteq> k" by auto
  with assms obtain c where "c \<in> set cs" "key c = x" by auto
  with i(3) show "x \<in> key ` set (filter (\<lambda>c. key c = k \<longrightarrow> owner c \<noteq> u) cs)" by force
qed

lemma image_filter_subset: "f ` set xs \<subseteq> A \<Longrightarrow> f ` set (filter P xs) \<subseteq> A"
  by auto

lemma DeleteCartByIdAndUserId_ok:
  assumes "DeleteCartByIdAndUserId db arg = Inr (db', r)" and "db_ok db"
  shows "db_ok db'"
proof -
  from assms(1) have db': "db' = db\<lparr>db_carts := filter (\<lambda>c. \<not> (cart_ID c = dcp_ID arg \<and>
        cart_UserID c = dcp_UserID arg)) (db_carts db),
      db_cart_items := filter (\<lambda>i. citem_CartID i \<noteq> dcp_ID arg) (db_cart_items db)\<rparr>"
    by (auto simp: DeleteCartByIdAndUserId_def split: list.splits)
  show ?thesis
    using assms(2) unfolding db' db_ok_def
    by (simp add: cascade_keeps_reference image_filter_subset distinct_map_filter_keep
        del: set_filter)
qed

lemma DeleteCartItemFromCartsById_ok:
  "DeleteCartItemFromCartsById db arg = Inr (db', r) \<Longrightarrow> db_ok db \<Longrightarrow> db_ok db'"
  by (auto simp: DeleteCartItemFromCartsById_def db_ok_def distinct_map_filter image_subset_iff
      split: list.splits)

lemma DeleteOrderItemFromOrdersById_ok:
  "DeleteOrderItemFromOrdersById db i = Inr (db', r) \<Longrightarrow> db_ok db \<Longrightarrow> db_ok db'"
  by (auto simp: DeleteOrderItemFromOrdersById_def db_ok_def distinct_map_filter image_subset_iff
      split: list.splits)

lemmas statements_ok = InsertUser_ok InsertProduct_ok InsertCart_ok InsertCartItems_ok
  InsertCartItem_ok InsertOrder_ok InsertOrders_ok InsertOrderItem_ok UpdateProduct_ok
  UpdateProductQuantity_ok DeleteProduct_ok DeleteCartByIdAndUserId_ok
  DeleteCartItemFromCartsById_ok DeleteOrderItemFromOrdersById_ok

end
