(* ===== verification/OrderQuery.thy ===== *)
theory OrderQuery
  imports OrderBalance RepositoryLaws
begin

text \<open>
  \<open>buildQuery\<close> of \<open>order/internal/service/order.go\<close> writes the update of all products of a batch
  as the text of one SQL statement, and \<open>tx.Query\<close> runs it. The model keeps the text: a reader
  for the statement's shape turns it back into \<open>case\<close> branches, and the update is what those
  branches mean on the table. The round trip through the text is a lemma.
\<close>

section \<open>Writing the statement\<close>

definition query_head :: string where
  "query_head = ''update products set updated_at = now(), quantity = quantity - case ''"

definition query_tail :: string where
  "query_tail = '' end where id = any($1::uuid[]) returning *;''"

definition branch_head :: string where
  "branch_head = ''when id = '' @ [CHR 0x27]"

definition branch_mid :: string where
  "branch_mid = [CHR 0x27] @ '' then ''"

text \<open>\<open>fmt.Sprintf(`when id = '%s' then %d `, productId, item.OrderedItemQuantity)\<close>.\<close>

definition write_branch :: "string \<times> int \<Rightarrow> string" where
  "write_branch b = branch_head @ fst b @ branch_mid @ format_d (snd b) @ '' ''"

definition query_branches :: "string list \<Rightarrow> merged_map \<Rightarrow> (string \<times> int) list" where
  "query_branches ks mm = map (\<lambda>(k, m). (k, sint (moi_OrderedItemQuantity m))) (go_range ks mm)"

definition buildQuery :: "string list \<Rightarrow> merged_map \<Rightarrow> string" where
  "buildQuery ks mm = query_head @ concat (map write_branch (query_branches ks mm)) @ query_tail"

section \<open>Reading the statement\<close>

primrec strip :: "string \<Rightarrow> string \<Rightarrow> string option" where
  "strip [] s = Some s"
| "strip (c # p) s = (case s of [] \<Rightarrow> None | d # r \<Rightarrow> if c = d then strip p r else None)"

lemma strip_append [simp]: "strip p (p @ s) = Some s"
  by (induction p) auto

lemma strip_length: "strip p s = Some r \<Longrightarrow> length s = length p + length r"
  by (induction p arbitrary: s) (auto split: list.splits if_splits)

lemma strip_char: "strip [c] s = (case s of [] \<Rightarrow> None | d # r \<Rightarrow> if c = d then Some r else None)"
  by (cases s) auto

lemma strip_char_Cons [simp]: "strip [c] (c # r) = Some r"
  by simp

declare strip.simps(2) [simp del]

definition is_digit :: "char \<Rightarrow> bool" where
  "is_digit c \<longleftrightarrow> 48 \<le> (of_char c :: nat) \<and> (of_char c :: nat) \<le> 57"

definition digits_value :: "string \<Rightarrow> nat" where
  "digits_value s = foldl (\<lambda>v c. 10 * v + (of_char c - 48)) 0 s"

definition read_nat :: "string \<Rightarrow> (nat \<times> string) option" where
  "read_nat s =
     (let ds = takeWhile is_digit s
      in if ds = [] then None else Some (digits_value ds, dropWhile is_digit s))"

definition read_int :: "string \<Rightarrow> (int \<times> string) option" where
  "read_int s =
     (case strip ''-'' s of
        Some r \<Rightarrow> map_option (\<lambda>(n, r'). (- int n, r')) (read_nat r)
      | None \<Rightarrow> map_option (\<lambda>(n, r'). (int n, r')) (read_nat s))"

definition read_branch :: "string \<Rightarrow> ((string \<times> int) \<times> string) option" where
  "read_branch s =
     Option.bind (strip branch_head s) (\<lambda>r.
     Option.bind (strip branch_mid (dropWhile (\<lambda>c. c \<noteq> CHR 0x27) r)) (\<lambda>r2.
     Option.bind (read_int r2) (\<lambda>(v, r3).
     Option.bind (strip '' '' r3) (\<lambda>r4.
       Some ((takeWhile (\<lambda>c. c \<noteq> CHR 0x27) r, v), r4)))))"

lemma read_nat_length: "read_nat s = Some (n, r) \<Longrightarrow> length r \<le> length s"
  by (auto simp: read_nat_def Let_def length_dropWhile_le split: if_splits)

lemma read_int_length: "read_int s = Some (v, r) \<Longrightarrow> length r \<le> length s"
  by (auto simp: read_int_def split: option.splits dest!: read_nat_length strip_length)

lemma read_branch_length: "read_branch s = Some (b, r) \<Longrightarrow> length r < length s"
proof -
  assume "read_branch s = Some (b, r)"
  then obtain r1 r2 v r3 where "strip branch_head s = Some r1"
    "strip branch_mid (dropWhile (\<lambda>c. c \<noteq> CHR 0x27) r1) = Some r2"
    "read_int r2 = Some (v, r3)" "strip '' '' r3 = Some r"
    by (auto simp: read_branch_def bind_eq_Some_conv)
  then show ?thesis
    using length_dropWhile_le [of "\<lambda>c. c \<noteq> CHR 0x27" r1]
    by (auto dest!: strip_length read_int_length)
qed

function read_branches :: "string \<Rightarrow> (string \<times> int) list option" where
  "read_branches s =
     (if s = query_tail then Some []
      else case read_branch s of
          None \<Rightarrow> None
        | Some (b, r) \<Rightarrow> map_option (\<lambda>bs. b # bs) (read_branches r))"
  by auto
termination
  by (relation "measure length") (auto dest: read_branch_length)

declare read_branches.simps [simp del]

text \<open>An empty \<open>case\<close> is a syntax error.\<close>

definition read_query :: "string \<Rightarrow> (string \<times> int) list option" where
  "read_query s =
     Option.bind (strip query_head s) (\<lambda>r.
     Option.bind (read_branches r) (\<lambda>bs. if bs = [] then None else Some bs))"

subsection \<open>Reading back what was written\<close>

lemma of_char_digit: "n < 10 \<Longrightarrow> (of_char (digit n) :: nat) = 48 + n"
  by (simp add: digit_def)

lemma is_digit_digit: "n < 10 \<Longrightarrow> is_digit (digit n)"
  by (simp add: is_digit_def of_char_digit)

lemma nat_digits_all: "list_all is_digit (nat_digits n)"
  by (induction n rule: nat_digits.induct)
    (subst nat_digits.simps, auto simp: is_digit_digit)

lemma digits_value_snoc: "digits_value (s @ [c]) = 10 * digits_value s + (of_char c - 48)"
  by (simp add: digits_value_def)

lemma nat_digits_value: "digits_value (nat_digits n) = n"
proof (induction n rule: nat_digits.induct)
  case (1 n)
  show ?case
  proof (cases "n < 10")
    case True
    then show ?thesis
      by (subst nat_digits.simps) (simp add: digits_value_def of_char_digit)
  next
    case False
    with 1 have "digits_value (nat_digits (n div 10)) = n div 10" by simp
    with False show ?thesis
      by (subst nat_digits.simps) (simp add: digits_value_snoc of_char_digit)
  qed
qed

lemma nat_digits_not_Nil [simp]: "nat_digits n \<noteq> []"
  by (subst nat_digits.simps) auto

lemma not_is_digit_space [simp]: "\<not> is_digit (CHR '' '')"
  by (simp add: is_digit_def)

lemma read_nat_digits: "read_nat (nat_digits n @ CHR '' '' # r) = Some (n, CHR '' '' # r)"
proof -
  have "takeWhile is_digit (nat_digits n @ CHR '' '' # r) = nat_digits n"
    using nat_digits_all [of n] by (simp add: takeWhile_append list_all_iff)
  moreover have "dropWhile is_digit (nat_digits n @ CHR '' '' # r) = CHR '' '' # r"
    using nat_digits_all [of n] by (simp add: dropWhile_append list_all_iff)
  ultimately show ?thesis by (simp add: read_nat_def nat_digits_value)
qed

lemma strip_minus_digits: "strip ''-'' (nat_digits n @ r) = None"
proof -
  obtain c cs where c: "nat_digits n = c # cs" by (cases "nat_digits n") auto
  with nat_digits_all [of n] have "is_digit c" by simp
  then have "c \<noteq> CHR ''-''" by (auto simp: is_digit_def)
  with c show ?thesis by (simp add: strip_char)
qed

lemma read_int_format: "read_int (format_d i @ CHR '' '' # r) = Some (i, CHR '' '' # r)"
  using read_nat_digits [of "nat i" r] read_nat_digits [of "nat (- i)" r]
    strip_minus_digits [of "nat i" "CHR '' '' # r"]
  by (auto simp: read_int_def format_d_def)

lemma read_branch_write:
  assumes "CHR 0x27 \<notin> set k"
  shows "read_branch (write_branch (k, i) @ r) = Some ((k, i), r)"
proof -
  have drop: "dropWhile (\<lambda>c. c \<noteq> CHR 0x27) (k @ branch_mid @ s) = branch_mid @ s" for s
    using assms by (auto simp: branch_mid_def dropWhile_append)
  have take: "takeWhile (\<lambda>c. c \<noteq> CHR 0x27) (k @ branch_mid @ s) = k" for s
    using assms by (auto simp: branch_mid_def takeWhile_append)
  have "write_branch (k, i) @ r = branch_head @ k @ branch_mid @ format_d i @ CHR '' '' # r"
    by (simp add: write_branch_def)
  then show ?thesis
    by (simp add: read_branch_def drop take read_int_format)
qed

lemma query_tail_not_branch: "write_branch b @ r \<noteq> query_tail"
  by (simp add: write_branch_def branch_head_def query_tail_def)

lemma read_branches_write:
  "\<forall>b \<in> set bs. CHR 0x27 \<notin> set (fst b) \<Longrightarrow>
     read_branches (concat (map write_branch bs) @ query_tail) = Some bs"
proof (induction bs)
  case Nil
  then show ?case by (simp add: read_branches.simps)
next
  case (Cons b bs)
  obtain k i where b: "b = (k, i)" by (cases b)
  have "read_branch (write_branch b @ concat (map write_branch bs) @ query_tail) =
      Some (b, concat (map write_branch bs) @ query_tail)"
    using Cons.prems b by (simp add: read_branch_write)
  with Cons show ?case
    by (subst read_branches.simps) (simp add: query_tail_not_branch)
qed

lemma hexChar_no_quote: "n < 16 \<Longrightarrow> hexChar n \<noteq> CHR 0x27"
proof -
  assume "n < 16"
  then have "hexChar n \<in> set hexdigits"
    unfolding hexChar_def by (intro nth_mem) (simp add: hexdigits_def)
  then show ?thesis by (auto simp: hexdigits_def)
qed

lemma unat_lt_16: "unat (b :: byte) div 16 < 16"
proof -
  have "unat b < 256" using unsigned_less [of b, where ?'a = nat] by simp
  then show ?thesis by simp
qed

lemma hexByte_no_quote: "CHR 0x27 \<notin> set (hexByte b)"
proof -
  have "unat b div 16 < 16" "unat b mod 16 < 16"
    using unat_lt_16 by auto
  then show ?thesis
    using hexChar_no_quote [of "unat b div 16"] hexChar_no_quote [of "unat b mod 16"]
    by (auto simp: hexByte_def)
qed

lemma uuid_String_no_quote [simp]: "CHR 0x27 \<notin> set (uuid_String u)"
  by (auto simp: uuid_String_def Let_def hexEncode_def hexByte_no_quote)

lemma query_branches_no_quote:
  assumes "dom mm \<subseteq> range uuid_String"
  shows "\<forall>b \<in> set (query_branches ks mm). CHR 0x27 \<notin> set (fst b)"
proof
  fix b
  assume "b \<in> set (query_branches ks mm)"
  then obtain k m where "mm k = Some m" "fst b = k"
    by (auto simp: query_branches_def set_go_range)
  with assms obtain u where "fst b = uuid_String u" by blast
  then show "CHR 0x27 \<notin> set (fst b)" by simp
qed

lemma buildQuery_read:
  assumes "dom mm \<subseteq> range uuid_String"
  shows "read_query (buildQuery ks mm) =
    (if query_branches ks mm = [] then None else Some (query_branches ks mm))"
  using read_branches_write [OF query_branches_no_quote [OF assms]]
  by (simp add: read_query_def buildQuery_def)

section \<open>Running the statement\<close>

text \<open>
  The \<open>case\<close> takes the first branch with the row's identifier; a row without one would get
  \<open>null\<close>, which the column refuses. A branch whose literal is no identifier is refused before
  any row is touched.
\<close>

definition branch_uuid :: "string \<times> int \<Rightarrow> go_error + (uuid \<times> int)" where
  "branch_uuid b =
     (case uuid_Parse (fst b) of
        Inl e \<Rightarrow> Inl (ErrNew ''ERROR: invalid input syntax for type uuid (SQLSTATE 22P02)'')
      | Inr u \<Rightarrow> Inr (u, snd b))"

definition update_row :: "time \<Rightarrow> uuid list \<Rightarrow> (uuid \<times> int) list \<Rightarrow> product_row \<Rightarrow>
    go_error + product_row" where
  "update_row now ids bs r =
     (if product_ID r \<notin> set ids then Inr r
      else case map_of bs (product_ID r) of
          None \<Rightarrow> Inl (not_null_violation ''quantity'')
        | Some v \<Rightarrow>
            let q = sint (product_Quantity r) - v
            in if int4_range q
               then Inr (r\<lparr>product_Quantity := word_of_int q,
                           product_UpdatedAt := timestamptz_of_time now\<rparr>)
               else Inl integer_out_of_range)"

definition exec_update :: "time \<Rightarrow> database \<Rightarrow> string \<Rightarrow> uuid list \<Rightarrow> go_error + database" where
  "exec_update now db query ids =
     (case read_query query of
        None \<Rightarrow> Inl syntax_error
      | Some bs \<Rightarrow>
          if_ok (traverse branch_uuid bs) (\<lambda>ubs.
          if_ok (traverse (update_row now ids ubs) (db_products db)) (\<lambda>rows.
            Inr (db\<lparr>db_products := rows\<rparr>))))"

lemma traverse_branch_uuid:
  "\<forall>b \<in> set bs. fst b \<in> range uuid_String \<Longrightarrow>
     \<exists>ubs. traverse branch_uuid bs = Inr ubs \<and> (\<forall>p. map_of ubs p = map_of bs (uuid_String p))"
proof (induction bs)
  case Nil
  then show ?case by simp
next
  case (Cons b bs)
  then obtain u ubs where b: "b = (uuid_String u, snd b)" and
    ubs: "traverse branch_uuid bs = Inr ubs" "\<forall>p. map_of ubs p = map_of bs (uuid_String p)"
    by (cases b) auto
  from b have "branch_uuid b = Inr (u, snd b)"
    by (metis branch_uuid_def fst_conv old.sum.simps(6) uuid_Parse_String)
  with ubs have "traverse branch_uuid (b # bs) = Inr ((u, snd b) # ubs)" by simp
  moreover have "map_of ((u, snd b) # ubs) p = map_of (b # bs) (uuid_String p)" for p
    using ubs(2) by (subst (2) b) simp
  ultimately show ?case by blast
qed

text \<open>The meaning of the written statement: every selected row loses its merged quantity.\<close>

definition update_row_spec :: "time \<Rightarrow> uuid list \<Rightarrow> merged_map \<Rightarrow> product_row \<Rightarrow>
    go_error + product_row" where
  "update_row_spec now ids mm r =
     (if product_ID r \<notin> set ids then Inr r
      else case mm (uuid_String (product_ID r)) of
          None \<Rightarrow> Inl (not_null_violation ''quantity'')
        | Some m \<Rightarrow>
            let q = sint (product_Quantity r) - sint (moi_OrderedItemQuantity m)
            in if int4_range q
               then Inr (r\<lparr>product_Quantity := word_of_int q,
                           product_UpdatedAt := timestamptz_of_time now\<rparr>)
               else Inl integer_out_of_range)"

lemma map_of_query_branches:
  assumes "enumerates ks mm"
  shows "map_of (query_branches ks mm) k =
    map_option (\<lambda>m. sint (moi_OrderedItemQuantity m)) (mm k)"
proof -
  have "map_of (map (\<lambda>(k, m). (k, sint (moi_OrderedItemQuantity m))) xs) k =
      map_option (\<lambda>m. sint (moi_OrderedItemQuantity m)) (map_of xs k)" for xs
    by (induction xs) auto
  then show ?thesis
    unfolding query_branches_def by (metis map_of_go_range_enumerates [OF assms])
qed

lemma query_branches_Nil_iff:
  assumes "enumerates ks mm"
  shows "query_branches ks mm = [] \<longleftrightarrow> mm = Map.empty"
proof -
  have "query_branches ks mm = [] \<longleftrightarrow> set (go_range ks mm) = {}"
    by (simp add: query_branches_def)
  also have "\<dots> \<longleftrightarrow> mm = Map.empty"
    by (auto simp: set_go_range_enumerates [OF assms])
  finally show ?thesis .
qed

lemma exec_buildQuery:
  assumes "enumerates ks mm" and "dom mm \<subseteq> range uuid_String"
  shows "exec_update now db (buildQuery ks mm) ids =
    (if mm = Map.empty then Inl syntax_error
     else if_ok (traverse (update_row_spec now ids mm) (db_products db))
            (\<lambda>rows. Inr (db\<lparr>db_products := rows\<rparr>)))"
proof (cases "mm = Map.empty")
  case True
  with assms show ?thesis
    by (simp add: exec_update_def buildQuery_read query_branches_Nil_iff)
next
  case False
  have "\<forall>b \<in> set (query_branches ks mm). fst b \<in> range uuid_String"
    using assms(2) by (auto simp: query_branches_def set_go_range)
  then obtain ubs where ubs: "traverse branch_uuid (query_branches ks mm) = Inr ubs"
    "\<forall>p. map_of ubs p = map_of (query_branches ks mm) (uuid_String p)"
    using traverse_branch_uuid by blast
  have "update_row now ids ubs r = update_row_spec now ids mm r" for r
    using ubs(2) assms(1)
    by (simp add: update_row_def update_row_spec_def map_of_query_branches split: option.split)
  then have "update_row now ids ubs = update_row_spec now ids mm" by (rule ext)
  with False assms ubs(1) show ?thesis
    by (simp add: exec_update_def buildQuery_read query_branches_Nil_iff)
qed

end
