(* ===== verification/OrderService.thy ===== *)
theory OrderService
  imports OrderQuery
begin

text \<open>
  \<open>OrderService\<close> of \<open>order/internal/service/order.go\<close>: the reads, and \<open>BatchCreateOrder\<close>, which
  turns a batch of order requests into one transaction and answers each request on its result
  channel. What the surroundings decide is an argument (\<open>batch_env\<close>): which infrastructure
  call fails, the clock, and the order in which each Go map is iterated.
\<close>

section \<open>Reading orders\<close>

text \<open>\<open>fault1\<close> and \<open>fault2\<close> are the failures of the two queries, if any.\<close>

definition res_item_of_queried :: "order_item_row \<Rightarrow> res_order_item outcome" where
  "res_item_of_queried i =
     and_then (bigInt_Int64 (num_Int (oitem_Price i))) (\<lambda>v.
       Ret \<lparr>soi_CreatedAt = time_zero, soi_UpdatedAt = time_zero, soi_ID = oitem_ID i,
            soi_OrderId = oitem_OrderID i, soi_ProductId = oitem_ProductID i,
            soi_Price = decimal_New v (num_Exp (oitem_Price i)),
            soi_Quantity = oitem_Quantity i\<rparr>)"

definition OrderService_FindOrderById ::
    "go_error option \<Rightarrow> go_error option \<Rightarrow> database \<Rightarrow> find_order_by_id \<Rightarrow>
      (go_error + res_order) outcome" where
  "OrderService_FindOrderById fault1 fault2 db param =
     (case (case fault1 of Some e \<Rightarrow> Inl e
            | None \<Rightarrow> FindOrderById db \<lparr>fop_ID = fobi_UserId param, fop_ID_2 = fobi_OrderId param\<rparr>) of
        Inl e \<Rightarrow> Ret (Inl (ErrWrap ''failed finding order by id with error='' e))
      | Inr order \<Rightarrow>
          (case FindOrderByIdRow_ResponseOrder order of
             Inl e \<Rightarrow> Ret (Inl (ErrWrap ''failed mapping order with error='' e))
           | Inr res \<Rightarrow>
               (case fault2 of
                  Some e \<Rightarrow> Ret (Inl (ErrWrap (''failed finding order by id='' @
                             uuid_String (fobi_OrderId param) @ '' with error='') e))
                | None \<Rightarrow>
                    and_then
                      (go_for (\<lambda>items i. and_then (res_item_of_queried i)
                           (\<lambda>item. Ret (items @ [item])))
                         [] (FindOrderItemById db (fobi_OrderId param)))
                      (\<lambda>items. Ret (Inr (res\<lparr>so_OrderItems := items\<rparr>))))))"

text \<open>\<open>FindOrders\<close> filters by user only; the order identifier of the request appears in the error.\<close>

definition OrderService_FindOrders ::
    "go_error option \<Rightarrow> database \<Rightarrow> find_orders \<Rightarrow> go_error + order_row list" where
  "OrderService_FindOrders fault db param =
     (case fault of
        Some e \<Rightarrow> Inl (ErrWrap (''failed finding order by id='' @ uuid_String (fo_OrderId param) @
                   '' userId='' @ uuid_String (fo_UserId param) @ '' with error='') e)
      | None \<Rightarrow> Inr (FindOrderUserId db (fo_UserId param)))"

section \<open>Result channels\<close>

text \<open>A channel made with capacity 1; the send and the deferred \<open>close\<close> of one goroutine.\<close>

record chan =
  ch_buf :: "order_result list"
  ch_closed :: bool

type_synonym chans = "nat \<Rightarrow> chan"

definition chan_made :: chan where
  "chan_made = \<lparr>ch_buf = [], ch_closed = False\<rparr>"

definition send_and_close :: "chan_ref \<Rightarrow> order_result \<Rightarrow> chans \<Rightarrow> chans outcome" where
  "send_and_close ref v cs =
     (case ref of
        None \<Rightarrow> Blocked
      | Some n \<Rightarrow>
          if ch_closed (cs n) then Panic ''send on closed channel''
          else if 1 \<le> length (ch_buf (cs n)) then Blocked
          else Ret (cs(n := \<lparr>ch_buf = ch_buf (cs n) @ [v], ch_closed = True\<rparr>)))"

text \<open>
  One goroutine for each element, then \<open>wg.Wait()\<close>: a panic in any of them ends the process,
  a blocked one keeps the wait from returning.
\<close>

primrec go_all :: "('s \<Rightarrow> 'a \<Rightarrow> 's outcome) \<Rightarrow> 's \<Rightarrow> 'a list \<Rightarrow> 's outcome" where
  "go_all f s [] = Ret s"
| "go_all f s (x # xs) =
     (case f s x of
        Ret s' \<Rightarrow> go_all f s' xs
      | Panic m \<Rightarrow> Panic m
      | Blocked \<Rightarrow> (case go_all f s xs of Panic m \<Rightarrow> Panic m | _ \<Rightarrow> Blocked))"

definition returnOrderError :: "create_order list \<Rightarrow> go_error \<Rightarrow> chans \<Rightarrow> chans outcome" where
  "returnOrderError params err cs =
     go_all (\<lambda>cs param. send_and_close (co_ResultChannel param)
               \<lparr>res_Order = res_order_zero, res_Err = Some err\<rparr> cs) cs params"

definition order_result_of :: "(string \<rightharpoonup> res_order) \<Rightarrow> create_order \<Rightarrow> order_result" where
  "order_result_of m param =
     (case m (uuid_String (co_ID param)) of
        None \<Rightarrow> \<lparr>res_Order = res_order_zero, res_Err = Some ErrOutOfStock\<rparr>
      | Some order \<Rightarrow> \<lparr>res_Order = order, res_Err = None\<rparr>)"

definition returnOrderResult ::
    "create_order list \<Rightarrow> (string \<rightharpoonup> res_order) \<Rightarrow> chans \<Rightarrow> chans outcome" where
  "returnOrderResult params m cs =
     go_all (\<lambda>cs param. send_and_close (co_ResultChannel param) (order_result_of m param) cs) cs params"

section \<open>The environment of a batch\<close>

record batch_env =
  env_begin :: "go_error option"
  env_find :: "go_error option"
  env_update :: "go_error option"
  env_insertOrders :: "go_error option"
  env_insertItems :: "go_error option"
  env_getOrders :: "go_error option"
  env_commit :: "go_error option"
  env_now :: time
  env_created :: "uuid \<Rightarrow> time"
  env_updated :: "uuid \<Rightarrow> time"
  env_queryKeys :: "string list"
  env_orderKeys :: "string list"
  env_itemKeys :: "string list"

text \<open>The iteration orders visit every key of the maps of this batch once.\<close>

definition env_enumerates :: "batch_env \<Rightarrow> create_order list \<Rightarrow> bool" where
  "env_enumerates env params \<longleftrightarrow>
     enumerates (env_queryKeys env) (ms_mapMergedOrderItem (mergeOrderItems params)) \<and>
     enumerates (env_itemKeys env) (ms_mapMergedOrderItem (mergeOrderItems params)) \<and>
     enumerates (env_orderKeys env) (ms_mapOrder (mergeOrderItems params))"

text \<open>\<open>if err != nil { err = fmt.Errorf("... with error=%w", err); ... }\<close> around a call.\<close>

definition step_err :: "string \<Rightarrow> go_error option \<Rightarrow> go_error + 'a \<Rightarrow> go_error + 'a" where
  "step_err msg fault r =
     (case fault of
        Some e \<Rightarrow> Inl (ErrWrap msg e)
      | None \<Rightarrow> (case r of Inl e \<Rightarrow> Inl (ErrWrap msg e) | Inr a \<Rightarrow> Inr a))"

lemma step_err_Inr [simp]: "step_err msg fault r = Inr a \<longleftrightarrow> fault = None \<and> r = Inr a"
  by (simp add: step_err_def split: option.split sum.split)

section \<open>Preparing the rows\<close>

definition prepareOrderArgs :: "batch_env \<Rightarrow> order_map \<Rightarrow> insert_order_params list" where
  "prepareOrderArgs env mapOrder =
     map (\<lambda>(k, order). \<lparr>iop_ID = co_ID order, iop_UserID = co_UserId order,
            iop_CreatedAt = timestamptz_of_time (env_created env (co_ID order)),
            iop_UpdatedAt = timestamptz_of_time (env_updated env (co_ID order))\<rparr>)
       (filter (\<lambda>(k, order). co_OrderItems order \<noteq> []) (go_range (env_orderKeys env) mapOrder))"

definition order_item_args :: "batch_env \<Rightarrow> req_order_item \<Rightarrow> insert_order_item_params" where
  "order_item_args env orderItem =
     \<lparr>ioi_ID = roi_ID orderItem, ioi_OrderID = roi_OrderID orderItem,
      ioi_ProductID = roi_ProductID orderItem, ioi_Quantity = roi_Quantity orderItem,
      ioi_Price = numeric_of_decimal (roi_Price orderItem),
      ioi_CreatedAt = timestamptz_of_time (env_created env (roi_ID orderItem)),
      ioi_UpdatedAt = timestamptz_of_time (env_updated env (roi_ID orderItem))\<rparr>"

definition prepareOrderItemArgs :: "batch_env \<Rightarrow> merged_map \<Rightarrow> insert_order_item_params list" where
  "prepareOrderItemArgs env mapMergedOrderItem =
     concat (map (\<lambda>(k, item). map (order_item_args env) (moi_Items item))
               (go_range (env_itemKeys env) mapMergedOrderItem))"

text \<open>The response map: rows whose request kept items and whose JSON decodes.\<close>

definition respond :: "order_map \<Rightarrow> (string \<rightharpoonup> res_order) \<Rightarrow> get_orders_row \<Rightarrow>
    (string \<rightharpoonup> res_order)" where
  "respond mapOrder m order =
     (case mapOrder (uuid_String (gor_ID order)) of
        None \<Rightarrow> m
      | Some orderReq \<Rightarrow>
          if co_OrderItems orderReq = [] then m
          else (case GetOrdersRow_Response order of
                  Inl e \<Rightarrow> m
                | Inr orderRes \<Rightarrow> m(uuid_String (gor_ID order) \<mapsto> orderRes)))"

definition orderToResponse ::
    "get_orders_row list \<Rightarrow> order_map \<Rightarrow> (string \<rightharpoonup> res_order)" where
  "orderToResponse orders mapOrder = foldl (respond mapOrder) Map.empty orders"

section \<open>The transaction\<close>

text \<open>What the first half of the transaction decides, from the products it read.\<close>

record batch_decision =
  bd_mapMergedOrderItem :: merged_map
  bd_mapOrder :: order_map
  bd_productIds :: "uuid list"
  bd_orderIds :: "uuid list"

text \<open>From the merge to \<open>checkDecreaseQuantity\<close>: nothing is written yet.\<close>

definition batch_decide :: "batch_env \<Rightarrow> database \<Rightarrow> create_order list \<Rightarrow>
    (go_error + batch_decision) outcome" where
  "batch_decide env db params =
     (let ms = mergeOrderItems params in
      case step_err ''failed initializing transaction with error='' (env_begin env) (Inr ()) of
        Inl e \<Rightarrow> Ret (Inl e)
      | Inr u \<Rightarrow>
      case step_err ''failed get products with error='' (env_find env)
             (Inr (FindProductsByIds db (ms_productIds ms))) of
        Inl e \<Rightarrow> Ret (Inl e)
      | Inr products \<Rightarrow>
          and_then (checkDecreaseQuantity products (ms_mapMergedOrderItem ms) (ms_mapOrder ms))
            (\<lambda>(mapMergedOrderItem, mapOrder).
               Ret (Inr \<lparr>bd_mapMergedOrderItem = mapMergedOrderItem, bd_mapOrder = mapOrder,
                         bd_productIds = ms_productIds ms, bd_orderIds = ms_orderIds ms\<rparr>)))"

text \<open>From the update of the stock to the commit.\<close>

definition batch_write :: "batch_env \<Rightarrow> batch_decision \<Rightarrow> database \<Rightarrow>
    go_error + (database \<times> (string \<rightharpoonup> res_order))" where
  "batch_write env bd db =
     if_ok (step_err ''failed updating product quantity with error='' (env_update env)
              (exec_update (env_now env) db
                 (buildQuery (env_queryKeys env) (bd_mapMergedOrderItem bd)) (bd_productIds bd)))
       (\<lambda>db1.
     if_ok (step_err ''failed inserting order with error='' (env_insertOrders env)
              (InsertOrders db1 (prepareOrderArgs env (bd_mapOrder bd))))
       (\<lambda>(db2, n).
     if_ok (step_err ''failed inserting order items with error='' (env_insertItems env)
              (InsertOrderItem db2 (prepareOrderItemArgs env (bd_mapMergedOrderItem bd))))
       (\<lambda>(db3, n).
     if_ok (step_err ''failed getting orders with error='' (env_getOrders env)
              (Inr (GetOrders db3 (bd_orderIds bd))))
       (\<lambda>orders.
     if_ok (step_err ''failed committing transaction with error='' (env_commit env) (Inr ()))
       (\<lambda>u. Inr (db3, orderToResponse orders (bd_mapOrder bd)))))))"

text \<open>
  The whole call. The database is the committed state, also when the call panics or blocks: a
  failure before the commit rolls the transaction back.
\<close>

definition BatchCreateOrder :: "batch_env \<Rightarrow> database \<Rightarrow> chans \<Rightarrow> create_order list \<Rightarrow>
    database \<times> (chans \<times> (go_error + (string \<rightharpoonup> res_order))) outcome" where
  "BatchCreateOrder env db cs params =
     (if params = [] then (db, Ret (cs, Inl (ErrNew ''no order received'')))
      else case batch_decide env db params of
        Panic m \<Rightarrow> (db, Panic m)
      | Blocked \<Rightarrow> (db, Blocked)
      | Ret (Inl err) \<Rightarrow> (db, and_then (returnOrderError params err cs) (\<lambda>cs'. Ret (cs', Inl err)))
      | Ret (Inr bd) \<Rightarrow>
          (case batch_write env bd db of
             Inl err \<Rightarrow> (db, and_then (returnOrderError params err cs) (\<lambda>cs'. Ret (cs', Inl err)))
           | Inr (db', res) \<Rightarrow>
               (db', and_then (returnOrderResult params res cs) (\<lambda>cs'. Ret (cs', Inr res)))))"

section \<open>A successful transaction\<close>

lemma batch_decide_Inr:
  assumes "batch_decide env db params = Ret (Inr bd)"
  shows "bd_productIds bd = ms_productIds (mergeOrderItems params) \<and>
    bd_orderIds bd = map co_ID params \<and>
    checkDecreaseQuantity (FindProductsByIds db (ms_productIds (mergeOrderItems params)))
      (ms_mapMergedOrderItem (mergeOrderItems params)) (ms_mapOrder (mergeOrderItems params)) =
      Ret (bd_mapMergedOrderItem bd, bd_mapOrder bd)"
  using assms
  by (auto simp: batch_decide_def Let_def mergeOrderItems_orderIds split: sum.splits)

lemma batch_write_Inr:
  assumes "batch_write env bd db = Inr (db', res)"
  shows "\<exists>db1 db2 n2 n3.
    exec_update (env_now env) db (buildQuery (env_queryKeys env) (bd_mapMergedOrderItem bd))
      (bd_productIds bd) = Inr db1 \<and>
    InsertOrders db1 (prepareOrderArgs env (bd_mapOrder bd)) = Inr (db2, n2) \<and>
    InsertOrderItem db2 (prepareOrderItemArgs env (bd_mapMergedOrderItem bd)) = Inr (db', n3) \<and>
    res = orderToResponse (GetOrders db' (bd_orderIds bd)) (bd_mapOrder bd)"
  using assms unfolding batch_write_def by auto

lemma exec_update_tables:
  "exec_update now db q ids = Inr db1 \<Longrightarrow> \<exists>rows. db1 = db\<lparr>db_products := rows\<rparr>"
  by (auto simp: exec_update_def split: option.splits)

lemma InsertOrders_tables:
  "InsertOrders db args = Inr (db', n) \<Longrightarrow>
     db' = db\<lparr>db_orders := db_orders db @ map order_of_params args\<rparr>"
  by (auto simp: InsertOrders_def Let_def split: if_splits)

lemma InsertOrderItem_tables:
  "InsertOrderItem db args = Inr (db', n) \<Longrightarrow>
     db' = db\<lparr>db_order_items := db_order_items db @ map order_item_of_params args\<rparr>"
  by (auto simp: InsertOrderItem_def Let_def split: if_splits)

lemma batch_write_orders:
  assumes "batch_write env bd db = Inr (db', res)"
  shows "db_orders db' = db_orders db @ map order_of_params (prepareOrderArgs env (bd_mapOrder bd))"
    and "db_order_items db' = db_order_items db @
      map order_item_of_params (prepareOrderItemArgs env (bd_mapMergedOrderItem bd))"
    and "db_users db' = db_users db" and "db_carts db' = db_carts db"
    and "db_cart_items db' = db_cart_items db"
  using batch_write_Inr [OF assms]
  by (auto dest!: exec_update_tables InsertOrders_tables InsertOrderItem_tables)

lemma batch_write_products:
  assumes "batch_write env bd db = Inr (db', res)"
    and "enumerates (env_queryKeys env) (bd_mapMergedOrderItem bd)"
    and "dom (bd_mapMergedOrderItem bd) \<subseteq> range uuid_String"
  shows "list_all2 (\<lambda>r r'. update_row_spec (env_now env) (bd_productIds bd)
      (bd_mapMergedOrderItem bd) r = Inr r') (db_products db) (db_products db')"
proof -
  from batch_write_Inr [OF assms(1)] obtain db1 db2 n2 n3 where
    e: "exec_update (env_now env) db (buildQuery (env_queryKeys env) (bd_mapMergedOrderItem bd))
      (bd_productIds bd) = Inr db1" and
    i: "InsertOrders db1 (prepareOrderArgs env (bd_mapOrder bd)) = Inr (db2, n2)"
    "InsertOrderItem db2 (prepareOrderItemArgs env (bd_mapMergedOrderItem bd)) = Inr (db', n3)"
    by blast
  from i have "db_products db' = db_products db1"
    by (auto dest!: InsertOrders_tables InsertOrderItem_tables)
  with e exec_buildQuery [OF assms(2,3), of "env_now env" db "bd_productIds bd"] show ?thesis
    by (auto simp: traverse_Inr_iff split: if_splits)
qed

end
