(* ===== verification/OrderStock.thy ===== *)
theory OrderStock
  imports OrderService
begin

text \<open>
  What a committed batch does to the stock: no product is oversold, stock and ordered
  quantities balance, and a batch that fails leaves the database as it was.
\<close>

section \<open>The decision as a function of the batch and the stock\<close>

definition kept :: "database \<Rightarrow> create_order list \<Rightarrow> uuid \<Rightarrow> req_order_item list" where
  "kept db params p =
     (case find (\<lambda>r. product_ID r = p) (db_products db) of
        None \<Rightarrow> items_of_product p (batch_items params)
      | Some r \<Rightarrow> retained (product_Quantity r) (items_of_product p (batch_items params)))"

lemma find_distinct:
  "distinct (map key xs) \<Longrightarrow> x \<in> set xs \<Longrightarrow> key x = k \<Longrightarrow> find (\<lambda>y. key y = k) xs = Some x"
  by (induction xs) auto

lemma find_filter: "find P (filter Q xs) = find (\<lambda>x. Q x \<and> P x) xs"
  by (induction xs) auto

lemma find_cong_on: "(\<And>x. x \<in> set xs \<Longrightarrow> P x = Q x) \<Longrightarrow> find P xs = find Q xs"
  by (induction xs) auto

lemma find_read_product:
  assumes "p \<in> set ids"
  shows "find (\<lambda>r. uuid_String (product_ID r) = uuid_String p) (FindProductsByIds db ids) =
    find (\<lambda>r. product_ID r = p) (db_products db)"
  unfolding FindProductsByIds_def find_filter using assms by (intro find_cong_on) auto

lemma merge_map_at:
  "ms_mapMergedOrderItem (mergeOrderItems params) (uuid_String p) =
     (if p \<in> roi_ProductID ` set (batch_items params)
      then Some (merged_of (items_of_product p (batch_items params))) else None)"
  using mergeOrderItems_merged [of params] by (simp add: merged_upto_def items_of_product_Nil_iff)

lemma merge_productIds:
  "distinct (ms_productIds (mergeOrderItems params))"
  "set (ms_productIds (mergeOrderItems params)) = roi_ProductID ` set (batch_items params)"
  using mergeOrderItems_merged [of params] by (simp_all add: merged_upto_def)

lemma decision_map:
  assumes "batch_decide env db params = Ret (Inr bd)" and "db_ok db"
  shows "bd_mapMergedOrderItem bd (uuid_String p) =
    (if p \<in> roi_ProductID ` set (batch_items params) then Some (merged_of (kept db params p)) else None)"
proof -
  note dec = batch_decide_Inr [OF assms(1)]
  have "distinct (map product_ID (FindProductsByIds db (ms_productIds (mergeOrderItems params))))"
    using assms(2) by (simp add: FindProductsByIds_def distinct_map_filter db_ok_def)
  then have m: "bd_mapMergedOrderItem bd (uuid_String p) = map_option
      (decided (FindProductsByIds db (ms_productIds (mergeOrderItems params))) (uuid_String p))
      (ms_mapMergedOrderItem (mergeOrderItems params) (uuid_String p))"
    using dec by (blast intro: checkDecreaseQuantity_merged [OF _ all_consistent_merge])
  show ?thesis
  proof (cases "p \<in> roi_ProductID ` set (batch_items params)")
    case True
    then have "p \<in> set (ms_productIds (mergeOrderItems params))" by (simp add: merge_productIds)
    from find_read_product [OF this] show ?thesis
      using m True by (simp add: merge_map_at decided_def kept_def split: option.split)
  next
    case False
    with m show ?thesis by (simp add: merge_map_at)
  qed
qed

lemma decision_dom:
  assumes "batch_decide env db params = Ret (Inr bd)" and "db_ok db"
  shows "dom (bd_mapMergedOrderItem bd) = dom (ms_mapMergedOrderItem (mergeOrderItems params))"
proof -
  note dec = batch_decide_Inr [OF assms(1)]
  have "distinct (map product_ID (FindProductsByIds db (ms_productIds (mergeOrderItems params))))"
    using assms(2) by (simp add: FindProductsByIds_def distinct_map_filter db_ok_def)
  then have "bd_mapMergedOrderItem bd k = map_option
      (decided (FindProductsByIds db (ms_productIds (mergeOrderItems params))) k)
      (ms_mapMergedOrderItem (mergeOrderItems params) k)" for k
    using dec by (blast intro: checkDecreaseQuantity_merged [OF _ all_consistent_merge])
  then show ?thesis by (simp add: dom_def)
qed

lemma decision_env:
  assumes "batch_decide env db params = Ret (Inr bd)" and "db_ok db" and "env_enumerates env params"
  shows "enumerates (env_queryKeys env) (bd_mapMergedOrderItem bd)"
    and "enumerates (env_itemKeys env) (bd_mapMergedOrderItem bd)"
    and "enumerates (env_orderKeys env) (bd_mapOrder bd)"
    and "dom (bd_mapMergedOrderItem bd) \<subseteq> range uuid_String"
proof -
  note dec = batch_decide_Inr [OF assms(1)]
  note dm = decision_dom [OF assms(1,2)]
  show "enumerates (env_queryKeys env) (bd_mapMergedOrderItem bd)"
    "enumerates (env_itemKeys env) (bd_mapMergedOrderItem bd)"
    using assms(3) dm by (auto simp: env_enumerates_def intro: enumerates_dom)
  have "dom (bd_mapOrder bd) = dom (ms_mapOrder (mergeOrderItems params))"
    using dec by (intro same_orders_dom checkDecreaseQuantity_same_orders) auto
  with assms(3) show "enumerates (env_orderKeys env) (bd_mapOrder bd)"
    by (auto simp: env_enumerates_def intro: enumerates_dom)
  show "dom (bd_mapMergedOrderItem bd) \<subseteq> range uuid_String"
    using mergeOrderItems_merged [of params] dm by (simp add: merged_upto_def)
qed

lemma kept_subset: "it \<in> set (kept db params p) \<Longrightarrow> it \<in> set (batch_items params) \<and> roi_ProductID it = p"
  using retained_set [of _ "items_of_product p (batch_items params)"]
  by (auto simp: kept_def items_of_product_def split: option.splits)

section \<open>The stock after a batch\<close>

text \<open>The row of a product before and after.\<close>

definition stock_row_after :: "database \<Rightarrow> create_order list \<Rightarrow> time \<Rightarrow> product_row \<Rightarrow> product_row" where
  "stock_row_after db params now r =
     (if product_ID r \<in> roi_ProductID ` set (batch_items params)
      then r\<lparr>product_Quantity := product_Quantity r - total_quantity (kept db params (product_ID r)),
             product_UpdatedAt := timestamptz_of_time now\<rparr>
      else r)"

lemma update_row_decided:
  assumes "batch_decide env db params = Ret (Inr bd)" and "db_ok db"
  shows "update_row_spec now (bd_productIds bd) (bd_mapMergedOrderItem bd) r =
    (if product_ID r \<in> roi_ProductID ` set (batch_items params)
     then (let q = sint (product_Quantity r) - sint (total_quantity (kept db params (product_ID r)))
           in if int4_range q then Inr (stock_row_after db params now r) else Inl integer_out_of_range)
     else Inr r)"
  using batch_decide_Inr [OF assms(1)] decision_map [OF assms]
  by (simp add: update_row_spec_def stock_row_after_def merge_productIds Let_def)

lemma stock_after:
  assumes "batch_decide env db params = Ret (Inr bd)" and "batch_write env bd db = Inr (db', res)"
    and "db_ok db" and "env_enumerates env params"
  shows "db_products db' = map (stock_row_after db params (env_now env)) (db_products db)"
    and "r \<in> set (db_products db) \<Longrightarrow> product_ID r \<in> roi_ProductID ` set (batch_items params) \<Longrightarrow>
      int4_range (sint (product_Quantity r) - sint (total_quantity (kept db params (product_ID r))))"
proof -
  note e = decision_env [OF assms(1,3,4)]
  note l = batch_write_products [OF assms(2) e(1,4)]
  have "list_all2 (\<lambda>r r'. r' = stock_row_after db params (env_now env) r) (db_products db) (db_products db')"
    using l by (rule list_all2_mono)
      (auto simp: update_row_decided [OF assms(1,3)] stock_row_after_def Let_def split: if_splits)
  then show "db_products db' = map (stock_row_after db params (env_now env)) (db_products db)"
    by (simp add: list_all2_conv_all_nth list_eq_iff_nth_eq)
  assume "r \<in> set (db_products db)" and p: "product_ID r \<in> roi_ProductID ` set (batch_items params)"
  then obtain i where "i < length (db_products db)" "r = db_products db ! i"
    by (auto simp: in_set_conv_nth)
  with list_all2_nthD [OF l] have "update_row_spec (env_now env) (bd_productIds bd)
      (bd_mapMergedOrderItem bd) r = Inr (db_products db' ! i)" by simp
  with p show "int4_range (sint (product_Quantity r) -
      sint (total_quantity (kept db params (product_ID r))))"
    by (simp add: update_row_decided [OF assms(1,3)] Let_def split: if_splits)
qed

definition stock_nonneg :: "database \<Rightarrow> bool" where
  "stock_nonneg db \<longleftrightarrow> (\<forall>r \<in> set (db_products db). 0 \<le> sint (product_Quantity r))"

lemma sint_diff_range:
  assumes "int4_range (sint a - sint b)"
  shows "sint (a - b :: int32) = sint a - sint b"
proof -
  have "a - b = word_of_int (sint a - sint b)" by (simp only: of_int_diff of_int_sint scast_id)
  then have "sint (a - b) = sint (word_of_int (sint a - sint b) :: int32)" by (rule arg_cong)
  also have "\<dots> = sint a - sint b" by (rule sint_word_of_int_int4 [OF assms])
  finally show ?thesis .
qed

lemma kept_at_row:
  assumes "db_ok db" and "r \<in> set (db_products db)"
  shows "kept db params (product_ID r) =
    retained (product_Quantity r) (items_of_product (product_ID r) (batch_items params))"
proof -
  have "find (\<lambda>s. product_ID s = product_ID r) (db_products db) = Some r"
    using assms by (intro find_distinct) (auto simp: db_ok_def)
  then show ?thesis by (simp add: kept_def)
qed

lemma stock_row_after_nonneg:
  assumes "db_ok db" and "r \<in> set (db_products db)" and "0 \<le> sint (product_Quantity r)"
  shows "0 \<le> sint (product_Quantity (stock_row_after db params now r))"
proof (cases "product_ID r \<in> roi_ProductID ` set (batch_items params)")
  case False
  with assms(3) show ?thesis by (simp add: stock_row_after_def)
next
  case True
  note k = kept_at_row [OF assms(1,2), of params]
  show ?thesis
  proof (cases "kept db params (product_ID r) = []")
    case True
    with assms(3) show ?thesis by (simp add: stock_row_after_def)
  next
    case False
    with k have "fits (product_Quantity r) (kept db params (product_ID r))"
      by (metis retained_fits)
    with True show ?thesis by (simp add: stock_row_after_def fits_def)
  qed
qed

lemma stock_nonneg_write:
  assumes "batch_decide env db params = Ret (Inr bd)" and "batch_write env bd db = Inr (db', res)"
    and "db_ok db" and "env_enumerates env params" and "stock_nonneg db"
  shows "stock_nonneg db'"
  using stock_after(1) [OF assms(1-4)] assms(3,5)
  by (auto simp: stock_nonneg_def intro: stock_row_after_nonneg)

section \<open>Outcomes of the whole call\<close>

lemma BatchCreateOrder_db:
  assumes "BatchCreateOrder env db cs params = (db', out)"
  obtains (unchanged) "db' = db"
  | (committed) bd res where "params \<noteq> []" "batch_decide env db params = Ret (Inr bd)"
      "batch_write env bd db = Inr (db', res)"
      "out = and_then (returnOrderResult params res cs) (\<lambda>cs'. Ret (cs', Inr res))"
  using assms
  by (auto simp: BatchCreateOrder_def split: if_splits outcome.splits sum.splits)

lemma exec_update_ok:
  assumes "exec_update now db q ids = Inr db1" and "db_ok db"
  shows "db_ok db1"
proof -
  from assms(1) obtain rows ubs where db1: "db1 = db\<lparr>db_products := rows\<rparr>"
    and rows: "traverse (update_row now ids ubs) (db_products db) = Inr rows"
    by (auto simp: exec_update_def split: option.splits)
  have "list_all2 (\<lambda>r r'. product_ID r' = product_ID r \<and> product_Name r' = product_Name r)
      (db_products db) rows"
    using rows unfolding traverse_Inr_iff
    by (rule list_all2_mono) (auto simp: update_row_def Let_def split: if_splits option.splits)
  then have "map product_ID rows = map product_ID (db_products db)"
    "map product_Name rows = map product_Name (db_products db)"
    by (simp_all add: list_all2_conv_all_nth list_eq_iff_nth_eq)
  with assms(2) show ?thesis unfolding db1
    by (intro db_ok_update_products) (auto simp: db_ok_def)
qed

lemma batch_write_ok:
  assumes "batch_write env bd db = Inr (db', res)" and "db_ok db"
  shows "db_ok db'"
  using batch_write_Inr [OF assms(1)] assms(2)
  by (blast intro: exec_update_ok InsertOrders_ok InsertOrderItem_ok)

lemma BatchCreateOrder_ok:
  assumes "BatchCreateOrder env db cs params = (db', out)" and "db_ok db"
  shows "db_ok db'"
  using assms(1)
  by (rule BatchCreateOrder_db) (use assms(2) batch_write_ok in auto)

lemma BatchCreateOrder_nonneg:
  assumes "BatchCreateOrder env db cs params = (db', out)"
    and "db_ok db" and "env_enumerates env params" and "stock_nonneg db"
  shows "stock_nonneg db'"
  using assms(1)
  by (rule BatchCreateOrder_db) (use assms(2-4) stock_nonneg_write in auto)

end
