(* ===== verification/OrderOutcome.thy ===== *)
theory OrderOutcome
  imports OrderStock
begin

text \<open>
  What a committed batch stores and answers: the item rows it inserts, product by product; the
  orders it creates; the response map; and the message on each result channel.
\<close>

section \<open>The inserted items\<close>

definition item_row_of :: "batch_env \<Rightarrow> req_order_item \<Rightarrow> order_item_row" where
  "item_row_of env it = order_item_of_params (order_item_args env it)"

lemma item_row_of_sel [simp]:
  "oitem_ID (item_row_of env it) = roi_ID it"
  "oitem_OrderID (item_row_of env it) = roi_OrderID it"
  "oitem_ProductID (item_row_of env it) = roi_ProductID it"
  "oitem_Quantity (item_row_of env it) = roi_Quantity it"
  by (simp_all add: item_row_of_def order_item_of_params_def order_item_args_def)

lemma proper_item_row_of [simp]: "proper_order_item (item_row_of env it)"
  by (simp add: item_row_of_def order_item_of_params_def order_item_args_def proper_order_item_def)

definition inserted_items :: "batch_env \<Rightarrow> batch_decision \<Rightarrow> order_item_row list" where
  "inserted_items env bd =
     map order_item_of_params (prepareOrderItemArgs env (bd_mapMergedOrderItem bd))"

lemma inserted_items_concat:
  "inserted_items env bd = concat (map (\<lambda>(k, m). map (item_row_of env) (moi_Items m))
     (go_range (env_itemKeys env) (bd_mapMergedOrderItem bd)))"
  by (simp add: inserted_items_def prepareOrderItemArgs_def map_concat item_row_of_def [abs_def]
      o_def case_prod_unfold)

lemma concat_go_range_single:
  assumes "distinct ks" and "\<And>k m. k \<noteq> k0 \<Longrightarrow> mm k = Some m \<Longrightarrow> f k m = []"
  shows "concat (map (\<lambda>(k, m). f k m) (go_range ks mm)) =
    (if k0 \<in> set ks then case mm k0 of None \<Rightarrow> [] | Some m \<Rightarrow> f k0 m else [])"
  using assms(1)
proof (induction ks)
  case Nil
  then show ?case by simp
next
  case (Cons a ks)
  then show ?case
    using assms(2) [of a] by (cases "a = k0"; cases "mm a") auto
qed

lemma decision_merged_at:
  assumes "batch_decide env db params = Ret (Inr bd)" and "db_ok db"
  shows "(case bd_mapMergedOrderItem bd (uuid_String p) of None \<Rightarrow> [] | Some m \<Rightarrow> moi_Items m) =
    kept db params p"
proof (cases "p \<in> roi_ProductID ` set (batch_items params)")
  case True
  then show ?thesis by (simp add: decision_map [OF assms])
next
  case False
  then have "items_of_product p (batch_items params) = []" by (simp add: items_of_product_Nil_iff)
  with False show ?thesis by (simp add: decision_map [OF assms] kept_def split: option.split)
qed

lemma filter_none: "\<forall>x \<in> set xs. \<not> P x \<Longrightarrow> filter P xs = []"
  by (simp add: filter_empty_conv)

lemma inserted_of_product:
  assumes "batch_decide env db params = Ret (Inr bd)" and "db_ok db" and "env_enumerates env params"
  shows "filter (\<lambda>i. oitem_ProductID i = p) (inserted_items env bd) =
    map (item_row_of env) (kept db params p)"
proof -
  note e = decision_env [OF assms]
  have prod: "\<forall>i \<in> set (moi_Items m). roi_ProductID i = q"
    if "bd_mapMergedOrderItem bd (uuid_String q) = Some m" for q m
    using that decision_merged_at [OF assms(1,2), of q] kept_subset by fastforce
  have "filter (\<lambda>i. oitem_ProductID i = p) (inserted_items env bd) =
      concat (map (\<lambda>(k, m). filter (\<lambda>i. oitem_ProductID i = p) (map (item_row_of env) (moi_Items m)))
        (go_range (env_itemKeys env) (bd_mapMergedOrderItem bd)))"
    by (simp add: inserted_items_concat filter_concat_map case_prod_unfold)
  also have "\<dots> = (if uuid_String p \<in> set (env_itemKeys env)
      then case bd_mapMergedOrderItem bd (uuid_String p) of None \<Rightarrow> []
        | Some m \<Rightarrow> filter (\<lambda>i. oitem_ProductID i = p) (map (item_row_of env) (moi_Items m)) else [])"
  proof (rule concat_go_range_single)
    show "distinct (env_itemKeys env)" using e(2) by (simp add: enumerates_def)
    fix k m
    assume k: "k \<noteq> uuid_String p" and m: "bd_mapMergedOrderItem bd k = Some m"
    with e(4) obtain q where "k = uuid_String q" by blast
    with k m prod [of q m] show
      "filter (\<lambda>i. oitem_ProductID i = p) (map (item_row_of env) (moi_Items m)) = []"
      by (intro filter_none) auto
  qed
  also have "\<dots> = (case bd_mapMergedOrderItem bd (uuid_String p) of None \<Rightarrow> []
      | Some m \<Rightarrow> map (item_row_of env) (moi_Items m))"
    using e(2) prod [of p] by (auto simp: enumerates_def filter_id_conv split: option.split)
  also have "\<dots> = map (item_row_of env) (kept db params p)"
    using decision_merged_at [OF assms(1,2), of p] by (auto split: option.splits)
  finally show ?thesis .
qed

lemma set_inserted_items:
  assumes "batch_decide env db params = Ret (Inr bd)" and "db_ok db" and "env_enumerates env params"
  shows "set (inserted_items env bd) = {item_row_of env it | it p. it \<in> set (kept db params p)}"
proof -
  have "i \<in> set (inserted_items env bd) \<longleftrightarrow>
      (\<exists>p. i \<in> set (filter (\<lambda>i. oitem_ProductID i = p) (inserted_items env bd)))" for i by simp
  then have "i \<in> set (inserted_items env bd) \<longleftrightarrow>
      (\<exists>p. i \<in> item_row_of env ` set (kept db params p))" for i
    by (simp only: inserted_of_product [OF assms] set_map)
  then show ?thesis by blast
qed

lemma inserted_items_fk:
  assumes "batch_write env bd db = Inr (db', res)" and "i \<in> set (inserted_items env bd)"
  shows "oitem_ProductID i \<in> product_ID ` set (db_products db')"
    and "oitem_OrderID i \<in> order_ID ` set (db_orders db')"
  using batch_write_Inr [OF assms(1)] assms(2)
  by (auto simp: InsertOrderItem_def Let_def inserted_items_def split: if_splits)

section \<open>Stock and ordered quantities balance\<close>

definition stock_of :: "database \<Rightarrow> uuid \<Rightarrow> int32" where
  "stock_of db p =
     (case find (\<lambda>r. product_ID r = p) (db_products db) of None \<Rightarrow> 0 | Some r \<Rightarrow> product_Quantity r)"

definition ordered_of :: "database \<Rightarrow> uuid \<Rightarrow> int32" where
  "ordered_of db p =
     sum_list (map oitem_Quantity (filter (\<lambda>i. oitem_ProductID i = p) (db_order_items db)))"

lemma find_map_same: "(\<And>x. key (f x) = key x) \<Longrightarrow>
    find (\<lambda>r. key r = p) (map f xs) = map_option f (find (\<lambda>r. key r = p) xs)"
  by (induction xs) auto

lemma ordered_of_write:
  assumes "batch_decide env db params = Ret (Inr bd)" and "batch_write env bd db = Inr (db', res)"
    and "db_ok db" and "env_enumerates env params"
  shows "ordered_of db' p = ordered_of db p + total_quantity (kept db params p)"
proof -
  have "db_order_items db' = db_order_items db @ inserted_items env bd"
    using batch_write_orders(2) [OF assms(2)] by (simp add: inserted_items_def)
  then show ?thesis
    using inserted_of_product [OF assms(1,3,4), of p]
    by (simp add: ordered_of_def total_quantity_def o_def)
qed

lemma stock_row_after_ID [simp]: "product_ID (stock_row_after db params now r) = product_ID r"
  by (simp add: stock_row_after_def)

lemma kept_unknown_product:
  assumes "batch_decide env db params = Ret (Inr bd)" and "batch_write env bd db = Inr (db', res)"
    and "db_ok db" and "env_enumerates env params" and "p \<notin> product_ID ` set (db_products db)"
  shows "kept db params p = []"
proof (rule ccontr)
  assume "kept db params p \<noteq> []"
  then obtain it where it: "it \<in> set (kept db params p)" by (cases "kept db params p") auto
  then have "item_row_of env it \<in> set (inserted_items env bd)"
    by (auto simp: set_inserted_items [OF assms(1,3,4)])
  from inserted_items_fk(1) [OF assms(2) this] kept_subset [OF it]
  have "p \<in> product_ID ` set (db_products db')" by simp
  moreover have "product_ID ` set (db_products db') = product_ID ` set (db_products db)"
    using stock_after(1) [OF assms(1-4)] by (simp add: image_image)
  ultimately show False using assms(5) by simp
qed

lemma stock_of_write:
  assumes "batch_decide env db params = Ret (Inr bd)" and "batch_write env bd db = Inr (db', res)"
    and "db_ok db" and "env_enumerates env params"
  shows "stock_of db' p = stock_of db p - total_quantity (kept db params p)"
proof -
  have f: "find (\<lambda>r. product_ID r = p) (db_products db') =
      map_option (stock_row_after db params (env_now env)) (find (\<lambda>r. product_ID r = p) (db_products db))"
    unfolding stock_after(1) [OF assms] by (rule find_map_same) simp
  show ?thesis
  proof (cases "find (\<lambda>r. product_ID r = p) (db_products db)")
    case None
    then have "p \<notin> product_ID ` set (db_products db)" by (auto simp: find_None_iff)
    from kept_unknown_product [OF assms this] None f show ?thesis by (simp add: stock_of_def)
  next
    case (Some r)
    from find_Some_set [OF this] have r: "product_ID r = p" by simp
    show ?thesis
    proof (cases "p \<in> roi_ProductID ` set (batch_items params)")
      case True
      with Some r f show ?thesis by (simp add: stock_of_def stock_row_after_def)
    next
      case False
      then have "items_of_product p (batch_items params) = []"
        by (simp add: items_of_product_Nil_iff)
      with False Some r f show ?thesis by (simp add: stock_of_def stock_row_after_def kept_def)
    qed
  qed
qed

section \<open>The orders of a committed batch\<close>

definition confirmed :: "database \<Rightarrow> create_order list \<Rightarrow> uuid \<Rightarrow> bool" where
  "confirmed db params i \<longleftrightarrow>
     (\<exists>it \<in> set (batch_items params). roi_OrderID it = i \<and> it \<in> set (kept db params (roi_ProductID it)))"

lemma confirmed_iff: "confirmed db params i \<longleftrightarrow> (\<exists>p. \<exists>it \<in> set (kept db params p). roi_OrderID it = i)"
  unfolding confirmed_def using kept_subset by blast

lemma items_naming_zero: "items_naming i xs = 0 \<longleftrightarrow> (\<forall>x \<in> set xs. roi_OrderID x \<noteq> i)"
  by (simp add: items_naming_def filter_empty_conv)

lemma decision_order:
  assumes "batch_wf params" and "batch_decide env db params = Ret (Inr bd)" and "db_ok db"
    and "bd_mapOrder bd (uuid_String i) = Some o2"
  shows "co_OrderItems o2 \<noteq> [] \<longleftrightarrow> confirmed db params i"
proof -
  note dec = batch_decide_Inr [OF assms(2)]
  obtain mm' mo' where "checkDecreaseQuantity (FindProductsByIds db (ms_productIds (mergeOrderItems params)))
      (ms_mapMergedOrderItem (mergeOrderItems params)) (ms_mapOrder (mergeOrderItems params)) =
      Ret (mm', mo')" "balanced (roi_ProductID ` set (batch_items params)) mm' mo'"
    using check_never_panics [OF assms(1)] by blast
  with dec have "balanced (roi_ProductID ` set (batch_items params)) (bd_mapMergedOrderItem bd)
      (bd_mapOrder bd)" by simp
  with assms(4) have "length (co_OrderItems o2) =
      item_count (bd_mapMergedOrderItem bd) (roi_ProductID ` set (batch_items params)) i"
    by (simp add: balanced_def)
  also have "\<dots> = (\<Sum>p \<in> roi_ProductID ` set (batch_items params). items_naming i (kept db params p))"
    by (simp add: item_count_def merged_items_def decision_merged_at [OF assms(2,3)])
  finally have "co_OrderItems o2 = [] \<longleftrightarrow>
      (\<forall>p \<in> roi_ProductID ` set (batch_items params). items_naming i (kept db params p) = 0)"
    by (metis (no_types, lifting) List.finite_set finite_imageI length_0_conv sum_eq_0_iff)
  also have "\<dots> \<longleftrightarrow> \<not> confirmed db params i"
    unfolding items_naming_zero confirmed_def using kept_subset by fastforce
  finally show ?thesis by blast
qed

lemma decision_mapOrder:
  assumes "batch_decide env db params = Ret (Inr bd)"
  shows "rel_option shrunk (first_order params i) (bd_mapOrder bd (uuid_String i))"
  using checkDecreaseQuantity_same_orders batch_decide_Inr [OF assms]
  by (metis mergeOrderItems_mapOrder same_orders_def)

lemma first_order_distinct:
  assumes "distinct (map co_ID params)" and "o1 \<in> set params"
  shows "first_order params (co_ID o1) = Some o1"
  unfolding first_order_def using assms by (intro find_distinct) auto

definition order_row_of :: "batch_env \<Rightarrow> create_order \<Rightarrow> order_row" where
  "order_row_of env o1 =
     \<lparr>order_ID = co_ID o1, order_UserID = co_UserId o1, order_Status = WAITING_PAYMENT,
      order_CreatedAt = timestamptz_of_time (env_created env (co_ID o1)),
      order_UpdatedAt = timestamptz_of_time (env_updated env (co_ID o1))\<rparr>"

lemma order_row_of_shrunk: "shrunk o1 o2 \<Longrightarrow> order_row_of env o2 = order_row_of env o1"
  by (auto simp: order_row_of_def dest: shrunk_ID)

lemma set_inserted_orders:
  assumes "batch_wf params" and "batch_decide env db params = Ret (Inr bd)" and "db_ok db"
    and "env_enumerates env params"
  shows "set (map order_of_params (prepareOrderArgs env (bd_mapOrder bd))) =
    order_row_of env ` {o1 \<in> set params. confirmed db params (co_ID o1)}"
proof -
  note e = decision_env(3) [OF assms(2-4)]
  have "set (map order_of_params (prepareOrderArgs env (bd_mapOrder bd))) =
      {order_row_of env o2 | k o2. bd_mapOrder bd k = Some o2 \<and> co_OrderItems o2 \<noteq> []}"
    by (force simp: prepareOrderArgs_def set_go_range_enumerates [OF e] order_of_params_def order_row_of_def)
  also have "\<dots> = order_row_of env ` {o1 \<in> set params. confirmed db params (co_ID o1)}"
  proof (intro equalityI subsetI)
    fix r
    assume "r \<in> {order_row_of env o2 | k o2. bd_mapOrder bd k = Some o2 \<and> co_OrderItems o2 \<noteq> []}"
    then obtain k o2 where r: "r = order_row_of env o2" "bd_mapOrder bd k = Some o2"
      "co_OrderItems o2 \<noteq> []" by blast
    have "dom (bd_mapOrder bd) = dom (ms_mapOrder (mergeOrderItems params))"
      using batch_decide_Inr [OF assms(2)] by (intro same_orders_dom checkDecreaseQuantity_same_orders) auto
    with r(2) obtain i where k: "k = uuid_String i" by (auto simp: mergeOrderItems_mapOrder_dom)
    with decision_mapOrder [OF assms(2), of i] r(2) obtain o1 where o1: "first_order params i = Some o1"
      "shrunk o1 o2" by (auto simp: option_rel_Some2)
    from decision_order [OF assms(1-3)] r(2,3) k have "confirmed db params i" by blast
    with o1 r(1) order_row_of_shrunk [OF o1(2)] first_order_wf [OF o1(1)]
    show "r \<in> order_row_of env ` {o1 \<in> set params. confirmed db params (co_ID o1)}"
      by (intro image_eqI [of _ _ o1]) simp_all
  next
    fix r
    assume "r \<in> order_row_of env ` {o1 \<in> set params. confirmed db params (co_ID o1)}"
    then obtain o1 where o1: "o1 \<in> set params" "confirmed db params (co_ID o1)" "r = order_row_of env o1"
      by blast
    have "first_order params (co_ID o1) = Some o1"
      using assms(1) o1(1) by (intro first_order_distinct) (auto simp: batch_wf_def)
    with decision_mapOrder [OF assms(2), of "co_ID o1"] obtain o2 where
      o2: "bd_mapOrder bd (uuid_String (co_ID o1)) = Some o2" "shrunk o1 o2"
      by (auto simp: option_rel_Some1)
    then have "r = order_row_of env o2" "co_OrderItems o2 \<noteq> []"
      using decision_order [OF assms(1-3) o2(1)] o1(2,3) order_row_of_shrunk [OF o2(2), of env]
      by simp_all
    with o2(1)
    show "r \<in> {order_row_of env o2 | k o2. bd_mapOrder bd k = Some o2 \<and> co_OrderItems o2 \<noteq> []}"
      by blast
  qed
  finally show ?thesis .
qed

section \<open>The response map\<close>

lemma find_append: "find P (xs @ ys) = (case find P xs of None \<Rightarrow> find P ys | Some x \<Rightarrow> Some x)"
  by (induction xs) auto

lemma orderToResponse_at:
  "distinct (map gor_ID rows) \<Longrightarrow> orderToResponse rows mo (uuid_String i) =
     (case find (\<lambda>r. gor_ID r = i) rows of
        None \<Rightarrow> None
      | Some r \<Rightarrow> (case mo (uuid_String i) of
          None \<Rightarrow> None
        | Some q \<Rightarrow> if co_OrderItems q = [] then None
            else (case GetOrdersRow_Response r of Inl e \<Rightarrow> None | Inr x \<Rightarrow> Some x)))"
proof (induction rows rule: rev_induct)
  case Nil
  then show ?case by (simp add: orderToResponse_def)
next
  case (snoc r rows)
  then have IH: "orderToResponse rows mo (uuid_String i) =
     (case find (\<lambda>r. gor_ID r = i) rows of
        None \<Rightarrow> None
      | Some r \<Rightarrow> (case mo (uuid_String i) of
          None \<Rightarrow> None
        | Some q \<Rightarrow> if co_OrderItems q = [] then None
            else (case GetOrdersRow_Response r of Inl e \<Rightarrow> None | Inr x \<Rightarrow> Some x)))" by simp
  have step: "orderToResponse (rows @ [r]) mo = respond mo (orderToResponse rows mo) r"
    by (simp add: orderToResponse_def)
  show ?case
  proof (cases "gor_ID r = i")
    case True
    with snoc.prems have "find (\<lambda>r. gor_ID r = i) rows = None" by (auto simp: find_None_iff image_iff)
    with True IH step show ?thesis
      by (auto simp: respond_def find_append split: option.splits sum.splits)
  next
    case False
    with IH step show ?thesis
      by (auto simp: respond_def find_append split: option.splits sum.splits)
  qed
qed

end
