(* ===== verification/OrderAnswers.thy ===== *)
theory OrderAnswers
  imports OrderOutcome
begin

text \<open>
  What each request of a batch is told: the response map of a committed batch, and the messages
  that \<open>returnOrderResult\<close> and \<open>returnOrderError\<close> leave on the result channels.
\<close>

section \<open>The response of a committed batch\<close>

text \<open>The items of a new order are the inserted rows that name it.\<close>

lemma new_order_fresh:
  assumes "batch_wf params" and "batch_decide env db params = Ret (Inr bd)"
    and "batch_write env bd db = Inr (db', res)" and "db_ok db" and "env_enumerates env params"
    and "o1 \<in> set params" and "confirmed db params (co_ID o1)"
  shows "order_row_of env o1 \<in> set (db_orders db')" and "co_ID o1 \<notin> order_ID ` set (db_orders db)"
proof -
  let ?new = "map order_of_params (prepareOrderArgs env (bd_mapOrder bd))"
  have orders: "db_orders db' = db_orders db @ ?new" by (rule batch_write_orders(1) [OF assms(3)])
  have new: "order_row_of env o1 \<in> set ?new"
    unfolding set_inserted_orders [OF assms(1,2,4,5)] using assms(6,7) by blast
  then show "order_row_of env o1 \<in> set (db_orders db')" unfolding orders by simp
  have "distinct (map order_ID (db_orders db'))"
    using batch_write_ok [OF assms(3,4)] by (simp add: db_ok_def)
  then have "order_ID ` set (db_orders db) \<inter> order_ID ` set ?new = {}"
    unfolding orders by (simp add: image_image)
  moreover have "co_ID o1 \<in> order_ID ` set ?new"
    using new by (rule rev_image_eqI) (simp add: order_row_of_def)
  ultimately show "co_ID o1 \<notin> order_ID ` set (db_orders db)" by blast
qed

lemma items_of_new_order:
  assumes "batch_write env bd db = Inr (db', res)" and "db_ok db" and "i \<notin> order_ID ` set (db_orders db)"
  shows "items_of_order db' i = filter (\<lambda>it. oitem_OrderID it = i) (inserted_items env bd)"
proof -
  have "filter (\<lambda>it. oitem_OrderID it = i) (db_order_items db) = []"
    using assms(2,3) by (intro filter_none) (auto simp: db_ok_def image_subset_iff)
  then show ?thesis
    using batch_write_orders(2) [OF assms(1)] by (simp add: items_of_order_def inserted_items_def)
qed

lemma find_rows:
  "find (\<lambda>r. gor_ID r = i) (map (get_orders_row_of db) rs) =
     map_option (get_orders_row_of db) (find (\<lambda>r. order_ID r = i) rs)"
  by (induction rs) (auto simp: get_orders_row_of_def)

lemma response_of:
  assumes "batch_wf params" and "batch_decide env db params = Ret (Inr bd)"
    and "batch_write env bd db = Inr (db', res)" and "db_ok db" and "env_enumerates env params"
    and "o1 \<in> set params"
  shows "res (uuid_String (co_ID o1)) =
    (if confirmed db params (co_ID o1) then Some (res_order_of_row db' (order_row_of env o1)) else None)"
proof -
  let ?i = "co_ID o1"
  have ok: "db_ok db'" by (rule batch_write_ok [OF assms(3,4)])
  have ids: "bd_orderIds bd = map co_ID params" using batch_decide_Inr [OF assms(2)] by simp
  have res: "res = orderToResponse (GetOrders db' (bd_orderIds bd)) (bd_mapOrder bd)"
    using batch_write_Inr [OF assms(3)] by blast
  have dist: "distinct (map gor_ID (GetOrders db' (bd_orderIds bd)))"
    using ok by (simp add: GetOrders_def get_orders_row_of_def o_def distinct_map_filter db_ok_def)
  have "first_order params ?i = Some o1"
    using assms(1,6) by (intro first_order_distinct) (auto simp: batch_wf_def)
  with decision_mapOrder [OF assms(2), of ?i] obtain o2 where
    o2: "bd_mapOrder bd (uuid_String ?i) = Some o2" by (auto simp: option_rel_Some1)
  note items = decision_order [OF assms(1,2,4) o2]
  show ?thesis
  proof (cases "confirmed db params ?i")
    case False
    with items o2 show ?thesis
      unfolding res orderToResponse_at [OF dist] by (simp split: option.split)
  next
    case True
    note fresh = new_order_fresh [OF assms True]
    note own = items_of_new_order [OF assms(3,4) fresh(2)]
    from True obtain it where it: "it \<in> set (kept db params (roi_ProductID it))" "roi_OrderID it = ?i"
      unfolding confirmed_def by blast
    then have "item_row_of env it \<in> set (items_of_order db' ?i)"
      unfolding own using set_inserted_items [OF assms(2,4,5)] by auto
    then have nonempty: "items_of_order db' ?i \<noteq> []" by auto
    have proper: "\<forall>r \<in> set (items_of_order db' ?i). proper_order_item r"
      unfolding own using set_inserted_items [OF assms(2,4,5)] by auto
    have "find (\<lambda>r. order_ID r = ?i) (filter (\<lambda>r. order_ID r \<in> set (bd_orderIds bd) \<and>
        items_of_order db' (order_ID r) \<noteq> []) (db_orders db')) = Some (order_row_of env o1)"
      using ok fresh(1) nonempty assms(6) ids
      by (intro find_distinct) (auto simp: distinct_map_filter db_ok_def order_row_of_def)
    then have "find (\<lambda>r. gor_ID r = ?i) (GetOrders db' (bd_orderIds bd)) =
        Some (get_orders_row_of db' (order_row_of env o1))"
      by (simp add: GetOrders_def find_rows)
    moreover have "GetOrdersRow_Response (get_orders_row_of db' (order_row_of env o1)) =
        Inr (res_order_of_row db' (order_row_of env o1))"
      using proper by (intro GetOrdersRow_Response_of) (simp add: order_row_of_def)
    ultimately show ?thesis
      unfolding res orderToResponse_at [OF dist] using True items o2 by simp
  qed
qed

section \<open>The result channels\<close>

text \<open>The channels as \<open>Checkout\<close> makes them: one fresh channel of capacity 1 for each request.\<close>

definition channels_ready :: "create_order list \<Rightarrow> chans \<Rightarrow> bool" where
  "channels_ready params cs \<longleftrightarrow> distinct (map co_ResultChannel params) \<and>
     (\<forall>o1 \<in> set params. \<exists>n. co_ResultChannel o1 = Some n \<and> cs n = chan_made)"

definition answered :: "order_result \<Rightarrow> chan" where
  "answered v = \<lparr>ch_buf = [v], ch_closed = True\<rparr>"

lemma go_all_send:
  assumes "channels_ready params cs"
  shows "\<exists>cs'. go_all (\<lambda>cs o1. send_and_close (co_ResultChannel o1) (v o1) cs) cs params = Ret cs' \<and>
    (\<forall>o1 \<in> set params. \<forall>n. co_ResultChannel o1 = Some n \<longrightarrow> cs' n = answered (v o1)) \<and>
    (\<forall>n. Some n \<notin> co_ResultChannel ` set params \<longrightarrow> cs' n = cs n)"
  using assms
proof (induction params arbitrary: cs)
  case Nil
  then show ?case by simp
next
  case (Cons o1 params)
  then obtain n where n: "co_ResultChannel o1 = Some n" "cs n = chan_made"
    by (auto simp: channels_ready_def)
  let ?cs1 = "cs(n := answered (v o1))"
  have send: "send_and_close (co_ResultChannel o1) (v o1) cs = Ret ?cs1"
    using n by (simp add: send_and_close_def chan_made_def answered_def)
  have fresh: "Some n \<notin> co_ResultChannel ` set params"
    using Cons.prems n(1) by (auto simp: channels_ready_def)
  have "channels_ready params ?cs1"
    using Cons.prems fresh by (fastforce simp: channels_ready_def image_iff)
  from Cons.IH [OF this] obtain cs' where cs':
    "go_all (\<lambda>cs o1. send_and_close (co_ResultChannel o1) (v o1) cs) ?cs1 params = Ret cs'"
    "\<forall>o1 \<in> set params. \<forall>n. co_ResultChannel o1 = Some n \<longrightarrow> cs' n = answered (v o1)"
    "\<forall>n. Some n \<notin> co_ResultChannel ` set params \<longrightarrow> cs' n = ?cs1 n" by blast
  have "cs' n = answered (v o1)" using cs'(3) fresh by simp
  moreover have "\<forall>m. Some m \<notin> co_ResultChannel ` set (o1 # params) \<longrightarrow> cs' m = cs m"
    using cs'(3) n(1) by simp
  ultimately show ?case using send cs' n(1) by simp
qed

lemma returnOrderResult_ready:
  assumes "channels_ready params cs"
  shows "\<exists>cs'. returnOrderResult params m cs = Ret cs' \<and>
    (\<forall>o1 \<in> set params. \<forall>n. co_ResultChannel o1 = Some n \<longrightarrow> cs' n = answered (order_result_of m o1))"
  unfolding returnOrderResult_def using go_all_send [OF assms, of "order_result_of m"] by blast

lemma returnOrderError_ready:
  assumes "channels_ready params cs"
  shows "\<exists>cs'. returnOrderError params err cs = Ret cs' \<and>
    (\<forall>o1 \<in> set params. \<forall>n. co_ResultChannel o1 = Some n \<longrightarrow>
      cs' n = answered \<lparr>res_Order = res_order_zero, res_Err = Some err\<rparr>)"
  unfolding returnOrderError_def
  using go_all_send [OF assms, of "\<lambda>o1. \<lparr>res_Order = res_order_zero, res_Err = Some err\<rparr>"] by blast

text \<open>Sending on a channel that is already closed ends the process.\<close>

lemma go_all_closed_panics:
  assumes "o1 \<in> set params" and "co_ResultChannel o1 = Some n" and "ch_closed (cs n)"
  shows "\<exists>m. go_all (\<lambda>cs o1. send_and_close (co_ResultChannel o1) (v o1) cs) cs params = Panic m"
  using assms
proof (induction params arbitrary: cs)
  case Nil
  then show ?case by simp
next
  case (Cons o2 params)
  show ?case
  proof (cases "send_and_close (co_ResultChannel o2) (v o2) cs")
    case (Panic m)
    then show ?thesis by simp
  next
    case Blocked
    then have "o1 \<noteq> o2" using Cons.prems by (auto simp: send_and_close_def)
    with Cons.prems Cons.IH [of cs] Blocked show ?thesis by auto
  next
    case (Ret cs1)
    then have "o1 \<noteq> o2" using Cons.prems by (auto simp: send_and_close_def)
    moreover have "ch_closed (cs1 n)"
      using Ret Cons.prems(3) by (auto simp: send_and_close_def split: option.splits if_splits)
    ultimately show ?thesis using Cons.prems Cons.IH [of cs1] Ret by simp
  qed
qed

section \<open>No panic, no hanging\<close>

lemma batch_decide_returns:
  assumes "batch_wf params"
  shows "\<exists>r. batch_decide env db params = Ret r"
  using check_never_panics [OF assms]
  by (fastforce simp: batch_decide_def Let_def split: sum.split)

lemma BatchCreateOrder_returns:
  assumes "batch_wf params" and "channels_ready params cs"
  shows "\<exists>cs' r. snd (BatchCreateOrder env db cs params) = Ret (cs', r)"
proof -
  obtain r where r: "batch_decide env db params = Ret r"
    using batch_decide_returns [OF assms(1)] by blast
  have e: "\<exists>cs'. returnOrderError params err cs = Ret cs'" for err
    using returnOrderError_ready [OF assms(2)] by blast
  have o: "\<exists>cs'. returnOrderResult params m cs = Ret cs'" for m
    using returnOrderResult_ready [OF assms(2)] by blast
  show ?thesis
  proof (cases r)
    case (Inl err)
    with r e [of err] show ?thesis by (auto simp: BatchCreateOrder_def)
  next
    case (Inr bd)
    show ?thesis
    proof (cases "batch_write env bd db")
      case (Inl err)
      with r e [of err] \<open>r = Inr bd\<close> show ?thesis by (auto simp: BatchCreateOrder_def)
    next
      case (Inr p)
      with r o [of "snd p"] \<open>r = Inr bd\<close> show ?thesis
        by (cases p) (auto simp: BatchCreateOrder_def)
    qed
  qed
qed

end
