(* ===== verification/OrderAccept.thy ===== *)
theory OrderAccept
  imports OrderAnswers
begin

text \<open>
  When a batch commits: known users and products, fresh identifiers, quantities that are not
  negative and whose sum fits \<open>int32\<close>, no failing infrastructure call. And when it cannot: one
  item of an unknown product, or a user that does not exist, fails every request of the batch.
\<close>

section \<open>A batch the database accepts\<close>

definition no_faults :: "batch_env \<Rightarrow> bool" where
  "no_faults env \<longleftrightarrow> env_begin env = None \<and> env_find env = None \<and> env_update env = None \<and>
     env_insertOrders env = None \<and> env_insertItems env = None \<and> env_getOrders env = None \<and>
     env_commit env = None"

definition quantities_fit :: "req_order_item list \<Rightarrow> bool" where
  "quantities_fit items \<longleftrightarrow> (\<forall>it \<in> set items. 0 \<le> sint (roi_Quantity it)) \<and>
     sum_list (map (\<lambda>it. sint (roi_Quantity it)) items) < 2 ^ 31"

text \<open>Everything the database asks of a batch except the quantities.\<close>

definition batch_admitted :: "database \<Rightarrow> create_order list \<Rightarrow> bool" where
  "batch_admitted db params \<longleftrightarrow> batch_wf params \<and> batch_items params \<noteq> [] \<and>
     (\<forall>o1 \<in> set params. co_UserId o1 \<in> user_ID ` set (db_users db) \<and>
        co_ID o1 \<notin> order_ID ` set (db_orders db)) \<and>
     distinct (map roi_ID (batch_items params)) \<and>
     (\<forall>it \<in> set (batch_items params). roi_ID it \<notin> oitem_ID ` set (db_order_items db) \<and>
        roi_ProductID it \<in> product_ID ` set (db_products db))"

definition batch_valid :: "database \<Rightarrow> create_order list \<Rightarrow> bool" where
  "batch_valid db params \<longleftrightarrow> batch_admitted db params \<and> quantities_fit (batch_items params)"

text \<open>What the update needs of the quantities: no wrapped total of a product's kept items is negative.\<close>

definition totals_nonneg :: "database \<Rightarrow> create_order list \<Rightarrow> bool" where
  "totals_nonneg db params \<longleftrightarrow> (\<forall>p. 0 \<le> sint (total_quantity (kept db params p)))"

subsection \<open>Quantities\<close>

lemma sint_sum_quantities:
  assumes "\<forall>it \<in> set items. 0 \<le> sint (roi_Quantity it)"
    and "sum_list (map (\<lambda>it. sint (roi_Quantity it)) items) < 2 ^ 31"
  shows "sint (total_quantity items) = sum_list (map (\<lambda>it. sint (roi_Quantity it)) items)"
proof -
  have word: "total_quantity xs = word_of_int (sum_list (map (\<lambda>it. sint (roi_Quantity it)) xs))" for xs
    by (induction xs) (simp_all add: total_quantity_def)
  have "0 \<le> sum_list (map (\<lambda>it. sint (roi_Quantity it)) items)"
    using assms(1) by (intro sum_list_nonneg) auto
  with assms(2) have "int4_range (sum_list (map (\<lambda>it. sint (roi_Quantity it)) items))"
    by (simp add: int4_range_def)
  from sint_word_of_int_int4 [OF this] show ?thesis unfolding word .
qed

lemma sum_quantities_filter:
  fixes f :: "'a \<Rightarrow> int"
  shows "\<forall>x \<in> set xs. 0 \<le> f x \<Longrightarrow> sum_list (map f (filter P xs)) \<le> sum_list (map f xs)"
  by (induction xs) auto

lemma sum_quantities_prefix:
  fixes f :: "'a \<Rightarrow> int"
  assumes "prefix ys xs" and "\<forall>x \<in> set xs. 0 \<le> f x"
  shows "sum_list (map f ys) \<le> sum_list (map f xs)"
proof -
  from assms(1) obtain zs where xs: "xs = ys @ zs" by (auto simp: prefix_def)
  then have "0 \<le> sum_list (map f zs)" using assms(2) by (intro sum_list_nonneg) auto
  with xs show ?thesis by simp
qed

lemma kept_prefix: "prefix (kept db params p) (items_of_product p (batch_items params))"
  by (simp add: kept_def retained_prefix split: option.split)

lemma kept_total_nonneg:
  assumes "quantities_fit (batch_items params)"
  shows "0 \<le> sint (total_quantity (kept db params p))"
proof -
  let ?f = "\<lambda>it. sint (roi_Quantity it)"
  have pos: "\<forall>it \<in> set (kept db params p). 0 \<le> ?f it"
    using assms kept_subset by (fastforce simp: quantities_fit_def)
  have "sum_list (map ?f (kept db params p)) \<le> sum_list (map ?f (items_of_product p (batch_items params)))"
    using assms by (intro sum_quantities_prefix [OF kept_prefix])
      (auto simp: quantities_fit_def items_of_product_def)
  also have "\<dots> \<le> sum_list (map ?f (batch_items params))"
    unfolding items_of_product_def
    using assms by (intro sum_quantities_filter) (auto simp: quantities_fit_def)
  also have "\<dots> < 2 ^ 31" using assms by (simp add: quantities_fit_def)
  finally have "sint (total_quantity (kept db params p)) = sum_list (map ?f (kept db params p))"
    by (intro sint_sum_quantities pos)
  also have "0 \<le> \<dots>" using pos by (intro sum_list_nonneg) auto
  finally show ?thesis .
qed

lemma totals_nonneg_fit: "quantities_fit (batch_items params) \<Longrightarrow> totals_nonneg db params"
  by (simp add: totals_nonneg_def kept_total_nonneg)

lemma diff_range:
  assumes "0 \<le> sint (a :: int32)" and "0 \<le> sint (b :: int32)"
  shows "int4_range (sint a - sint b)"
  using assms int4_range_sint [of a] int4_range_sint [of b] by (simp add: int4_range_def)

subsection \<open>The three statements succeed\<close>

lemma accept_update:
  assumes "batch_decide env db params = Ret (Inr bd)" and "db_ok db" and "env_enumerates env params"
    and "stock_nonneg db" and "batch_items params \<noteq> []" and "totals_nonneg db params"
  shows "exec_update (env_now env) db (buildQuery (env_queryKeys env) (bd_mapMergedOrderItem bd))
      (bd_productIds bd) =
    Inr (db\<lparr>db_products := map (stock_row_after db params (env_now env)) (db_products db)\<rparr>)"
proof -
  note e = decision_env [OF assms(1-3)]
  have "traverse (update_row_spec (env_now env) (bd_productIds bd) (bd_mapMergedOrderItem bd))
      (db_products db) = Inr (map (stock_row_after db params (env_now env)) (db_products db))"
  proof (rule traverse_map)
    fix r
    assume "r \<in> set (db_products db)"
    with assms(4) have "0 \<le> sint (product_Quantity r)" by (simp add: stock_nonneg_def)
    from diff_range [OF this, of "total_quantity (kept db params (product_ID r))"] assms(6)
    show "update_row_spec (env_now env) (bd_productIds bd) (bd_mapMergedOrderItem bd) r =
        Inr (stock_row_after db params (env_now env) r)"
      by (simp add: totals_nonneg_def update_row_decided [OF assms(1,2)] stock_row_after_def Let_def)
  qed
  moreover have "bd_mapMergedOrderItem bd \<noteq> Map.empty"
  proof -
    from assms(5) obtain it where "it \<in> set (batch_items params)"
      by (cases "batch_items params") auto
    then have "bd_mapMergedOrderItem bd (uuid_String (roi_ProductID it)) \<noteq> None"
      by (simp add: decision_map [OF assms(1,2)])
    then show ?thesis by auto
  qed
  ultimately show ?thesis using exec_buildQuery [OF e(1,4)] by simp
qed

lemma decision_order_key:
  assumes "batch_decide env db params = Ret (Inr bd)" and "bd_mapOrder bd k = Some o2"
  shows "k = uuid_String (co_ID o2) \<and> (\<exists>o1 \<in> set params. shrunk o1 o2)"
proof -
  have "dom (bd_mapOrder bd) = dom (ms_mapOrder (mergeOrderItems params))"
    using batch_decide_Inr [OF assms(1)] by (intro same_orders_dom checkDecreaseQuantity_same_orders) auto
  with assms(2) obtain i where k: "k = uuid_String i" by (auto simp: mergeOrderItems_mapOrder_dom)
  with decision_mapOrder [OF assms(1), of i] assms(2) obtain o1 where
    o1: "first_order params i = Some o1" "shrunk o1 o2" by (auto simp: option_rel_Some2)
  with k shrunk_ID [OF o1(2)] first_order_wf [OF o1(1)] show ?thesis by auto
qed

lemma inserted_orders_distinct:
  assumes "batch_decide env db params = Ret (Inr bd)" and "db_ok db" and "env_enumerates env params"
  shows "distinct (map order_ID (map order_of_params (prepareOrderArgs env (bd_mapOrder bd))))"
proof -
  let ?es = "filter (\<lambda>(k, order). co_OrderItems order \<noteq> []) (go_range (env_orderKeys env) (bd_mapOrder bd))"
  note e = decision_env(3) [OF assms]
  have "map order_ID (map order_of_params (prepareOrderArgs env (bd_mapOrder bd))) =
      map (\<lambda>(k, o2). co_ID o2) ?es"
    by (simp add: prepareOrderArgs_def order_of_params_def o_def case_prod_unfold)
  moreover have "map uuid_String (map (\<lambda>(k, o2). co_ID o2) ?es) = map fst ?es"
    using decision_order_key [OF assms(1)] by (auto simp: set_go_range_enumerates [OF e])
  moreover have "distinct (map fst ?es)"
    using e by (intro distinct_map_filter_keep distinct_go_range) (simp add: enumerates_def)
  ultimately show ?thesis by (metis distinct_map)
qed

lemma distinct_append_fresh:
  assumes "distinct (map key xs)" and "distinct (map key ys)"
    and "\<forall>y \<in> set ys. key y \<notin> key ` set xs"
  shows "distinct (map key (xs @ ys))"
proof -
  have "set (map key xs) \<inter> set (map key ys) = {}"
  proof (rule ccontr)
    assume "\<not> ?thesis"
    then obtain z where z: "z \<in> set (map key xs)" "z \<in> set (map key ys)" by blast
    then obtain y where "y \<in> set ys" "z = key y" by (metis imageE set_map)
    with assms(3) z(1) show False by simp
  qed
  with assms(1,2) show ?thesis by (simp only: map_append distinct_append)
qed

lemma accept_orders:
  assumes "batch_decide env db params = Ret (Inr bd)" and "db_ok db" and "env_enumerates env params"
    and "batch_admitted db params" and "db_users db1 = db_users db" and "db_orders db1 = db_orders db"
  shows "\<exists>n. InsertOrders db1 (prepareOrderArgs env (bd_mapOrder bd)) =
    Inr (db1\<lparr>db_orders := db_orders db @ map order_of_params (prepareOrderArgs env (bd_mapOrder bd))\<rparr>, n)"
proof -
  let ?new = "map order_of_params (prepareOrderArgs env (bd_mapOrder bd))"
  have wf: "batch_wf params" using assms(4) by (simp add: batch_admitted_def)
  note new = set_inserted_orders [OF wf assms(1-3)]
  have users: "\<forall>r \<in> set ?new. order_UserID r \<in> user_ID ` set (db_users db)"
    unfolding new using assms(4) by (auto simp: batch_admitted_def order_row_of_def)
  have fresh: "\<forall>r \<in> set ?new. order_ID r \<notin> order_ID ` set (db_orders db)"
    unfolding new using assms(4) by (auto simp: batch_admitted_def order_row_of_def)
  have "distinct (map order_ID (db_orders db @ ?new))"
    using assms(2) by (intro distinct_append_fresh inserted_orders_distinct [OF assms(1-3)] fresh)
      (simp add: db_ok_def)
  with users show ?thesis
    using assms(5,6) by (simp add: InsertOrders_def Let_def del: map_map map_append distinct_append)
qed

lemma distinct_concat_go_range:
  assumes "distinct ks" and "\<And>k m. mm k = Some m \<Longrightarrow> distinct (map key (f k m))"
    and "\<And>k m k' m'. mm k = Some m \<Longrightarrow> mm k' = Some m' \<Longrightarrow> k \<noteq> k' \<Longrightarrow>
      key ` set (f k m) \<inter> key ` set (f k' m') = {}"
  shows "distinct (map key (concat (map (\<lambda>(k, m). f k m) (go_range ks mm))))"
  using assms(1)
proof (induction ks)
  case Nil
  then show ?case by simp
next
  case (Cons a ks)
  show ?case
  proof (cases "mm a")
    case None
    with Cons show ?thesis by simp
  next
    case (Some m)
    have "key ` set (f a m) \<inter> key ` set (concat (map (\<lambda>(k, m). f k m) (go_range ks mm))) = {}"
      using assms(3) [OF Some] Cons.prems by (fastforce simp: set_go_range)
    with Some Cons assms(2) [OF Some] show ?thesis by simp
  qed
qed

lemma kept_disjoint_ids:
  assumes "distinct (map roi_ID (batch_items params))" and "p \<noteq> q"
  shows "roi_ID ` set (kept db params p) \<inter> roi_ID ` set (kept db params q) = {}"
proof (rule ccontr)
  assume "\<not> ?thesis"
  then obtain a b where ab: "a \<in> set (kept db params p)" "b \<in> set (kept db params q)" "roi_ID a = roi_ID b"
    by blast
  with assms(1) kept_subset have "a = b" by (metis distinct_map inj_onD)
  with ab(1,2) kept_subset assms(2) show False by metis
qed

lemma inserted_items_distinct:
  assumes "batch_decide env db params = Ret (Inr bd)" and "db_ok db" and "env_enumerates env params"
    and "distinct (map roi_ID (batch_items params))"
  shows "distinct (map oitem_ID (inserted_items env bd))"
  unfolding inserted_items_concat
proof (rule distinct_concat_go_range)
  note e = decision_env [OF assms(1-3)]
  have at: "\<exists>p. k = uuid_String p \<and> moi_Items m = kept db params p"
    if m: "bd_mapMergedOrderItem bd k = Some m" for k m
  proof -
    from m e(4) obtain p where "k = uuid_String p" by blast
    with m decision_merged_at [OF assms(1,2), of p] show ?thesis by auto
  qed
  show "distinct (env_itemKeys env)" using e(2) by (simp add: enumerates_def)
  fix k m
  assume m: "bd_mapMergedOrderItem bd k = Some m"
  then obtain p where p: "k = uuid_String p" "moi_Items m = kept db params p" using at by blast
  obtain zs where "items_of_product p (batch_items params) = kept db params p @ zs"
    using kept_prefix [of db params p] by (auto simp: prefix_def)
  moreover have "distinct (map roi_ID (items_of_product p (batch_items params)))"
    unfolding items_of_product_def by (rule distinct_map_filter_keep [OF assms(4)])
  ultimately show "distinct (map oitem_ID (map (item_row_of env) (moi_Items m)))"
    using p by (simp add: o_def)
  fix k' m'
  assume m': "bd_mapMergedOrderItem bd k' = Some m'" and "k \<noteq> k'"
  then obtain q where q: "k' = uuid_String q" "moi_Items m' = kept db params q" using at by blast
  with p \<open>k \<noteq> k'\<close> have "p \<noteq> q" by blast
  from kept_disjoint_ids [OF assms(4) this] p q
  show "oitem_ID ` set (map (item_row_of env) (moi_Items m)) \<inter>
      oitem_ID ` set (map (item_row_of env) (moi_Items m')) = {}"
    by (simp add: image_image)
qed

lemma accept_items:
  assumes "batch_decide env db params = Ret (Inr bd)" and "db_ok db" and "env_enumerates env params"
    and "batch_admitted db params" and "db_order_items db2 = db_order_items db"
    and "order_ID ` set (db_orders db2) =
      order_ID ` set (db_orders db @ map order_of_params (prepareOrderArgs env (bd_mapOrder bd)))"
    and "product_ID ` set (db_products db2) = product_ID ` set (db_products db)"
  shows "\<exists>n. InsertOrderItem db2 (prepareOrderItemArgs env (bd_mapMergedOrderItem bd)) =
    Inr (db2\<lparr>db_order_items := db_order_items db @ inserted_items env bd\<rparr>, n)"
proof -
  have wf: "batch_wf params" using assms(4) by (simp add: batch_admitted_def)
  note items = set_inserted_items [OF assms(1-3)]
  have price: "\<forall>r \<in> set (inserted_items env bd). num_Valid (oitem_Price r)"
    unfolding items using proper_item_row_of by (auto simp: proper_order_item_def proper_numeric_def)
  have order: "\<forall>r \<in> set (inserted_items env bd). oitem_OrderID r \<in> order_ID ` set (db_orders db2)"
  proof
    fix r
    assume "r \<in> set (inserted_items env bd)"
    then obtain it p where it: "r = item_row_of env it" "it \<in> set (kept db params p)"
      unfolding items by blast
    from kept_subset [OF it(2)] obtain o1 where o1: "o1 \<in> set params" "it \<in> set (co_OrderItems o1)"
      by (auto simp: batch_items_def)
    with wf have own: "roi_OrderID it = co_ID o1" by (auto simp: batch_wf_def)
    with it(2) have "confirmed db params (co_ID o1)" by (auto simp: confirmed_iff)
    with o1(1) have "order_row_of env o1 \<in>
        set (map order_of_params (prepareOrderArgs env (bd_mapOrder bd)))"
      unfolding set_inserted_orders [OF wf assms(1-3)] by blast
    then have "order_ID (order_row_of env o1) \<in> order_ID ` set (db_orders db2)"
      unfolding assms(6) set_append by blast
    with it(1) own show "oitem_OrderID r \<in> order_ID ` set (db_orders db2)"
      by (simp add: order_row_of_def)
  qed
  have product: "\<forall>r \<in> set (inserted_items env bd). oitem_ProductID r \<in> product_ID ` set (db_products db2)"
    unfolding items assms(7) using assms(4) by (auto simp: batch_admitted_def dest!: kept_subset)
  have fresh: "\<forall>r \<in> set (inserted_items env bd). oitem_ID r \<notin> oitem_ID ` set (db_order_items db)"
    unfolding items using assms(4) by (auto simp: batch_admitted_def dest!: kept_subset)
  have "distinct (map oitem_ID (inserted_items env bd))"
    using assms(4) by (intro inserted_items_distinct [OF assms(1-3)]) (simp add: batch_admitted_def)
  then have "distinct (map oitem_ID (db_order_items db @ inserted_items env bd))"
    using assms(2) by (intro distinct_append_fresh fresh) (simp_all add: db_ok_def)
  with price order product show ?thesis
    using assms(5) by (simp add: InsertOrderItem_def Let_def inserted_items_def
        del: map_map map_append distinct_append)
qed

lemma accept_batch:
  assumes "batch_admitted db params" and "totals_nonneg db params" and "db_ok db" and "stock_nonneg db"
    and "env_enumerates env params" and "no_faults env"
  shows "\<exists>bd db' res. batch_decide env db params = Ret (Inr bd) \<and> batch_write env bd db = Inr (db', res)"
proof -
  have wf: "batch_wf params" using assms(1) by (simp add: batch_admitted_def)
  obtain mm mo where "checkDecreaseQuantity (FindProductsByIds db (ms_productIds (mergeOrderItems params)))
      (ms_mapMergedOrderItem (mergeOrderItems params)) (ms_mapOrder (mergeOrderItems params)) = Ret (mm, mo)"
    using check_never_panics [OF wf] by blast
  then obtain bd where bd: "batch_decide env db params = Ret (Inr bd)"
    using assms(6) by (simp add: batch_decide_def no_faults_def step_err_def Let_def)
  let ?db1 = "db\<lparr>db_products := map (stock_row_after db params (env_now env)) (db_products db)\<rparr>"
  have s1: "exec_update (env_now env) db (buildQuery (env_queryKeys env) (bd_mapMergedOrderItem bd))
      (bd_productIds bd) = Inr ?db1"
    using assms(1,2,4) by (intro accept_update [OF bd assms(3,5)]) (simp_all add: batch_admitted_def)
  obtain n where s2: "InsertOrders ?db1 (prepareOrderArgs env (bd_mapOrder bd)) =
      Inr (?db1\<lparr>db_orders := db_orders db @ map order_of_params (prepareOrderArgs env (bd_mapOrder bd))\<rparr>, n)"
    using accept_orders [OF bd assms(3,5,1), of ?db1] by auto
  let ?db2 = "?db1\<lparr>db_orders := db_orders db @ map order_of_params (prepareOrderArgs env (bd_mapOrder bd))\<rparr>"
  obtain n' where "InsertOrderItem ?db2 (prepareOrderItemArgs env (bd_mapMergedOrderItem bd)) =
      Inr (?db2\<lparr>db_order_items := db_order_items db @ inserted_items env bd\<rparr>, n')"
    using accept_items [OF bd assms(3,5,1), of ?db2] by (auto simp: image_image)
  with s1 s2 assms(6) have "\<exists>db' res. batch_write env bd db = Inr (db', res)"
    by (simp add: batch_write_def no_faults_def step_err_def)
  with bd show ?thesis by blast
qed

section \<open>One bad request fails the batch\<close>

lemma unknown_product_fails:
  assumes "it \<in> set (batch_items params)" and "roi_ProductID it \<notin> product_ID ` set (db_products db)"
    and "db_ok db" and "env_enumerates env params"
    and "batch_decide env db params = Ret (Inr bd)"
  shows "\<exists>err. batch_write env bd db = Inl err"
proof (cases "batch_write env bd db")
  case (Inl err)
  then show ?thesis by simp
next
  case (Inr p)
  obtain db' res where "p = (db', res)" by (cases p)
  with Inr have w: "batch_write env bd db = Inr (db', res)" by simp
  have "find (\<lambda>r. product_ID r = roi_ProductID it) (db_products db) = None"
    using assms(2) by (auto simp: find_None_iff image_iff)
  then have "kept db params (roi_ProductID it) = items_of_product (roi_ProductID it) (batch_items params)"
    by (simp add: kept_def)
  with assms(1) have "kept db params (roi_ProductID it) \<noteq> []"
    by (auto simp: items_of_product_Nil_iff)
  with kept_unknown_product [OF assms(5) w assms(3,4,2)] show ?thesis by simp
qed

lemma BatchCreateOrder_unknown_product:
  assumes "it \<in> set (batch_items params)" and "roi_ProductID it \<notin> product_ID ` set (db_products db)"
    and "db_ok db" and "env_enumerates env params" and "BatchCreateOrder env db cs params = (db', out)"
  shows "db' = db \<and> (\<forall>cs' r. out = Ret (cs', r) \<longrightarrow> (\<exists>err. r = Inl err))"
proof -
  have "params \<noteq> []" using assms(1) by auto
  with assms(5) show ?thesis
    using unknown_product_fails [OF assms(1-4)]
    by (fastforce simp: BatchCreateOrder_def split: outcome.splits sum.splits)
qed

end
