(* ===== verification/OrderWorker.thy ===== *)
theory OrderWorker
  imports OrderAccept
begin

text \<open>
  \<open>order/cmd/listener.go\<close> and the queue half of \<open>OrderController.Checkout\<close>: handlers put requests
  with a fresh result channel on a queue of capacity 1, one worker moves them into its batch and
  runs the batch on each tick. A failed batch is kept (\<open>continue\<close> skips \<open>batch[:0]\<close>).
\<close>

section \<open>The worker and its steps\<close>

datatype worker_status = Running | Stopped | Stuck | Crashed string

record worker =
  w_status :: worker_status
  w_queue :: "create_order list"
  w_batch :: "create_order list"
  w_db :: database
  w_chans :: chans
  w_next :: nat
  w_waiting :: "nat set"

text \<open>\<open>make(chan request.CreateOrder, 1)\<close> in \<open>order/cmd/order.go\<close>.\<close>

definition queue_capacity :: nat where
  "queue_capacity = 1"

text \<open>\<open>case ctrl.queue <- param\<close>, after \<open>param.ResultChannel = make(chan response.Result, 1)\<close>.\<close>

definition enqueue :: "create_order \<Rightarrow> worker \<Rightarrow> worker" where
  "enqueue param w =
     w\<lparr>w_queue := w_queue w @ [param\<lparr>co_ResultChannel := Some (w_next w)\<rparr>],
       w_next := Suc (w_next w), w_waiting := insert (w_next w) (w_waiting w)\<rparr>"

text \<open>\<open>case order := <-wrk.queue\<close>.\<close>

definition receive :: "worker \<Rightarrow> worker" where
  "receive w =
     (case w_queue w of
        [] \<Rightarrow> w
      | order # rest \<Rightarrow> w\<lparr>w_queue := rest, w_batch := w_batch w @ [order]\<rparr>)"

text \<open>\<open>case <-tick\<close>.\<close>

definition tick :: "batch_env \<Rightarrow> worker \<Rightarrow> worker" where
  "tick env w =
     (if w_batch w = [] then w
      else case BatchCreateOrder env (w_db w) (w_chans w) (w_batch w) of
        (db', Ret (cs', Inr res)) \<Rightarrow> w\<lparr>w_db := db', w_chans := cs', w_batch := []\<rparr>
      | (db', Ret (cs', Inl err)) \<Rightarrow> w\<lparr>w_db := db', w_chans := cs'\<rparr>
      | (db', Panic m) \<Rightarrow> w\<lparr>w_db := db', w_status := Crashed m\<rparr>
      | (db', Blocked) \<Rightarrow> w\<lparr>w_db := db', w_status := Stuck\<rparr>)"

text \<open>\<open>case result := <-param.ResultChannel\<close> in the handler: the message leaves the channel.\<close>

definition take_result :: "nat \<Rightarrow> worker \<Rightarrow> worker" where
  "take_result n w =
     w\<lparr>w_chans := (w_chans w)(n := (w_chans w n)\<lparr>ch_buf := tl (ch_buf (w_chans w n))\<rparr>),
       w_waiting := w_waiting w - {n}\<rparr>"

text \<open>The handlers go on while the worker is stuck or has stopped; a panic ends the process.\<close>

definition crashed :: "worker \<Rightarrow> bool" where
  "crashed w \<longleftrightarrow> (\<exists>m. w_status w = Crashed m)"

inductive worker_step :: "worker \<Rightarrow> worker \<Rightarrow> bool" where
  step_enqueue: "\<not> crashed w \<Longrightarrow> length (w_queue w) < queue_capacity \<Longrightarrow>
     worker_step w (enqueue param w)"
| step_receive: "w_status w = Running \<Longrightarrow> w_queue w \<noteq> [] \<Longrightarrow> worker_step w (receive w)"
| step_tick: "w_status w = Running \<Longrightarrow> env_enumerates env (w_batch w) \<Longrightarrow>
     worker_step w (tick env w)"
| step_result: "n \<in> w_waiting w \<Longrightarrow> ch_buf (w_chans w n) \<noteq> [] \<Longrightarrow> worker_step w (take_result n w)"
| step_timeout: "n \<in> w_waiting w \<Longrightarrow> worker_step w (w\<lparr>w_waiting := w_waiting w - {n}\<rparr>)"
| step_stop: "w_status w = Running \<Longrightarrow> worker_step w (w\<lparr>w_status := Stopped\<rparr>)"

inductive_cases worker_stepE: "worker_step w w'"

text \<open>Some order to iterate the maps of a batch in: the order received. So a tick is always possible.\<close>

definition received_order :: "create_order list \<Rightarrow> batch_env \<Rightarrow> batch_env" where
  "received_order params env =
     env\<lparr>env_queryKeys := map uuid_String (ms_productIds (mergeOrderItems params)),
         env_itemKeys := map uuid_String (ms_productIds (mergeOrderItems params)),
         env_orderKeys := map uuid_String (remdups (ms_orderIds (mergeOrderItems params)))\<rparr>"

lemma received_order_enumerates: "env_enumerates (received_order params env) params"
proof -
  have "set (ms_productIds (mergeOrderItems params)) = roi_ProductID ` set (batch_items params)"
    "distinct (ms_productIds (mergeOrderItems params))"
    by (simp_all add: merge_productIds)
  then show ?thesis
    by (auto simp: env_enumerates_def received_order_def enumerates_def mergeOrderItems_dom
        mergeOrderItems_mapOrder_dom mergeOrderItems_orderIds distinct_map inj_on_def)
qed

lemma worker_can_tick:
  "w_status w = Running \<Longrightarrow> worker_step w (tick (received_order (w_batch w) env) w)"
  by (rule step_tick [OF _ received_order_enumerates])

definition worker_start :: "database \<Rightarrow> worker" where
  "worker_start db = \<lparr>w_status = Running, w_queue = [], w_batch = [], w_db = db,
     w_chans = (\<lambda>n. chan_made), w_next = 0, w_waiting = {}\<rparr>"

inductive reachable :: "database \<Rightarrow> worker \<Rightarrow> bool" for db where
  reach_start: "reachable db (worker_start db)"
| reach_step: "reachable db w \<Longrightarrow> worker_step w w' \<Longrightarrow> reachable db w'"

lemma reachable_invariant:
  assumes "reachable db w" and "I (worker_start db)"
    and "\<And>w w'. I w \<Longrightarrow> worker_step w w' \<Longrightarrow> I w'"
  shows "I w"
  using assms(1) by (induction rule: reachable.induct) (auto intro: assms(2,3))

lemma tick_db: "w_db (tick env w) = (if w_batch w = [] then w_db w
    else fst (BatchCreateOrder env (w_db w) (w_chans w) (w_batch w)))"
  by (simp add: tick_def split: prod.split outcome.split sum.split)

lemma tick_same [simp]:
  "w_queue (tick env w) = w_queue w" "w_next (tick env w) = w_next w"
  "w_waiting (tick env w) = w_waiting w"
  by (simp_all add: tick_def split: prod.split outcome.split sum.split)

lemma other_steps_db [simp]:
  "w_db (enqueue p w) = w_db w" "w_db (receive w) = w_db w" "w_db (take_result n w) = w_db w"
  by (simp_all add: enqueue_def receive_def take_result_def split: list.split)

section \<open>The stock in every reachable state\<close>

lemma worker_step_stock:
  assumes "worker_step w w'" and "db_ok (w_db w) \<and> stock_nonneg (w_db w)"
  shows "db_ok (w_db w') \<and> stock_nonneg (w_db w')"
  using assms(1)
proof cases
  case (step_tick env)
  then show ?thesis
    using assms(2) BatchCreateOrder_ok [of env "w_db w" "w_chans w" "w_batch w"]
      BatchCreateOrder_nonneg [of env "w_db w" "w_chans w" "w_batch w"]
    by (cases "BatchCreateOrder env (w_db w) (w_chans w) (w_batch w)") (auto simp: tick_db)
qed (use assms(2) in simp_all)

lemma reachable_stock:
  assumes "reachable db0 w" and "db_ok db0" and "stock_nonneg db0"
  shows "db_ok (w_db w) \<and> stock_nonneg (w_db w)"
  using assms(1)
proof (rule reachable_invariant)
  show "db_ok (w_db (worker_start db0)) \<and> stock_nonneg (w_db (worker_start db0))"
    using assms(2,3) by (simp add: worker_start_def)
qed (rule worker_step_stock)

section \<open>Requests and their channels\<close>

definition pending :: "worker \<Rightarrow> create_order list" where
  "pending w = w_batch w @ w_queue w"

text \<open>Issued channels are pending or closed; pending requests have issued channels of their own.\<close>

definition channels_inv :: "worker \<Rightarrow> bool" where
  "channels_inv w \<longleftrightarrow>
     (\<forall>o1 \<in> set (pending w). \<exists>n < w_next w. co_ResultChannel o1 = Some n) \<and>
     distinct (map co_ResultChannel (pending w)) \<and>
     (\<forall>n < w_next w. Some n \<in> co_ResultChannel ` set (pending w) \<or> ch_closed (w_chans w n)) \<and>
     (\<forall>n \<ge> w_next w. w_chans w n = chan_made)"

lemma channels_inv_channel:
  "channels_inv w \<Longrightarrow> o1 \<in> set (pending w) \<Longrightarrow> \<exists>n < w_next w. co_ResultChannel o1 = Some n"
  by (simp add: channels_inv_def)

text \<open>No pending request has been answered; a batch that failed breaks this.\<close>

definition unanswered :: "worker \<Rightarrow> bool" where
  "unanswered w \<longleftrightarrow> (\<forall>o1 \<in> set (pending w). \<forall>n. co_ResultChannel o1 = Some n \<longrightarrow>
     w_chans w n = chan_made)"

definition poisoned :: "worker \<Rightarrow> bool" where
  "poisoned w \<longleftrightarrow> (\<exists>o1 \<in> set (w_batch w). \<exists>n. co_ResultChannel o1 = Some n \<and> ch_closed (w_chans w n))"

lemma batch_decide_not_blocked: "batch_decide env db params \<noteq> Blocked"
proof -
  have drop: "dropOrderItem mo k \<noteq> Blocked" for mo k
    by (simp add: dropOrderItem_def split: option.split)
  have pop: "popLoop q m mo \<noteq> Blocked" for q m mo
  proof (induction q m mo rule: popLoop.induct)
    case (1 q m mo)
    then show ?case
      using drop [of mo "uuid_String (roi_OrderID (last (moi_Items m)))"]
      by (subst popLoop.simps)
        (cases "dropOrderItem mo (uuid_String (roi_OrderID (last (moi_Items m))))"; simp)
  qed
  have check: "checkProduct maps r \<noteq> Blocked" for maps r
  proof -
    obtain mm mo where maps: "maps = (mm, mo)" by (cases maps)
    show ?thesis
    proof (cases "mm (uuid_String (product_ID r))")
      case None
      then show ?thesis by (simp add: maps checkProduct_def Let_def)
    next
      case (Some m)
      then show ?thesis
        using pop [of "product_Quantity r" m mo]
        by (cases "popLoop (product_Quantity r) m mo") (auto simp: maps checkProduct_def Let_def)
    qed
  qed
  have "go_for checkProduct s rs \<noteq> Blocked" for s rs
  proof (induction rs arbitrary: s)
    case Nil
    then show ?case by simp
  next
    case (Cons r rs)
    then show ?case using check [of s r] by (cases "checkProduct s r") auto
  qed
  then have "checkDecreaseQuantity products mm mo \<noteq> Blocked" for products mm mo
    by (simp add: checkDecreaseQuantity_def)
  then show ?thesis
    unfolding batch_decide_def Let_def
    by (cases "checkDecreaseQuantity (FindProductsByIds db (ms_productIds (mergeOrderItems params)))
        (ms_mapMergedOrderItem (mergeOrderItems params)) (ms_mapOrder (mergeOrderItems params))")
      (auto split: sum.split)
qed

text \<open>A batch that holds an answered request ends the process, whatever else happens.\<close>

lemma BatchCreateOrder_closed_panics:
  assumes "o1 \<in> set params" and "co_ResultChannel o1 = Some n" and "ch_closed (cs n)"
  shows "\<exists>db' m. BatchCreateOrder env db cs params = (db', Panic m)"
proof -
  have e: "\<exists>m. returnOrderError params err cs = Panic m" for err
    unfolding returnOrderError_def by (rule go_all_closed_panics [where cs = cs and n = n, OF assms])
  have r: "\<exists>m. returnOrderResult params res cs = Panic m" for res
    unfolding returnOrderResult_def by (rule go_all_closed_panics [where cs = cs and n = n, OF assms])
  have ne: "params \<noteq> []" using assms(1) by auto
  show ?thesis
  proof (cases "batch_decide env db params")
    case (Panic m)
    with ne show ?thesis by (simp add: BatchCreateOrder_def)
  next
    case Blocked
    with batch_decide_not_blocked show ?thesis by blast
  next
    case (Ret d)
    show ?thesis
    proof (cases d)
      case (Inl err)
      with Ret ne e [of err] show ?thesis by (auto simp: BatchCreateOrder_def)
    next
      case (Inr bd)
      show ?thesis
      proof (cases "batch_write env bd db")
        case (Inl err)
        with Ret \<open>d = Inr bd\<close> ne e [of err] show ?thesis by (auto simp: BatchCreateOrder_def)
      next
        case (Inr p)
        with Ret \<open>d = Inr bd\<close> ne r [of "snd p"] show ?thesis
          by (cases p) (auto simp: BatchCreateOrder_def)
      qed
    qed
  qed
qed

lemma poisoned_tick:
  assumes "poisoned w"
  shows "\<exists>m. w_status (tick env w) = Crashed m"
proof -
  from assms obtain o1 n where o1: "o1 \<in> set (w_batch w)" "co_ResultChannel o1 = Some n"
    "ch_closed (w_chans w n)" by (auto simp: poisoned_def)
  from BatchCreateOrder_closed_panics [where cs = "w_chans w" and n = n and env = env and
      db = "w_db w", OF this] obtain db' m where
    "BatchCreateOrder env (w_db w) (w_chans w) (w_batch w) = (db', Panic m)" by blast
  moreover have "w_batch w \<noteq> []" using o1(1) by auto
  ultimately show ?thesis by (simp add: tick_def)
qed

lemma unanswered_ready:
  assumes "channels_inv w" and "unanswered w"
  shows "channels_ready (w_batch w) (w_chans w)"
  unfolding channels_ready_def
proof (intro conjI ballI)
  show "distinct (map co_ResultChannel (w_batch w))"
    using assms(1) by (simp add: channels_inv_def pending_def)
  fix o1
  assume "o1 \<in> set (w_batch w)"
  then have o1: "o1 \<in> set (pending w)" by (simp add: pending_def)
  with assms(1) obtain n where "co_ResultChannel o1 = Some n" unfolding channels_inv_def by blast
  with o1 assms(2) show "\<exists>n. co_ResultChannel o1 = Some n \<and> w_chans w n = chan_made"
    unfolding unanswered_def by blast
qed

section \<open>The invariants along every step\<close>

definition worker_inv :: "worker \<Rightarrow> bool" where
  "worker_inv w \<longleftrightarrow> channels_inv w \<and> (w_status w = Running \<longrightarrow> unanswered w \<or> poisoned w)"

lemma pending_enqueue [simp]:
  "pending (enqueue p w) = pending w @ [p\<lparr>co_ResultChannel := Some (w_next w)\<rparr>]"
  by (simp add: pending_def enqueue_def)

lemma pending_receive [simp]: "pending (receive w) = pending w"
  by (simp add: pending_def receive_def split: list.split)

lemma channels_inv_cong:
  "pending w' = pending w \<Longrightarrow> w_next w' = w_next w \<Longrightarrow> w_chans w' = w_chans w \<Longrightarrow>
     channels_inv w' = channels_inv w"
  by (simp add: channels_inv_def)

lemma unanswered_cong:
  "pending w' = pending w \<Longrightarrow> w_chans w' = w_chans w \<Longrightarrow> unanswered w' = unanswered w"
  by (simp add: unanswered_def)

lemma channels_inv_enqueue: "channels_inv w \<Longrightarrow> channels_inv (enqueue p w)"
  unfolding channels_inv_def pending_enqueue by (fastforce simp: enqueue_def less_Suc_eq)

lemma unanswered_enqueue: "channels_inv w \<Longrightarrow> unanswered w \<Longrightarrow> unanswered (enqueue p w)"
  unfolding channels_inv_def unanswered_def pending_enqueue by (auto simp: enqueue_def)

lemma poisoned_enqueue: "poisoned w \<Longrightarrow> poisoned (enqueue p w)"
  by (simp add: poisoned_def enqueue_def)

lemma poisoned_receive: "poisoned w \<Longrightarrow> poisoned (receive w)"
  by (auto simp: poisoned_def receive_def split: list.split)

lemma enqueue_status [simp]: "w_status (enqueue p w) = w_status w"
  by (simp add: enqueue_def)

lemma receive_same [simp]:
  "w_next (receive w) = w_next w" "w_chans (receive w) = w_chans w"
  "w_status (receive w) = w_status w"
  by (simp_all add: receive_def split: list.split)

lemma take_result_closed:
  "ch_closed (w_chans (take_result n w) m) = ch_closed (w_chans w m)"
  by (simp add: take_result_def)

lemma go_all_send_unique:
  assumes "channels_ready params cs"
    and "go_all (\<lambda>cs o1. send_and_close (co_ResultChannel o1) (v o1) cs) cs params = Ret cs'"
  shows "(\<forall>o1 \<in> set params. \<forall>n. co_ResultChannel o1 = Some n \<longrightarrow> cs' n = answered (v o1)) \<and>
    (\<forall>n. Some n \<notin> co_ResultChannel ` set params \<longrightarrow> cs' n = cs n)"
  using go_all_send [OF assms(1), of v] assms(2) by auto

text \<open>A call that returns has answered every request of the batch, and nobody else.\<close>

lemma BatchCreateOrder_answers:
  assumes "BatchCreateOrder env db cs params = (db', Ret (cs', r))" and "params \<noteq> []"
    and "channels_ready params cs"
  shows "(\<forall>o1 \<in> set params. \<forall>n. co_ResultChannel o1 = Some n \<longrightarrow> cs' n = answered
      (case r of Inl err \<Rightarrow> \<lparr>res_Order = res_order_zero, res_Err = Some err\<rparr>
       | Inr res \<Rightarrow> order_result_of res o1)) \<and>
    (\<forall>n. Some n \<notin> co_ResultChannel ` set params \<longrightarrow> cs' n = cs n)"
proof (cases r)
  case (Inl err)
  with assms(1,2) have "returnOrderError params err cs = Ret cs'"
    by (auto simp: BatchCreateOrder_def split: outcome.splits sum.splits)
  then show ?thesis
    unfolding returnOrderError_def Inl by (simp add: go_all_send_unique [OF assms(3)])
next
  case (Inr res)
  with assms(1,2) have "returnOrderResult params res cs = Ret cs'"
    by (auto simp: BatchCreateOrder_def split: outcome.splits sum.splits)
  then show ?thesis
    unfolding returnOrderResult_def Inr by (simp add: go_all_send_unique [OF assms(3)])
qed

lemma inv_tick_answered:
  assumes "worker_inv w" and "w_status w = Running" and "w_batch w \<noteq> []" and "unanswered w"
    and "BatchCreateOrder env (w_db w) (w_chans w) (w_batch w) = (db', Ret (cs', r))"
  shows "worker_inv (tick env w)"
proof -
  have ci: "channels_inv w" using assms(1) by (simp add: worker_inv_def)
  have dist: "distinct (map co_ResultChannel (w_batch w @ w_queue w))"
    using ci by (simp add: channels_inv_def pending_def)
  have ans: "\<And>o1 n. o1 \<in> set (w_batch w) \<Longrightarrow> co_ResultChannel o1 = Some n \<Longrightarrow> ch_closed (cs' n)"
    and oth: "\<And>n. Some n \<notin> co_ResultChannel ` set (w_batch w) \<Longrightarrow> cs' n = w_chans w n"
    using BatchCreateOrder_answers [OF assms(5,3) unanswered_ready [OF ci assms(4)]]
    by (auto simp: answered_def)
  have queue: "\<And>o1. o1 \<in> set (w_queue w) \<Longrightarrow> co_ResultChannel o1 \<notin> co_ResultChannel ` set (w_batch w)"
    using dist by auto
  have closed: "Some n \<in> co_ResultChannel ` set (w_queue w) \<or> ch_closed (cs' n)" if "n < w_next w" for n
  proof (cases "Some n \<in> co_ResultChannel ` set (w_batch w)")
    case True
    then show ?thesis using ans by (metis imageE)
  next
    case False
    with ci that oth [OF False] show ?thesis by (auto simp: channels_inv_def pending_def)
  qed
  have fresh: "cs' n = chan_made" if "w_next w \<le> n" for n
  proof -
    have "Some n \<notin> co_ResultChannel ` set (w_batch w)"
    proof
      assume "Some n \<in> co_ResultChannel ` set (w_batch w)"
      then obtain o1 where "o1 \<in> set (pending w)" "co_ResultChannel o1 = Some n"
        unfolding pending_def by (metis UnCI imageE set_append)
      with ci that show False unfolding channels_inv_def by fastforce
    qed
    from oth [OF this] ci that show ?thesis by (simp add: channels_inv_def)
  qed
  show ?thesis
  proof (cases r)
    case (Inr res)
    have t: "tick env w = w\<lparr>w_db := db', w_chans := cs', w_batch := []\<rparr>"
      using assms(3,5) Inr by (simp add: tick_def)
    have "unanswered (tick env w)"
      unfolding unanswered_def
    proof (intro ballI allI impI)
      fix o1 n
      assume "o1 \<in> set (pending (tick env w))" and n: "co_ResultChannel o1 = Some n"
      then have o1: "o1 \<in> set (w_queue w)" by (simp add: pending_def t)
      from queue [OF o1] n oth [of n] have "cs' n = w_chans w n" by simp
      moreover have "w_chans w n = chan_made"
        using o1 n assms(4) unfolding unanswered_def pending_def by auto
      ultimately show "w_chans (tick env w) n = chan_made" by (simp add: t)
    qed
    moreover have "channels_inv (tick env w)"
      using ci closed fresh dist by (auto simp: channels_inv_def pending_def t)
    ultimately show ?thesis by (simp add: worker_inv_def)
  next
    case (Inl err)
    have t: "tick env w = w\<lparr>w_db := db', w_chans := cs'\<rparr>"
      using assms(3,5) Inl by (simp add: tick_def)
    obtain o1 where o1: "o1 \<in> set (w_batch w)" using assms(3) by (cases "w_batch w") auto
    then obtain n where n: "co_ResultChannel o1 = Some n"
      using channels_inv_channel [OF ci, of o1] by (auto simp: pending_def)
    with o1 ans [OF o1 n] have "poisoned (tick env w)" by (auto simp: poisoned_def t)
    moreover have "channels_inv (tick env w)"
      using ci closed fresh by (simp add: channels_inv_def pending_def t image_Un)
    ultimately show ?thesis by (simp add: worker_inv_def)
  qed
qed

lemma inv_tick:
  assumes "worker_inv w" and "w_status w = Running"
  shows "worker_inv (tick env w)"
proof (cases "w_batch w = []")
  case True
  with assms(1) show ?thesis by (simp add: tick_def)
next
  case False
  have ci: "channels_inv w" using assms(1) by (simp add: worker_inv_def)
  obtain db' out where b: "BatchCreateOrder env (w_db w) (w_chans w) (w_batch w) = (db', out)"
    by (cases "BatchCreateOrder env (w_db w) (w_chans w) (w_batch w)")
  show ?thesis
  proof (cases out)
    case (Panic m)
    then have t: "tick env w = w\<lparr>w_db := db', w_status := Crashed m\<rparr>"
      using False b by (simp add: tick_def)
    have "channels_inv (tick env w) = channels_inv w"
      by (rule channels_inv_cong) (simp_all add: t pending_def)
    with ci show ?thesis by (simp add: worker_inv_def t)
  next
    case Blocked
    then have t: "tick env w = w\<lparr>w_db := db', w_status := Stuck\<rparr>"
      using False b by (simp add: tick_def)
    have "channels_inv (tick env w) = channels_inv w"
      by (rule channels_inv_cong) (simp_all add: t pending_def)
    with ci show ?thesis by (simp add: worker_inv_def t)
  next
    case (Ret p)
    obtain cs' r where p: "p = (cs', r)" by (cases p)
    have "\<not> poisoned w"
      using poisoned_tick [of w env] b Ret p False assms(2)
      by (auto simp: tick_def split: sum.splits)
    with assms have "unanswered w" by (simp add: worker_inv_def)
    with assms False b Ret p show ?thesis by (simp add: inv_tick_answered)
  qed
qed

lemma inv_take_result:
  assumes "worker_inv w" and "ch_buf (w_chans w n) \<noteq> []"
  shows "worker_inv (take_result n w)"
proof -
  have ci: "channels_inv w" using assms(1) by (simp add: worker_inv_def)
  have made: "w_chans (take_result n w) m = chan_made" if "w_chans w m = chan_made" for m
    using that assms(2) by (auto simp: take_result_def chan_made_def)
  have same: "pending (take_result n w) = pending w" "w_next (take_result n w) = w_next w"
    "w_status (take_result n w) = w_status w" "w_batch (take_result n w) = w_batch w"
    by (simp_all add: take_result_def pending_def)
  have "channels_inv (take_result n w)"
    using ci made by (simp add: channels_inv_def same take_result_closed)
  moreover have "unanswered w \<Longrightarrow> unanswered (take_result n w)"
    using made by (simp add: unanswered_def same)
  moreover have "poisoned w \<Longrightarrow> poisoned (take_result n w)"
    by (simp add: poisoned_def same take_result_closed)
  ultimately show ?thesis using assms(1) by (auto simp: worker_inv_def same)
qed

lemma worker_inv_step:
  assumes "worker_step w w'" and "worker_inv w"
  shows "worker_inv w'"
  using assms(1)
proof cases
  case (step_enqueue param)
  then show ?thesis
    using assms(2) by (auto simp: worker_inv_def channels_inv_enqueue
        intro: unanswered_enqueue poisoned_enqueue)
next
  case step_receive
  then show ?thesis
    using assms(2) channels_inv_cong [of "receive w" w] unanswered_cong [of "receive w" w]
    by (auto simp: worker_inv_def intro: poisoned_receive)
next
  case (step_tick env)
  then show ?thesis using assms(2) by (simp add: inv_tick)
next
  case (step_result n)
  then show ?thesis using assms(2) by (simp add: inv_take_result)
next
  case (step_timeout n)
  have "pending w' = pending w" "w_chans w' = w_chans w" "w_next w' = w_next w"
    "w_batch w' = w_batch w" "w_status w' = w_status w"
    using step_timeout by (simp_all add: pending_def)
  with assms(2) show ?thesis by (simp add: worker_inv_def channels_inv_def unanswered_def poisoned_def)
next
  case step_stop
  have "pending w' = pending w" "w_chans w' = w_chans w" "w_next w' = w_next w"
    "w_status w' = Stopped"
    using step_stop by (simp_all add: pending_def)
  with assms(2) show ?thesis by (simp add: worker_inv_def channels_inv_def)
qed

lemma worker_inv_start: "worker_inv (worker_start db)"
  by (simp add: worker_inv_def channels_inv_def unanswered_def pending_def worker_start_def)

lemma reachable_worker_inv: "reachable db w \<Longrightarrow> worker_inv w"
  by (rule reachable_invariant) (auto intro: worker_inv_start worker_inv_step)

section \<open>One tick\<close>

text \<open>A tick of a batch that was not answered before fails as a whole and says so to everyone, or takes the
  batch on; a tick after which the worker still runs has answered everyone in it.\<close>

lemma tick_answers:
  assumes "worker_inv w" and "w_status w = Running" and "w_batch w \<noteq> []" and "w_status (tick env w) = Running"
  obtains cs' r where "snd (BatchCreateOrder env (w_db w) (w_chans w) (w_batch w)) = Ret (cs', r)"
    "w_chans (tick env w) = cs'" "w_batch (tick env w) = (case r of Inl err \<Rightarrow> w_batch w | Inr res \<Rightarrow> [])"
    "\<forall>o1 \<in> set (w_batch w). \<forall>n. co_ResultChannel o1 = Some n \<longrightarrow> cs' n = answered
      (case r of Inl err \<Rightarrow> \<lparr>res_Order = res_order_zero, res_Err = Some err\<rparr>
       | Inr res \<Rightarrow> order_result_of res o1)"
proof -
  have "\<not> poisoned w" using poisoned_tick [of w env] assms(4) by auto
  with assms(1,2) have ci: "channels_inv w" and un: "unanswered w" by (auto simp: worker_inv_def)
  obtain db' out where b: "BatchCreateOrder env (w_db w) (w_chans w) (w_batch w) = (db', out)"
    by (cases "BatchCreateOrder env (w_db w) (w_chans w) (w_batch w)")
  with assms(3,4) obtain cs' r where out: "out = Ret (cs', r)"
    by (cases out) (auto simp: tick_def)
  show ?thesis
    by (rule that [of cs' r])
      (use b out assms(3) BatchCreateOrder_answers [OF b [unfolded out] assms(3) unanswered_ready [OF ci un]] in
        \<open>auto simp: tick_def split: sum.split\<close>)
qed

text \<open>A tick that fails tells everyone in the batch the same error, writes nothing, and leaves a batch that has
  its answers.\<close>

lemma failed_tick:
  assumes "worker_inv w" and "w_status w = Running" and "w_batch w \<noteq> []"
    and "w_status (tick env w) = Running" and "w_batch (tick env w) \<noteq> []"
  shows "\<exists>err. \<forall>o1 \<in> set (w_batch w). \<forall>n. co_ResultChannel o1 = Some n \<longrightarrow>
      w_chans (tick env w) n = answered \<lparr>res_Order = res_order_zero, res_Err = Some err\<rparr>"
    and "w_db (tick env w) = w_db w" and "w_batch (tick env w) = w_batch w" and "poisoned (tick env w)"
proof -
  obtain cs' r where r: "snd (BatchCreateOrder env (w_db w) (w_chans w) (w_batch w)) = Ret (cs', r)"
    "w_chans (tick env w) = cs'" "w_batch (tick env w) = (case r of Inl err \<Rightarrow> w_batch w | Inr res \<Rightarrow> [])"
    "\<forall>o1 \<in> set (w_batch w). \<forall>n. co_ResultChannel o1 = Some n \<longrightarrow> cs' n = answered
      (case r of Inl err \<Rightarrow> \<lparr>res_Order = res_order_zero, res_Err = Some err\<rparr>
       | Inr res \<Rightarrow> order_result_of res o1)"
    by (rule tick_answers [OF assms(1-4)])
  with assms(5) obtain err where err: "r = Inl err" by (cases r) auto
  with r have ans: "\<forall>o1 \<in> set (w_batch w). \<forall>n. co_ResultChannel o1 = Some n \<longrightarrow>
      w_chans (tick env w) n = answered \<lparr>res_Order = res_order_zero, res_Err = Some err\<rparr>" by auto
  then show "\<exists>err. \<forall>o1 \<in> set (w_batch w). \<forall>n. co_ResultChannel o1 = Some n \<longrightarrow>
      w_chans (tick env w) n = answered \<lparr>res_Order = res_order_zero, res_Err = Some err\<rparr>" by blast
  show "w_db (tick env w) = w_db w"
    using r(1) err assms(3) by (auto simp: tick_db BatchCreateOrder_def split: outcome.splits sum.splits)
  show b: "w_batch (tick env w) = w_batch w" using r(3) err by simp
  obtain o1 where o1: "o1 \<in> set (w_batch w)" using assms(3) by (cases "w_batch w") auto
  then obtain n where n: "co_ResultChannel o1 = Some n"
    using channels_inv_channel [of w o1] assms(1) by (auto simp: pending_def worker_inv_def)
  with ans o1 have "ch_closed (w_chans (tick env w) n)" by (simp add: answered_def)
  with o1 n show "poisoned (tick env w)" unfolding poisoned_def b by blast
qed

section \<open>After the signal\<close>

text \<open>A worker that has stopped takes nothing from the queue, answers nobody and writes nothing.\<close>

lemma stopped_step:
  assumes "worker_step w w'" and "w_status w = Stopped"
  shows "w_status w' = Stopped \<and> w_db w' = w_db w \<and> prefix (w_queue w) (w_queue w') \<and> w_batch w' = w_batch w \<and>
    (\<forall>n. ch_closed (w_chans w' n) = ch_closed (w_chans w n))"
  using assms by (elim worker_stepE) (auto simp: enqueue_def take_result_def)

lemma stopped_steps:
  assumes "worker_step\<^sup>*\<^sup>* w w'" and "w_status w = Stopped"
  shows "w_status w' = Stopped \<and> w_db w' = w_db w \<and> prefix (w_queue w) (w_queue w') \<and> w_batch w' = w_batch w \<and>
    (\<forall>n. ch_closed (w_chans w' n) = ch_closed (w_chans w n))"
  using assms(1)
proof (induction rule: rtranclp_induct)
  case base
  with assms(2) show ?case by simp
next
  case (step w1 w2)
  with stopped_step [OF step.hyps(2)] show ?case by (auto intro: prefix_order.trans)
qed

end
