(* ===== verification/OrderSpec.thy ===== *)
theory OrderSpec
  imports OrderAccept
begin

text \<open>
  What a batch means, without maps, words, statements and channels: lines are served first come, first
  served; a product that once runs short serves nobody any more; an order exists when one of its lines
  was served. \<open>sell_refines\<close> shows that a committed batch does exactly this.
\<close>

section \<open>The abstract shop\<close>

text \<open>A line is its identifier, its order, its product and its quantity.\<close>

record line =
  ln_id :: uuid
  ln_order :: uuid
  ln_product :: uuid
  ln_quantity :: int

record shelf =
  sh_stock :: "uuid \<rightharpoonup> int"
  sh_orders :: "(uuid \<times> uuid) set"
  sh_lines :: "line set"

record counter =
  ct_stock :: "uuid \<rightharpoonup> int"
  ct_short :: "uuid set"
  ct_served :: "line list"

definition serve_line :: "counter \<Rightarrow> line \<Rightarrow> counter" where
  "serve_line c l =
     (case ct_stock c (ln_product l) of
        None \<Rightarrow> c
      | Some q \<Rightarrow>
          if ln_product l \<in> ct_short c then c
          else if ln_quantity l \<le> q
          then c\<lparr>ct_stock := (ct_stock c)(ln_product l \<mapsto> q - ln_quantity l), ct_served := ct_served c @ [l]\<rparr>
          else c\<lparr>ct_short := insert (ln_product l) (ct_short c)\<rparr>)"

definition serve_lines :: "(uuid \<rightharpoonup> int) \<Rightarrow> line list \<Rightarrow> counter" where
  "serve_lines stock ls = foldl serve_line \<lparr>ct_stock = stock, ct_short = {}, ct_served = []\<rparr> ls"

text \<open>A batch: orders with their user, and their lines in the order they came.\<close>

definition sell :: "(uuid \<times> uuid) list \<Rightarrow> line list \<Rightarrow> shelf \<Rightarrow> shelf" where
  "sell buyers ls s =
     (let c = serve_lines (sh_stock s) ls in
      \<lparr>sh_stock = ct_stock c,
       sh_orders = sh_orders s \<union> {(i, u) \<in> set buyers. i \<in> ln_order ` set (ct_served c)},
       sh_lines = sh_lines s \<union> set (ct_served c)\<rparr>)"

section \<open>The abstraction\<close>

definition line_of_item :: "req_order_item \<Rightarrow> line" where
  "line_of_item it = \<lparr>ln_id = roi_ID it, ln_order = roi_OrderID it, ln_product = roi_ProductID it,
     ln_quantity = sint (roi_Quantity it)\<rparr>"

definition line_of_row :: "order_item_row \<Rightarrow> line" where
  "line_of_row r = \<lparr>ln_id = oitem_ID r, ln_order = oitem_OrderID r, ln_product = oitem_ProductID r,
     ln_quantity = sint (oitem_Quantity r)\<rparr>"

definition shelf_of :: "database \<Rightarrow> shelf" where
  "shelf_of db =
     \<lparr>sh_stock = (\<lambda>p. map_option (\<lambda>r. sint (product_Quantity r))
        (find (\<lambda>r. product_ID r = p) (db_products db))),
      sh_orders = (\<lambda>r. (order_ID r, order_UserID r)) ` set (db_orders db),
      sh_lines = line_of_row ` set (db_order_items db)\<rparr>"

lemma line_of_item_sel [simp]:
  "ln_id (line_of_item it) = roi_ID it" "ln_order (line_of_item it) = roi_OrderID it"
  "ln_product (line_of_item it) = roi_ProductID it" "ln_quantity (line_of_item it) = sint (roi_Quantity it)"
  by (simp_all add: line_of_item_def)

lemma line_of_row_item [simp]: "line_of_row (item_row_of env it) = line_of_item it"
  by (simp add: line_of_row_def line_of_item_def)

section \<open>The counter serves the longest prefix that fits\<close>

definition quantity_of :: "req_order_item list \<Rightarrow> int" where
  "quantity_of xs = sum_list (map (\<lambda>it. sint (roi_Quantity it)) xs)"

lemma quantity_of_append [simp]: "quantity_of (xs @ ys) = quantity_of xs + quantity_of ys"
  by (simp add: quantity_of_def)

lemma quantity_of_simps [simp]: "quantity_of [] = 0" "quantity_of [x] = sint (roi_Quantity x)"
  by (simp_all add: quantity_of_def)

lemma quantity_of_nonneg: "\<forall>it \<in> set xs. 0 \<le> sint (roi_Quantity it) \<Longrightarrow> 0 \<le> quantity_of xs"
  unfolding quantity_of_def by (intro sum_list_nonneg) auto

text \<open>While the totals stay in 32 bits, the test of the loop is the test on integers.\<close>

lemma fits_quantity_of:
  assumes "\<forall>it \<in> set xs. 0 \<le> sint (roi_Quantity it)" and "quantity_of xs < 2 ^ 31" and "0 \<le> sint q"
  shows "fits q xs \<longleftrightarrow> quantity_of xs \<le> sint q"
proof -
  have "sint (total_quantity xs) = quantity_of xs"
    using assms(1,2) unfolding quantity_of_def by (rule sint_sum_quantities)
  moreover have "sint (q - total_quantity xs) = sint q - sint (total_quantity xs)"
    using assms(3) quantity_of_nonneg [OF assms(1)] calculation by (intro sint_diff_range diff_range) simp_all
  ultimately show ?thesis by (simp add: fits_def)
qed

text \<open>The counter after some items, seen from one product: \<open>q\<close> was its stock.\<close>

definition counts :: "int32 \<Rightarrow> uuid \<Rightarrow> req_order_item list \<Rightarrow> counter \<Rightarrow> bool" where
  "counts q p xs c \<longleftrightarrow>
     filter (\<lambda>l. ln_product l = p) (ct_served c) = map line_of_item (retained q (items_of_product p xs)) \<and>
     ct_stock c p = Some (sint q - quantity_of (retained q (items_of_product p xs))) \<and>
     (p \<in> ct_short c \<longleftrightarrow> retained q (items_of_product p xs) \<noteq> items_of_product p xs)"

lemma items_of_product_snoc: "items_of_product p (xs @ [x]) =
    (if roi_ProductID x = p then items_of_product p xs @ [x] else items_of_product p xs)"
  by (simp add: items_of_product_def)

lemma serve_other: "ln_product l \<noteq> p \<Longrightarrow> counts q p xs c \<Longrightarrow> counts q p xs (serve_line c l)"
  by (auto simp: counts_def serve_line_def split: option.split)

lemma serve_own:
  assumes "counts q p xs c" and "roi_ProductID x = p" and "0 \<le> sint q"
    and "\<forall>it \<in> set (items_of_product p (xs @ [x])). 0 \<le> sint (roi_Quantity it)"
    and "quantity_of (items_of_product p (xs @ [x])) < 2 ^ 31"
  shows "counts q p (xs @ [x]) (serve_line c (line_of_item x))"
proof -
  let ?ys = "items_of_product p xs"
  have snoc: "items_of_product p (xs @ [x]) = ?ys @ [x]" using assms(2) by (simp add: items_of_product_snoc)
  have x: "0 \<le> sint (roi_Quantity x)" using assms(4) unfolding snoc by simp
  have f: "fits q (?ys @ [x]) \<longleftrightarrow> quantity_of ?ys + sint (roi_Quantity x) \<le> sint q"
    using assms(4,5) unfolding snoc by (subst fits_quantity_of [OF _ _ assms(3)]) simp_all
  have fy: "fits q ?ys \<longleftrightarrow> quantity_of ?ys \<le> sint q"
    using assms(4,5) x unfolding snoc by (intro fits_quantity_of [OF _ _ assms(3)]) simp_all
  show ?thesis
  proof (cases "p \<in> ct_short c")
    case True
    with assms(1) have "\<not> fits q ?ys" unfolding counts_def using retained_all [of q ?ys] by blast
    with f fy x have "\<not> fits q (?ys @ [x])" by simp
    moreover have "retained q ?ys \<noteq> ?ys @ [x]"
      using prefix_length_le [OF retained_prefix [of q ?ys]] by auto
    ultimately show ?thesis
      using assms(1,2) True by (simp add: counts_def serve_line_def snoc retained_snoc)
  next
    case False
    with assms(1) have "retained q ?ys = ?ys" by (simp add: counts_def)
    with assms(1,2) False f show ?thesis
      by (auto simp: counts_def serve_line_def snoc retained_snoc)
  qed
qed

lemma counts_all:
  assumes "stock p = Some (sint q)" and "0 \<le> sint q"
    and "\<forall>it \<in> set (items_of_product p xs). 0 \<le> sint (roi_Quantity it)"
    and "quantity_of (items_of_product p xs) < 2 ^ 31"
  shows "counts q p xs (serve_lines stock (map line_of_item xs))"
  using assms(3,4)
proof (induction xs rule: rev_induct)
  case Nil
  then show ?case using assms(1) by (simp add: counts_def serve_lines_def items_of_product_def)
next
  case (snoc x xs)
  have step: "serve_lines stock (map line_of_item (xs @ [x])) =
      serve_line (serve_lines stock (map line_of_item xs)) (line_of_item x)"
    by (simp add: serve_lines_def)
  show ?case
  proof (cases "roi_ProductID x = p")
    case True
    then have own: "items_of_product p (xs @ [x]) = items_of_product p xs @ [x]"
      by (simp add: items_of_product_snoc)
    have "0 \<le> sint (roi_Quantity x)" using snoc.prems(1) unfolding own by simp
    with snoc.prems have "counts q p xs (serve_lines stock (map line_of_item xs))"
      unfolding own by (intro snoc.IH) simp_all
    from serve_own [OF this True assms(2) snoc.prems] show ?thesis by (simp only: step)
  next
    case False
    then have "items_of_product p (xs @ [x]) = items_of_product p xs" by (simp add: items_of_product_snoc)
    with snoc False have "counts q p xs (serve_lines stock (map line_of_item xs))" by simp
    from serve_other [OF _ this, of "line_of_item x"] False show ?thesis
      unfolding step by (simp add: counts_def items_of_product_snoc)
  qed
qed

text \<open>A product without stock serves nobody.\<close>

lemma serve_lines_known:
  "dom (ct_stock (serve_lines stock ls)) = dom stock \<and>
   ln_product ` set (ct_served (serve_lines stock ls)) \<subseteq> dom stock"
proof (induction ls rule: rev_induct)
  case Nil
  then show ?case by (simp add: serve_lines_def)
next
  case (snoc l ls)
  have "serve_lines stock (ls @ [l]) = serve_line (serve_lines stock ls) l" by (simp add: serve_lines_def)
  with snoc show ?case by (auto simp: serve_line_def split: option.splits)
qed

section \<open>A committed batch sells\<close>

lemma find_product_iff: "find (\<lambda>r. product_ID r = p) (db_products db) = Some r \<Longrightarrow>
    r \<in> set (db_products db) \<and> product_ID r = p"
  using find_Some_set by fastforce

lemma kept_counts:
  assumes "find (\<lambda>r. product_ID r = p) (db_products db) = Some r"
    and "stock_nonneg db" and "quantities_fit (batch_items params)"
  shows "counts (product_Quantity r) p (batch_items params)
    (serve_lines (sh_stock (shelf_of db)) (map line_of_item (batch_items params)))"
proof (rule counts_all)
  show "sh_stock (shelf_of db) p = Some (sint (product_Quantity r))" using assms(1) by (simp add: shelf_of_def)
  show "0 \<le> sint (product_Quantity r)"
    using find_product_iff [OF assms(1)] assms(2) by (simp add: stock_nonneg_def)
  show "\<forall>it \<in> set (items_of_product p (batch_items params)). 0 \<le> sint (roi_Quantity it)"
    using assms(3) by (simp add: quantities_fit_def items_of_product_def)
  have "quantity_of (items_of_product p (batch_items params)) \<le> quantity_of (batch_items params)"
    unfolding items_of_product_def quantity_of_def
    using assms(3) by (intro sum_quantities_filter) (simp add: quantities_fit_def)
  then show "quantity_of (items_of_product p (batch_items params)) < 2 ^ 31"
    using assms(3) by (simp add: quantities_fit_def quantity_of_def)
qed

lemma kept_quantity:
  assumes "quantities_fit (batch_items params)"
  shows "sint (total_quantity (kept db params p)) = quantity_of (kept db params p)"
  unfolding quantity_of_def
proof (rule sint_sum_quantities)
  let ?f = "\<lambda>it. sint (roi_Quantity it)"
  show "\<forall>it \<in> set (kept db params p). 0 \<le> ?f it"
    using assms kept_subset by (fastforce simp: quantities_fit_def)
  have "sum_list (map ?f (kept db params p)) \<le> sum_list (map ?f (items_of_product p (batch_items params)))"
    using assms by (intro sum_quantities_prefix [OF kept_prefix])
      (auto simp: quantities_fit_def items_of_product_def)
  also have "\<dots> \<le> sum_list (map ?f (batch_items params))"
    unfolding items_of_product_def using assms by (intro sum_quantities_filter) (auto simp: quantities_fit_def)
  finally show "sum_list (map ?f (kept db params p)) < 2 ^ 31" using assms by (simp add: quantities_fit_def)
qed

lemma served_set:
  assumes "batch_decide env db params = Ret (Inr bd)" and "batch_write env bd db = Inr (db', res)"
    and "db_ok db" and "env_enumerates env params" and "stock_nonneg db" and "quantities_fit (batch_items params)"
  shows "set (ct_served (serve_lines (sh_stock (shelf_of db)) (map line_of_item (batch_items params)))) =
    {line_of_item it | it p. it \<in> set (kept db params p)}"
    (is "set (ct_served ?c) = _")
proof -
  have at: "{l \<in> set (ct_served ?c). ln_product l = p} = line_of_item ` set (kept db params p)" for p
  proof (cases "find (\<lambda>r. product_ID r = p) (db_products db)")
    case None
    then have "p \<notin> dom (sh_stock (shelf_of db))" by (simp add: shelf_of_def domIff)
    with serve_lines_known [of "sh_stock (shelf_of db)" "map line_of_item (batch_items params)"]
    have "{l \<in> set (ct_served ?c). ln_product l = p} = {}" by auto
    moreover have "kept db params p = []"
      using None by (intro kept_unknown_product [OF assms(1-4)]) (auto simp: find_None_iff)
    ultimately show ?thesis by simp
  next
    case (Some r)
    from kept_counts [OF this assms(5,6)] Some
    have "filter (\<lambda>l. ln_product l = p) (ct_served ?c) = map line_of_item (kept db params p)"
      by (simp add: counts_def kept_def)
    then show ?thesis by (metis set_filter set_map)
  qed
  have "l \<in> set (ct_served ?c) \<longleftrightarrow> l \<in> line_of_item ` set (kept db params (ln_product l))" for l
    using at [of "ln_product l"] by auto
  moreover have "roi_ProductID it = p" if "it \<in> set (kept db params p)" for it p
    using kept_subset [OF that] by simp
  ultimately show ?thesis by fastforce
qed

lemma stock_sold:
  assumes "batch_decide env db params = Ret (Inr bd)" and "batch_write env bd db = Inr (db', res)"
    and "db_ok db" and "env_enumerates env params" and "stock_nonneg db" and "quantities_fit (batch_items params)"
  shows "sh_stock (shelf_of db') p =
    ct_stock (serve_lines (sh_stock (shelf_of db)) (map line_of_item (batch_items params))) p"
    (is "_ = ct_stock ?c p")
proof -
  have f: "find (\<lambda>r. product_ID r = p) (db_products db') =
      map_option (stock_row_after db params (env_now env)) (find (\<lambda>r. product_ID r = p) (db_products db))"
    unfolding stock_after(1) [OF assms(1-4)] by (rule find_map_same) simp
  show ?thesis
  proof (cases "find (\<lambda>r. product_ID r = p) (db_products db)")
    case None
    then have "p \<notin> dom (sh_stock (shelf_of db))" by (simp add: shelf_of_def domIff)
    with serve_lines_known [of "sh_stock (shelf_of db)" "map line_of_item (batch_items params)"]
    have "ct_stock ?c p = None" by auto
    with f None show ?thesis by (simp add: shelf_of_def)
  next
    case (Some r)
    from find_product_iff [OF this] have r: "r \<in> set (db_products db)" "product_ID r = p" by simp_all
    from kept_counts [OF Some assms(5,6)] Some
    have c: "ct_stock ?c p = Some (sint (product_Quantity r) - quantity_of (kept db params p))"
      by (simp add: counts_def kept_def)
    have "sint (product_Quantity (stock_row_after db params (env_now env) r)) =
        sint (product_Quantity r) - quantity_of (kept db params p)"
    proof (cases "p \<in> roi_ProductID ` set (batch_items params)")
      case True
      with stock_after(2) [OF assms(1-4) r(1)] r(2) have
        "int4_range (sint (product_Quantity r) - sint (total_quantity (kept db params p)))" by simp
      from sint_diff_range [OF this] True r(2) kept_quantity [OF assms(6)] show ?thesis
        by (simp add: stock_row_after_def)
    next
      case False
      then have "items_of_product p (batch_items params) = []" by (simp add: items_of_product_Nil_iff)
      with False r(2) Some show ?thesis by (simp add: stock_row_after_def kept_def)
    qed
    with c f Some show ?thesis by (simp add: shelf_of_def)
  qed
qed

lemma write_sells:
  assumes "batch_wf params" and "batch_decide env db params = Ret (Inr bd)"
    and "batch_write env bd db = Inr (db', res)" and "db_ok db" and "env_enumerates env params"
    and "stock_nonneg db" and "quantities_fit (batch_items params)"
  shows "shelf_of db' = sell (map (\<lambda>o1. (co_ID o1, co_UserId o1)) params)
    (map line_of_item (batch_items params)) (shelf_of db)"
proof -
  let ?c = "serve_lines (sh_stock (shelf_of db)) (map line_of_item (batch_items params))"
  note served = served_set [OF assms(2-7)]
  have "sh_stock (shelf_of db') = ct_stock ?c" using stock_sold [OF assms(2-7)] by blast
  moreover have "sh_lines (shelf_of db') = sh_lines (shelf_of db) \<union> set (ct_served ?c)"
  proof -
    have "line_of_row ` set (inserted_items env bd) = set (ct_served ?c)"
      unfolding served set_inserted_items [OF assms(2,4,5)] by (force intro!: image_eqI)
    then show ?thesis
      using batch_write_orders(2) [OF assms(3)]
      by (simp add: shelf_of_def inserted_items_def image_Un image_image)
  qed
  moreover have "sh_orders (shelf_of db') = sh_orders (shelf_of db) \<union>
      {(i, u) \<in> set (map (\<lambda>o1. (co_ID o1, co_UserId o1)) params). i \<in> ln_order ` set (ct_served ?c)}"
  proof -
    have conf: "confirmed db params i \<longleftrightarrow> i \<in> ln_order ` set (ct_served ?c)" for i
      unfolding served confirmed_iff by (force intro!: image_eqI)
    have "(\<lambda>r. (order_ID r, order_UserID r)) ` set (map order_of_params (prepareOrderArgs env (bd_mapOrder bd))) =
        (\<lambda>o1. (co_ID o1, co_UserId o1)) ` {o1 \<in> set params. confirmed db params (co_ID o1)}"
      unfolding set_inserted_orders [OF assms(1,2,4,5)] by (simp add: image_image order_row_of_def)
    also have "\<dots> = {(i, u) \<in> set (map (\<lambda>o1. (co_ID o1, co_UserId o1)) params). confirmed db params i}"
      by auto
    finally have "(\<lambda>r. (order_ID r, order_UserID r)) ` set (db_orders db') =
        (\<lambda>r. (order_ID r, order_UserID r)) ` set (db_orders db) \<union>
        {(i, u) \<in> set (map (\<lambda>o1. (co_ID o1, co_UserId o1)) params). confirmed db params i}"
      unfolding batch_write_orders(1) [OF assms(3)] set_append image_Un by (simp only:)
    moreover have "sh_orders (shelf_of d) = (\<lambda>r. (order_ID r, order_UserID r)) ` set (db_orders d)" for d
      by (simp add: shelf_of_def)
    ultimately show ?thesis by (simp only: conf)
  qed
  ultimately show ?thesis by (simp add: sell_def Let_def)
qed

end
