(* ===== verification/OrderBounds.thy ===== *)
theory OrderBounds
  imports OrderSpec
begin

text \<open>
  What 32 bits do to a sale. The quantities of a batch are added in \<open>int32\<close>, so what a batch sells and
  what it takes from the stock agree up to a multiple of \<open>2 ^ 32\<close>; they are equal as long as the
  quantities requested of the product stay below \<open>2 ^ 31\<close>.
\<close>

lemma stock_of_nonneg: "stock_nonneg db \<Longrightarrow> 0 \<le> sint (stock_of db p)"
  by (auto simp: stock_of_def stock_nonneg_def split: option.split dest: find_product_iff)

definition pieces_of :: "database \<Rightarrow> uuid \<Rightarrow> int" where
  "pieces_of db p =
     sum_list (map (\<lambda>i. sint (oitem_Quantity i)) (filter (\<lambda>i. oitem_ProductID i = p) (db_order_items db)))"

lemma pieces_of_write:
  assumes "batch_decide env db params = Ret (Inr bd)" and "batch_write env bd db = Inr (db', res)"
    and "db_ok db" and "env_enumerates env params"
  shows "pieces_of db' p = pieces_of db p + quantity_of (kept db params p)"
proof -
  have "db_order_items db' = db_order_items db @ inserted_items env bd"
    using batch_write_orders(2) [OF assms(2)] by (simp add: inserted_items_def)
  then show ?thesis
    using inserted_of_product [OF assms(1,3,4), of p]
    by (simp add: pieces_of_def quantity_of_def o_def)
qed

lemma total_quantity_word: "total_quantity xs = word_of_int (quantity_of xs)"
  by (induction xs) (simp_all add: total_quantity_def quantity_of_def)

lemma wrapped_difference:
  assumes "b = a - word_of_int T"
  obtains k where "T = sint (a :: int32) - sint b + k * 2 ^ 32"
proof -
  have "word_of_int (sint a - T) = (word_of_int (sint b) :: int32)" using assms by simp
  then have "(sint a - T) mod 2 ^ 32 = sint b mod 2 ^ 32" unfolding word_of_int_eq_iff by (simp add: take_bit_eq_mod)
  then have "2 ^ 32 dvd (sint a - T) - sint b" by (simp only: mod_eq_dvd_iff)
  then obtain j where "(sint a - T) - sint b = 2 ^ 32 * j" by (elim dvdE)
  then have "T = sint a - sint b + (- j) * 2 ^ 32" by simp
  then show ?thesis by (rule that)
qed

text \<open>Integers \<open>k\<close> turns of the 32 bits apart: a sale of positive quantities never turns backwards, and does
  not turn at all below \<open>2 ^ 31\<close>.\<close>

lemma turns_bounds:
  assumes "T = sint (a :: int32) - sint (b :: int32) + k * 2 ^ 32" and "0 \<le> T" and "0 \<le> sint a" and "0 \<le> sint b"
  shows "0 \<le> k" and "T < 2 ^ 31 \<Longrightarrow> k = 0"
  using assms int4_range_sint [of a] int4_range_sint [of b] by (simp_all add: int4_range_def)

lemma quantity_of_kept:
  assumes "\<forall>it \<in> set (items_of_product p (batch_items params)). 0 \<le> sint (roi_Quantity it)"
  shows "0 \<le> quantity_of (kept db params p)"
    and "quantity_of (kept db params p) \<le> quantity_of (items_of_product p (batch_items params))"
proof -
  have "set (kept db params p) \<subseteq> set (items_of_product p (batch_items params))"
    by (rule set_mono_prefix [OF kept_prefix])
  with assms show "0 \<le> quantity_of (kept db params p)" by (intro quantity_of_nonneg) blast
  show "quantity_of (kept db params p) \<le> quantity_of (items_of_product p (batch_items params))"
    unfolding quantity_of_def using assms by (intro sum_quantities_prefix [OF kept_prefix])
qed

lemma write_turns:
  assumes "batch_decide env db params = Ret (Inr bd)" and "batch_write env bd db = Inr (db', res)"
    and "db_ok db" and "env_enumerates env params" and "stock_nonneg db"
    and "\<forall>it \<in> set (items_of_product p (batch_items params)). 0 \<le> sint (roi_Quantity it)"
  shows "\<exists>k \<ge> 0. pieces_of db' p - pieces_of db p = sint (stock_of db p) - sint (stock_of db' p) + k * 2 ^ 32 \<and>
    (quantity_of (items_of_product p (batch_items params)) < 2 ^ 31 \<longrightarrow> k = 0)"
proof -
  have s: "stock_of db' p = stock_of db p - word_of_int (quantity_of (kept db params p))"
    using stock_of_write [OF assms(1-4)] by (simp add: total_quantity_word)
  then obtain k where k: "quantity_of (kept db params p) = sint (stock_of db p) - sint (stock_of db' p) + k * 2 ^ 32"
    by (rule wrapped_difference)
  have n: "0 \<le> sint (stock_of db p)" "0 \<le> sint (stock_of db' p)"
    using stock_of_nonneg assms(5) stock_nonneg_write [OF assms(1-5)] by blast+
  note q = quantity_of_kept [OF assms(6), of db]
  have "0 \<le> k" "quantity_of (kept db params p) < 2 ^ 31 \<Longrightarrow> k = 0"
    using turns_bounds [OF k q(1) n] by auto
  with k q(2) pieces_of_write [OF assms(1-4), of p] show ?thesis by (intro exI [of _ k]) auto
qed

end
