(* ===== verification/OrderRuns.thy ===== *)
theory OrderRuns
  imports OrderWorker OrderBounds
begin

text \<open>
  The worker as a whole against the shop of \<open>OrderSpec\<close>. A run remembers the orders it was sent; whatever
  the worker does, the orders are, in the sequence they arrived, cut into batches that were sold, the
  batch it holds and the queue, and the database is the shop after the sales of those batches.
\<close>

section \<open>Runs\<close>

definition sell_batch :: "create_order list \<Rightarrow> shelf \<Rightarrow> shelf" where
  "sell_batch params =
     sell (map (\<lambda>o1. (co_ID o1, co_UserId o1)) params) (map line_of_item (batch_items params))"

text \<open>An order as it came, before \<open>Checkout\<close> gave it a result channel.\<close>

definition as_sent :: "create_order \<Rightarrow> create_order" where
  "as_sent o1 = o1\<lparr>co_ResultChannel := None\<rparr>"

definition sane_batch :: "create_order list \<Rightarrow> bool" where
  "sane_batch params \<longleftrightarrow> batch_wf params \<and> quantities_fit (batch_items params)"

inductive sane_run :: "database \<Rightarrow> create_order list \<Rightarrow> worker \<Rightarrow> bool" for db0 where
  run_start: "sane_run db0 [] (worker_start db0)"
| run_enqueue: "sane_run db0 rs w \<Longrightarrow> \<not> crashed w \<Longrightarrow> length (w_queue w) < queue_capacity \<Longrightarrow>
    sane_run db0 (rs @ [param]) (enqueue param w)"
| run_step: "sane_run db0 rs w \<Longrightarrow> worker_step w w' \<Longrightarrow> w_next w' = w_next w \<Longrightarrow> sane_batch (w_batch w) \<Longrightarrow>
    sane_run db0 rs w'"

lemma sane_run_reachable: "sane_run db0 rs w \<Longrightarrow> reachable db0 w"
  by (induction rule: sane_run.induct) (auto intro: reach_start reach_step step_enqueue)

section \<open>The simulation\<close>

lemma BatchCreateOrder_sells:
  assumes "sane_batch params" and "db_ok db" and "stock_nonneg db" and "env_enumerates env params"
    and "BatchCreateOrder env db cs params = (db', out)"
  shows "shelf_of db' = shelf_of db \<and> (\<forall>cs' res. out \<noteq> Ret (cs', Inr res)) \<or>
    shelf_of db' = sell_batch params (shelf_of db) \<and> (\<forall>cs' err. out \<noteq> Ret (cs', Inl err))"
proof -
  have sells: "shelf_of db' = sell_batch params (shelf_of db)"
    if "batch_decide env db params = Ret (Inr bd)" "batch_write env bd db = Inr (db', res)" for bd res
    using write_sells [OF _ that assms(2,4,3)] assms(1) by (simp add: sane_batch_def sell_batch_def)
  show ?thesis
  proof (cases "\<exists>cs' res. out = Ret (cs', Inr res)")
    case True
    with assms(5) obtain bd res where
      "batch_decide env db params = Ret (Inr bd)" "batch_write env bd db = Inr (db', res)"
      by (auto simp: BatchCreateOrder_def split: if_splits outcome.splits sum.splits)
    from sells [OF this] True show ?thesis by auto
  next
    case False
    from assms(5) show ?thesis
    proof (cases rule: BatchCreateOrder_db)
      case unchanged
      with False show ?thesis by auto
    next
      case (committed bd res)
      from sells [OF committed(2,3)] committed(4) show ?thesis
        by (cases "returnOrderResult params res cs") auto
    qed
  qed
qed

definition accounts :: "database \<Rightarrow> create_order list \<Rightarrow> worker \<Rightarrow> create_order list list \<Rightarrow> bool" where
  "accounts db0 rs w batches \<longleftrightarrow>
     map as_sent rs = map as_sent (concat batches @ w_batch w @ w_queue w) \<and>
     (shelf_of (w_db w) = fold sell_batch batches (shelf_of db0) \<or>
      w_status w \<notin> {Running, Stopped} \<and>
        shelf_of (w_db w) = fold sell_batch (batches @ [w_batch w]) (shelf_of db0))"

lemma accounts_tick:
  assumes "accounts db0 rs w batches" and "w_status w = Running" and "sane_batch (w_batch w)"
    and "env_enumerates env (w_batch w)" and "db_ok (w_db w)" and "stock_nonneg (w_db w)"
  shows "\<exists>batches'. accounts db0 rs (tick env w) batches'"
proof (cases "w_batch w = []")
  case True
  with assms(1) show ?thesis by (auto simp: tick_def)
next
  case False
  obtain db' out where b: "BatchCreateOrder env (w_db w) (w_chans w) (w_batch w) = (db', out)"
    by (metis surj_pair)
  have s: "shelf_of (w_db w) = fold sell_batch batches (shelf_of db0)"
    and rs: "map as_sent rs = map as_sent (concat batches @ w_batch w @ w_queue w)"
    using assms(1,2) by (auto simp: accounts_def)
  note sells = BatchCreateOrder_sells [OF assms(3,5,6,4) b]
  show ?thesis
  proof (cases "\<exists>cs' res. out = Ret (cs', Inr res)")
    case True
    then obtain cs' res where out: "out = Ret (cs', Inr res)" by blast
    then have "tick env w = w\<lparr>w_db := db', w_chans := cs', w_batch := []\<rparr>"
      using False b by (simp add: tick_def)
    with sells out s rs have "accounts db0 rs (tick env w) (batches @ [w_batch w])"
      by (simp add: accounts_def)
    then show ?thesis by blast
  next
    case no: False
    then have t: "w_db (tick env w) = db'" "w_batch (tick env w) = w_batch w"
      "w_status (tick env w) \<notin> {Running, Stopped} \<longleftrightarrow> \<not> (\<exists>p. out = Ret p)"
      using False b assms(2) by (cases out; auto simp: tick_def split: sum.split)+
    have "shelf_of db' = shelf_of (w_db w) \<or> \<not> (\<exists>p. out = Ret p)"
      using sells no by (metis prod.exhaust sum.exhaust)
    with sells t s rs have "accounts db0 rs (tick env w) batches"
      by (auto simp: accounts_def)
    then show ?thesis by blast
  qed
qed

lemma as_sent_channel [simp]: "as_sent (o1\<lparr>co_ResultChannel := c\<rparr>) = as_sent o1"
  by (simp add: as_sent_def)

lemma run_accounts:
  assumes "sane_run db0 rs w" and "db_ok db0" and "stock_nonneg db0"
  shows "\<exists>batches. accounts db0 rs w batches"
  using assms(1)
proof (induction rule: sane_run.induct)
  case run_start
  show ?case by (intro exI [of _ "[]"]) (simp add: accounts_def worker_start_def)
next
  case (run_enqueue rs w param)
  then show ?case by (auto simp: accounts_def enqueue_def)
next
  case (run_step rs w w')
  then obtain batches where a: "accounts db0 rs w batches" by blast
  have ok: "db_ok (w_db w)" "stock_nonneg (w_db w)"
    using reachable_stock [OF sane_run_reachable [OF run_step.hyps(1)] assms(2,3)] by auto
  from run_step.hyps(2) show ?case
  proof cases
    case (step_enqueue param)
    with run_step.hyps(3) show ?thesis by (simp add: enqueue_def)
  next
    case step_receive
    with a show ?thesis by (cases "w_queue w") (auto simp: accounts_def receive_def)
  next
    case (step_tick env)
    with accounts_tick [OF a _ run_step.hyps(4) _ ok] show ?thesis by blast
  next
    case (step_result n)
    with a show ?thesis by (auto simp: accounts_def take_result_def)
  next
    case (step_timeout n)
    with a show ?thesis by (auto simp: accounts_def)
  next
    case step_stop
    with a show ?thesis by (auto simp: accounts_def)
  qed
qed

section \<open>A batch that is tried again\<close>

text \<open>What a call does to the tables does not depend on the channels: a batch whose requesters have their
  answer is sold all the same.\<close>

lemma retry_sells:
  assumes "batch_valid db params" and "db_ok db" and "stock_nonneg db" and "env_enumerates env params"
    and "no_faults env"
  shows "shelf_of (fst (BatchCreateOrder env db cs params)) = sell_batch params (shelf_of db)"
proof -
  have v: "batch_admitted db params" "quantities_fit (batch_items params)" "batch_wf params" "params \<noteq> []"
    using assms(1) by (auto simp: batch_valid_def batch_admitted_def)
  from accept_batch [OF v(1) totals_nonneg_fit [OF v(2)] assms(2-5)] obtain bd db' res where
    b: "batch_decide env db params = Ret (Inr bd)" "batch_write env bd db = Inr (db', res)" by blast
  from write_sells [OF v(3) b assms(2,4,3) v(2)] b v(4) show ?thesis
    by (simp add: BatchCreateOrder_def sell_batch_def)
qed

end
