(* ===== verification/OrderClaims.thy ===== *)
theory OrderClaims
  imports OrderRuns
begin

text \<open>
  The properties of the order service, each with a concrete instance. The instances share one
  small shop: one user, one product with one piece in stock, and two orders for it.
\<close>

section \<open>A small shop\<close>

definition uid :: "byte \<Rightarrow> uuid" where
  "uid b = UUID 0 0 0 0 0 0 0 0 0 0 0 0 0 0 0 b"

lemma uid_eq [simp]: "uid a = uid b \<longleftrightarrow> a = b"
  by (simp add: uid_def)

definition shop_price :: decimal where
  "shop_price = \<lparr>dec_value = Some 1250, dec_exp = -2\<rparr>"

definition shop_user :: user_row where
  "shop_user = \<lparr>user_ID = uid 1, user_Username = ''ana'', user_Email = ''ana@shop'',
     user_Password = ''hash'', user_CreatedAt = timestamptz_of_time 0,
     user_UpdatedAt = timestamptz_of_time 0\<rparr>"

definition shop_product :: "int32 \<Rightarrow> product_row" where
  "shop_product q = \<lparr>product_ID = uid 2, product_Name = ''lamp'',
     product_Price = numeric_of_decimal shop_price, product_Quantity = q,
     product_CreatedAt = timestamptz_of_time 0, product_UpdatedAt = timestamptz_of_time 0\<rparr>"

definition shop_db :: database where
  "shop_db = \<lparr>db_users = [shop_user], db_products = [shop_product 1], db_carts = [],
     db_cart_items = [], db_orders = [], db_order_items = []\<rparr>"

text \<open>An order of one item; \<open>i\<close> is the order, \<open>j\<close> the item, \<open>p\<close> the product.\<close>

definition shop_item :: "byte \<Rightarrow> byte \<Rightarrow> byte \<Rightarrow> int32 \<Rightarrow> req_order_item" where
  "shop_item i j p q = \<lparr>roi_CreatedAt = 0, roi_UpdatedAt = 0, roi_ID = uid j, roi_OrderID = uid i,
     roi_ProductID = uid p, roi_Price = shop_price, roi_Quantity = q\<rparr>"

definition shop_order :: "byte \<Rightarrow> byte \<Rightarrow> byte \<Rightarrow> nat \<Rightarrow> create_order" where
  "shop_order i j p n = \<lparr>co_OrderItems = [shop_item i j p 1], co_CreatedAt = 0, co_UpdatedAt = 0,
     co_ID = uid i, co_UserId = uid 1, co_ResultChannel = Some n\<rparr>"

definition shop_env :: "string list \<Rightarrow> string list \<Rightarrow> batch_env" where
  "shop_env ps os = \<lparr>env_begin = None, env_find = None, env_update = None, env_insertOrders = None,
     env_insertItems = None, env_getOrders = None, env_commit = None, env_now = 5,
     env_created = (\<lambda>u. 5), env_updated = (\<lambda>u. 5), env_queryKeys = ps, env_orderKeys = os,
     env_itemKeys = ps\<rparr>"

definition two_orders :: "create_order list" where
  "two_orders = [shop_order 10 20 2 0, shop_order 11 21 2 1]"

definition two_env :: batch_env where
  "two_env = shop_env [uuid_String (uid 2)] [uuid_String (uid 10), uuid_String (uid 11)]"

definition fresh_chans :: chans where
  "fresh_chans = (\<lambda>n. chan_made)"

lemmas shop_defs = shop_price_def shop_user_def shop_product_def shop_db_def shop_item_def
  shop_order_def shop_env_def two_orders_def two_env_def fresh_chans_def

lemma shop_db_ok: "db_ok shop_db"
  by (simp add: db_ok_def shop_defs)

lemma shop_stock: "stock_nonneg shop_db"
  by (simp add: stock_nonneg_def shop_defs)

lemma two_env_enumerates: "env_enumerates two_env two_orders"
  by (auto simp: env_enumerates_def enumerates_def mergeOrderItems_dom mergeOrderItems_mapOrder_dom shop_defs)

lemma two_orders_valid: "batch_valid shop_db two_orders" "batch_admitted shop_db two_orders"
  "totals_nonneg shop_db two_orders" "batch_wf two_orders"
proof -
  show v: "batch_valid shop_db two_orders"
    by (auto simp: batch_valid_def batch_admitted_def batch_wf_def quantities_fit_def shop_defs)
  then show "batch_admitted shop_db two_orders" "totals_nonneg shop_db two_orders"
    by (simp_all add: batch_valid_def totals_nonneg_fit)
  then show "batch_wf two_orders" by (simp add: batch_admitted_def)
qed

lemma two_orders_ready: "channels_ready two_orders fresh_chans"
  by (simp add: channels_ready_def shop_defs)

lemma two_no_faults: "no_faults two_env"
  by (simp add: no_faults_def shop_defs)

section \<open>Stock\<close>

text \<open>C1: whatever a batch holds and whichever call fails in it, \<open>BatchCreateOrder\<close> commits no
  state in which a product's stock is below zero.\<close>

theorem batch_never_oversells:
  assumes "db_ok db" and "stock_nonneg db" and "env_enumerates env params"
  shows "stock_nonneg (fst (BatchCreateOrder env db cs params))"
  using assms BatchCreateOrder_nonneg [of env db cs params]
  by (cases "BatchCreateOrder env db cs params") simp

theorem batch_never_oversells_witness:
  "stock_nonneg (fst (BatchCreateOrder two_env shop_db fresh_chans two_orders))"
  by (rule batch_never_oversells [OF shop_db_ok shop_stock two_env_enumerates])

text \<open>In every state the order worker can reach, through any sequence of requests, ticks,
  failures and time-outs, the schema's constraints hold and no stock is below zero.\<close>

lemma worker_never_oversells:
  assumes "reachable db0 w" and "db_ok db0" and "stock_nonneg db0"
  shows "db_ok (w_db w) \<and> stock_nonneg (w_db w)"
  using assms by (rule reachable_stock)

text \<open>C3: stock plus ordered quantity of every product is the same before and after a batch,
  committed or not (in 32-bit arithmetic).\<close>

theorem batch_balances_stock:
  assumes "db_ok db" and "env_enumerates env params"
    and "BatchCreateOrder env db cs params = (db', out)"
  shows "stock_of db' p + ordered_of db' p = stock_of db p + ordered_of db p"
  using assms(3)
proof (rule BatchCreateOrder_db)
  fix bd res
  assume "batch_decide env db params = Ret (Inr bd)" "batch_write env bd db = Inr (db', res)"
  from stock_of_write [OF this assms(1,2)] ordered_of_write [OF this assms(1,2)]
  show ?thesis by simp
qed simp

theorem batch_balances_stock_witness:
  "\<exists>db' out. BatchCreateOrder two_env shop_db fresh_chans two_orders = (db', out) \<and>
     stock_of db' (uid 2) + ordered_of db' (uid 2) = stock_of shop_db (uid 2) + ordered_of shop_db (uid 2)"
  using batch_balances_stock [OF shop_db_ok two_env_enumerates]
  by (metis prod.exhaust)

section \<open>Which items stay\<close>

text \<open>C4: of the items of one product, in the order they were received, the loop of
  \<open>checkDecreaseQuantity\<close> keeps the longest prefix whose total the stock covers.\<close>

theorem popLoop_keeps_longest_prefix:
  assumes "popLoop q (merged_of xs) mo = Ret (m', mo')"
  shows "prefix (moi_Items m') xs \<and> (moi_Items m' = [] \<or> fits q (moi_Items m')) \<and>
    moi_OrderedItemQuantity m' = total_quantity (moi_Items m') \<and>
    (\<forall>ys. prefix ys xs \<and> fits q ys \<longrightarrow> length ys \<le> length (moi_Items m'))"
  using popLoop_retained [OF assms] retained_prefix [of q xs] retained_fits [of q xs]
    retained_maximal [of _ xs q]
  by auto

theorem popLoop_keeps_longest_prefix_witness:
  "\<exists>m' mo'. popLoop 3 (merged_of [shop_item 10 20 2 2, shop_item 11 21 2 2]) Map.empty = Ret (m', mo') \<and>
     (\<forall>ys. prefix ys [shop_item 10 20 2 2, shop_item 11 21 2 2] \<and> fits 3 ys \<longrightarrow>
        length ys \<le> length (moi_Items m'))"
proof -
  have "popLoop 3 (merged_of [shop_item 10 20 2 2, shop_item 11 21 2 2]) Map.empty =
      Ret (merged_of [shop_item 10 20 2 2], Map.empty)"
    by (simp add: popLoop_merged_of fits_def dropOrderItem_def shop_defs)
  from popLoop_keeps_longest_prefix [OF this] this show ?thesis by blast
qed

text \<open>C5: \<open>mergeOrderItems\<close> groups the items of a batch by product, in the order received, with
  their (wrapped) total; it lists each product once, every order identifier, and keeps the first
  order of each identifier.\<close>

theorem mergeOrderItems_groups:
  "(\<forall>p. ms_mapMergedOrderItem (mergeOrderItems params) (uuid_String p) =
      (if p \<in> roi_ProductID ` set (batch_items params)
       then Some (merged_of (items_of_product p (batch_items params))) else None)) \<and>
   dom (ms_mapMergedOrderItem (mergeOrderItems params)) =
      uuid_String ` roi_ProductID ` set (batch_items params) \<and>
   distinct (ms_productIds (mergeOrderItems params)) \<and>
   set (ms_productIds (mergeOrderItems params)) = roi_ProductID ` set (batch_items params) \<and>
   ms_orderIds (mergeOrderItems params) = map co_ID params \<and>
   (\<forall>i. ms_mapOrder (mergeOrderItems params) (uuid_String i) = first_order params i)"
  by (simp only: merge_map_at mergeOrderItems_dom merge_productIds mergeOrderItems_orderIds
      mergeOrderItems_mapOrder simp_thms)

section \<open>Answers\<close>

text \<open>C6: a batch whose identifiers are distinct and whose items name their own order never
  panics and never blocks: the call returns, and every request finds exactly one message on its
  channel, which is closed.\<close>

theorem batch_answers_everyone:
  assumes "batch_wf params" and "params \<noteq> []" and "channels_ready params cs"
  shows "\<exists>cs' r. snd (BatchCreateOrder env db cs params) = Ret (cs', r) \<and>
    (\<forall>o1 \<in> set params. \<forall>n. co_ResultChannel o1 = Some n \<longrightarrow> cs' n = answered
      (case r of Inl err \<Rightarrow> \<lparr>res_Order = res_order_zero, res_Err = Some err\<rparr>
       | Inr res \<Rightarrow> order_result_of res o1))"
proof -
  obtain db' out where b: "BatchCreateOrder env db cs params = (db', out)"
    by (cases "BatchCreateOrder env db cs params")
  with BatchCreateOrder_returns [OF assms(1,3), of env db] obtain cs' r where "out = Ret (cs', r)"
    by auto
  with b BatchCreateOrder_answers [of env db cs params db' cs' r, OF _ assms(2,3)] show ?thesis by auto
qed

theorem batch_answers_everyone_witness:
  "\<exists>cs' r. snd (BatchCreateOrder two_env shop_db fresh_chans two_orders) = Ret (cs', r) \<and>
     ch_closed (cs' 0) \<and> ch_closed (cs' 1)"
proof -
  have "batch_wf two_orders" "two_orders \<noteq> []" by (simp_all add: batch_wf_def shop_defs)
  from batch_answers_everyone [OF this two_orders_ready, of two_env shop_db]
  show ?thesis by (auto simp: shop_defs answered_def)
qed

lemma admitted_batch_commits:
  assumes "batch_admitted db params" and "totals_nonneg db params" and "db_ok db" and "stock_nonneg db"
    and "env_enumerates env params" and "no_faults env" and "channels_ready params cs"
  shows "\<exists>bd db' res cs'. batch_decide env db params = Ret (Inr bd) \<and>
    batch_write env bd db = Inr (db', res) \<and>
    BatchCreateOrder env db cs params = (db', Ret (cs', Inr res))"
proof -
  from accept_batch [OF assms(1-6)] obtain bd db' res where
    b: "batch_decide env db params = Ret (Inr bd)" "batch_write env bd db = Inr (db', res)" by blast
  moreover obtain cs' where "returnOrderResult params res cs = Ret cs'"
    using returnOrderResult_ready [OF assms(7)] by blast
  moreover have "params \<noteq> []" using assms(1) by (auto simp: batch_admitted_def)
  ultimately show ?thesis by (auto simp: BatchCreateOrder_def)
qed

lemma two_orders_commit:
  "\<exists>bd db' res cs'. batch_decide two_env shop_db two_orders = Ret (Inr bd) \<and>
     batch_write two_env bd shop_db = Inr (db', res) \<and>
     BatchCreateOrder two_env shop_db fresh_chans two_orders = (db', Ret (cs', Inr res))"
  by (rule admitted_batch_commits [OF two_orders_valid(2,3) shop_db_ok shop_stock two_env_enumerates
      two_no_faults two_orders_ready])

lemma kept_two: "kept shop_db two_orders (uid 2) = [shop_item 10 20 2 1]"
  by (simp add: kept_def retained_def fits_def shop_defs)

text \<open>C7: a batch of known users and products, fresh identifiers and sane quantities commits when
  no infrastructure call fails.\<close>

theorem valid_batch_is_accepted:
  assumes "batch_valid db params" and "db_ok db" and "stock_nonneg db" and "env_enumerates env params"
    and "no_faults env" and "channels_ready params cs"
  shows "\<exists>db' res cs'. BatchCreateOrder env db cs params = (db', Ret (cs', Inr res))"
  using admitted_batch_commits [OF _ _ assms(2-6)] assms(1) totals_nonneg_fit by (auto simp: batch_valid_def)

theorem valid_batch_is_accepted_witness:
  "\<exists>db' res cs'. BatchCreateOrder two_env shop_db fresh_chans two_orders = (db', Ret (cs', Inr res))"
  by (rule valid_batch_is_accepted [OF two_orders_valid(1) shop_db_ok shop_stock two_env_enumerates
      two_no_faults two_orders_ready])

text \<open>C8: after a committed batch, a request of which no item was kept is told that the product is
  out of stock; any other is told its order, which holds exactly its kept items.\<close>

theorem committed_batch_tells_the_truth:
  assumes "BatchCreateOrder env db cs params = (db', Ret (cs', Inr res))"
    and "batch_wf params" and "db_ok db" and "env_enumerates env params" and "channels_ready params cs"
    and "o1 \<in> set params" and "co_ResultChannel o1 = Some n"
  shows "(if confirmed db params (co_ID o1)
     then cs' n = answered \<lparr>res_Order = res_order_of_row db' (order_row_of env o1), res_Err = None\<rparr> \<and>
       set (items_of_order db' (co_ID o1)) =
         {item_row_of env it | it p. it \<in> set (kept db params p) \<and> roi_OrderID it = co_ID o1}
     else cs' n = answered \<lparr>res_Order = res_order_zero, res_Err = Some ErrOutOfStock\<rparr>)"
proof -
  have ne: "params \<noteq> []" using assms(6) by auto
  from assms(1) ne obtain bd where bd: "batch_decide env db params = Ret (Inr bd)"
    "batch_write env bd db = Inr (db', res)"
    by (auto simp: BatchCreateOrder_def split: outcome.splits sum.splits)
  have "cs' n = answered (order_result_of res o1)"
    using BatchCreateOrder_answers [OF assms(1) ne assms(5)] assms(6,7) by simp
  moreover note response_of [OF assms(2) bd assms(3,4,6)]
  moreover have "set (items_of_order db' (co_ID o1)) =
      {item_row_of env it | it p. it \<in> set (kept db params p) \<and> roi_OrderID it = co_ID o1}"
    if "confirmed db params (co_ID o1)"
    using items_of_new_order [OF bd(2) assms(3) new_order_fresh(2) [OF assms(2) bd assms(3,4,6) that]]
      set_inserted_items [OF bd(1) assms(3,4)] by auto
  ultimately show ?thesis by (simp add: order_result_of_def)
qed

theorem committed_batch_tells_the_truth_witness:
  "\<exists>db' cs' res. BatchCreateOrder two_env shop_db fresh_chans two_orders = (db', Ret (cs', Inr res)) \<and>
     cs' 1 = answered \<lparr>res_Order = res_order_zero, res_Err = Some ErrOutOfStock\<rparr>"
proof -
  obtain db' cs' res where b:
    "BatchCreateOrder two_env shop_db fresh_chans two_orders = (db', Ret (cs', Inr res))"
    using two_orders_commit by blast
  note wf = two_orders_valid(4)
  have "\<not> confirmed shop_db two_orders (uid 11)"
    using kept_two by (auto simp: confirmed_def two_orders_def shop_order_def shop_item_def)
  with committed_batch_tells_the_truth [OF b wf shop_db_ok two_env_enumerates two_orders_ready,
      of "shop_order 11 21 2 1" 1]
  have "cs' 1 = answered \<lparr>res_Order = res_order_zero, res_Err = Some ErrOutOfStock\<rparr>"
    by (simp add: two_orders_def shop_order_def)
  with b show ?thesis by blast
qed



text \<open>C10: a batch adds its quantities in 32 bits. If the quantities requested of a product are positive and
  add up to less than \<open>2 ^ 31\<close>, the stock goes down by exactly what was sold; in general the two differ by
  a multiple of \<open>2 ^ 32\<close>, and the bound is sharp: three orders of 2147483647, 2147483647 and 2 pieces are
  all accepted when one piece is left, and that piece stays in the stock.\<close>

theorem batch_sells_within_bounds:
  assumes "db_ok db" and "stock_nonneg db" and "env_enumerates env params"
    and "\<forall>it \<in> set (items_of_product p (batch_items params)). 1 \<le> sint (roi_Quantity it)"
    and "BatchCreateOrder env db cs params = (db', out)"
  shows "\<exists>k \<ge> 0. pieces_of db' p - pieces_of db p = sint (stock_of db p) - sint (stock_of db' p) + k * 2 ^ 32 \<and>
    (sum_list (map (\<lambda>it. sint (roi_Quantity it)) (items_of_product p (batch_items params))) < 2 ^ 31 \<longrightarrow> k = 0)"
  using assms(5)
proof (rule BatchCreateOrder_db)
  fix bd res
  assume b: "batch_decide env db params = Ret (Inr bd)" "batch_write env bd db = Inr (db', res)"
  have "\<forall>it \<in> set (items_of_product p (batch_items params)). 0 \<le> sint (roi_Quantity it)" using assms(4) by auto
  from write_turns [OF b assms(1,3,2) this] show ?thesis unfolding quantity_of_def .
next
  assume "db' = db"
  then show ?thesis by (intro exI [of _ 0]) simp
qed

definition flood_order :: "byte \<Rightarrow> byte \<Rightarrow> int32 \<Rightarrow> nat \<Rightarrow> create_order" where
  "flood_order i j q n = (shop_order i j 2 n)\<lparr>co_OrderItems := [shop_item i j 2 q]\<rparr>"

definition flood :: "create_order list" where
  "flood = [flood_order 10 20 2147483647 0, flood_order 11 21 2147483647 1, flood_order 12 22 2 2]"

definition flood_env :: batch_env where
  "flood_env = shop_env [uuid_String (uid 2)] [uuid_String (uid 10), uuid_String (uid 11), uuid_String (uid 12)]"

lemma flood_items: "batch_items flood = [shop_item 10 20 2 2147483647, shop_item 11 21 2 2147483647, shop_item 12 22 2 2]"
  by (simp add: flood_def flood_order_def)

lemma flood_kept: "kept shop_db flood p = items_of_product p (batch_items flood)"
proof (cases "p = uid 2")
  case True
  have "fits 1 (batch_items flood)" by (simp add: fits_def flood_items shop_item_def total_quantity_def)
  with True show ?thesis
    by (simp add: kept_def shop_db_def shop_product_def items_of_product_def flood_items shop_item_def retained_all)
next
  case False
  then show ?thesis by (simp add: kept_def shop_db_def shop_product_def)
qed

lemma flood_admitted: "batch_admitted shop_db flood" "totals_nonneg shop_db flood" "env_enumerates flood_env flood"
  "channels_ready flood fresh_chans" "no_faults flood_env"
proof -
  show "batch_admitted shop_db flood"
    by (auto simp: batch_admitted_def batch_wf_def flood_items) (auto simp: flood_def flood_order_def shop_defs)
  show "totals_nonneg shop_db flood"
    unfolding totals_nonneg_def flood_kept by (simp add: items_of_product_def flood_items shop_item_def total_quantity_def)
  show "env_enumerates flood_env flood" "channels_ready flood fresh_chans" "no_faults flood_env"
    by (auto simp: env_enumerates_def enumerates_def mergeOrderItems_dom mergeOrderItems_mapOrder_dom channels_ready_def
        no_faults_def flood_env_def flood_def flood_order_def shop_defs)
qed

theorem batch_sells_within_bounds_witness:
  "\<exists>db' cs' res k. BatchCreateOrder flood_env shop_db fresh_chans flood = (db', Ret (cs', Inr res)) \<and>
     pieces_of db' (uid 2) = 2 ^ 32 \<and> stock_of db' (uid 2) = 1 \<and> 2 ^ 32 = k * (2 ^ 32 :: int) \<and> 0 \<le> k"
proof -
  obtain bd db' res cs' where b: "batch_decide flood_env shop_db flood = Ret (Inr bd)"
    "batch_write flood_env bd shop_db = Inr (db', res)"
    "BatchCreateOrder flood_env shop_db fresh_chans flood = (db', Ret (cs', Inr res))"
    using admitted_batch_commits [OF flood_admitted(1,2) shop_db_ok shop_stock flood_admitted(3,5,4)] by blast
  have i: "items_of_product (uid 2) (batch_items flood) = batch_items flood"
    by (simp add: items_of_product_def flood_items shop_item_def)
  have q: "quantity_of (batch_items flood) = 2 ^ 32" "total_quantity (batch_items flood) = 0"
    by (simp_all add: quantity_of_def total_quantity_def flood_items shop_item_def)
  have s: "pieces_of shop_db (uid 2) = 0" "stock_of shop_db (uid 2) = 1"
    by (simp_all add: pieces_of_def stock_of_def shop_db_def shop_product_def)
  have p: "pieces_of db' (uid 2) = 2 ^ 32" "stock_of db' (uid 2) = 1"
    using pieces_of_write [OF b(1,2) shop_db_ok flood_admitted(3), of "uid 2"]
      stock_of_write [OF b(1,2) shop_db_ok flood_admitted(3), of "uid 2"] s q by (simp_all add: flood_kept i)
  have "\<forall>it \<in> set (items_of_product (uid 2) (batch_items flood)). 1 \<le> sint (roi_Quantity it)"
    by (simp add: i flood_items shop_item_def)
  from batch_sells_within_bounds [OF shop_db_ok shop_stock flood_admitted(3) this b(3)] p s b(3) show ?thesis by auto
qed

text \<open>C11: a batch that fails stays in the worker after everyone in it was told the error, and the next tick,
  whatever the database does in it, ends the process with a send on a closed channel or an earlier panic.
  When the second attempt meets no failure the orders are placed before the process dies, although
  their requesters were refused.\<close>

theorem failed_batch_crashes_next_tick:
  assumes "reachable db0 w" and "w_status w = Running" and "w_batch w \<noteq> []"
    and "w_status (tick env w) = Running" and "w_batch (tick env w) \<noteq> []"
  shows "(\<exists>err. \<forall>o1 \<in> set (w_batch w). \<forall>n. co_ResultChannel o1 = Some n \<longrightarrow>
      w_chans (tick env w) n = answered \<lparr>res_Order = res_order_zero, res_Err = Some err\<rparr>) \<and>
    w_db (tick env w) = w_db w \<and>
    (\<exists>m. w_status (tick env' (tick env w)) = Crashed m) \<and>
    (db_ok db0 \<and> stock_nonneg db0 \<and> batch_valid (w_db w) (w_batch w) \<and> env_enumerates env' (w_batch w) \<and>
      no_faults env' \<longrightarrow>
      shelf_of (w_db (tick env' (tick env w))) = sell_batch (w_batch w) (shelf_of (w_db w)))"
proof -
  have inv: "worker_inv w" by (rule reachable_worker_inv [OF assms(1)])
  note f = failed_tick [OF inv assms(2-5)]
  have "shelf_of (w_db (tick env' (tick env w))) = sell_batch (w_batch w) (shelf_of (w_db w))"
    if "db_ok db0" "stock_nonneg db0" "batch_valid (w_db w) (w_batch w)" "env_enumerates env' (w_batch w)" "no_faults env'"
    using retry_sells [OF that(3) _ _ that(4,5)] reachable_stock [OF assms(1) that(1,2)] assms(5) f(2,3)
    by (simp add: tick_db)
  with f(1,2) poisoned_tick [OF f(4)] show ?thesis by blast
qed

definition one_order :: worker where
  "one_order = receive (enqueue (shop_order 10 20 2 0) (worker_start shop_db))"

definition conn_lost :: go_error where
  "conn_lost = ErrNew ''conn closed''"

definition one_env :: batch_env where
  "one_env = shop_env [uuid_String (uid 2)] [uuid_String (uid 10)]"

lemma sent_and_received: "reachable db (receive (enqueue param (worker_start db)))"
proof -
  have "reachable db (enqueue param (worker_start db))"
    by (rule reach_step [OF reach_start step_enqueue])
      (simp_all add: worker_start_def queue_capacity_def crashed_def)
  then show ?thesis
    by (rule reach_step) (rule step_receive; simp add: worker_start_def enqueue_def)
qed

lemma one_order_sel:
  "w_status one_order = Running" "w_batch one_order = [shop_order 10 20 2 0]" "w_queue one_order = []"
  "w_db one_order = shop_db" "w_chans one_order = fresh_chans" "w_next one_order = 1"
  by (simp_all add: one_order_def receive_def enqueue_def worker_start_def shop_order_def fresh_chans_def)

lemma one_order_valid: "batch_valid shop_db [shop_order 10 20 2 0]" "env_enumerates one_env [shop_order 10 20 2 0]"
  "no_faults one_env"
  by (auto simp: batch_valid_def batch_admitted_def batch_wf_def quantities_fit_def env_enumerates_def enumerates_def
      mergeOrderItems_dom mergeOrderItems_mapOrder_dom one_env_def no_faults_def shop_defs)

theorem failed_batch_crashes_next_tick_witness:
  "\<exists>m. w_status (tick one_env (tick (one_env\<lparr>env_begin := Some conn_lost\<rparr>) one_order)) = Crashed m \<and>
     shelf_of (w_db (tick one_env (tick (one_env\<lparr>env_begin := Some conn_lost\<rparr>) one_order))) =
       sell_batch [shop_order 10 20 2 0] (shelf_of shop_db)"
proof -
  let ?env = "one_env\<lparr>env_begin := Some conn_lost\<rparr>"
  obtain err where e: "batch_decide ?env shop_db [shop_order 10 20 2 0] = Ret (Inl err)"
    by (simp add: batch_decide_def step_err_def Let_def)
  have r: "channels_ready [shop_order 10 20 2 0] fresh_chans" by (simp add: channels_ready_def shop_defs)
  obtain cs' where "returnOrderError [shop_order 10 20 2 0] err fresh_chans = Ret cs'"
    using returnOrderError_ready [OF r] by blast
  with e have f: "w_status (tick ?env one_order) = Running \<and> w_batch (tick ?env one_order) \<noteq> []"
    by (simp add: tick_def one_order_sel BatchCreateOrder_def)
  from failed_batch_crashes_next_tick [OF sent_and_received [of shop_db "shop_order 10 20 2 0", folded one_order_def], of ?env one_env]
    f one_order_valid shop_db_ok shop_stock show ?thesis by (auto simp: one_order_sel)
qed

definition one_request :: worker where
  "one_request = receive (enqueue (shop_order 11 21 99 0) (worker_start shop_db))"

lemma one_request_reachable: "reachable shop_db one_request"
  unfolding one_request_def by (rule sent_and_received)

lemma one_request_sel:
  "w_status one_request = Running" "w_batch one_request = [shop_order 11 21 99 0]"
  "w_db one_request = shop_db" "w_chans one_request = fresh_chans" "w_next one_request = 1"
  by (simp_all add: one_request_def receive_def enqueue_def worker_start_def shop_order_def
      fresh_chans_def)

text \<open>C39: whoever sends a checkout again takes the order service down: a retry after a time-out, which finds
  the cart still there, or a body sent twice. When a batch holds a request whose order is already in
  the table, and the stock still serves one of its items, the whole batch is refused, everyone in it,
  and the tick after that ends the process; or the process ends at once.\<close>

theorem repeated_checkout_ends_the_process:
  assumes "reachable db0 w" and "db_ok db0" and "stock_nonneg db0" and "w_status w = Running"
    and "batch_wf (w_batch w)" and "env_enumerates env (w_batch w)" and "o1 \<in> set (w_batch w)"
    and "co_ID o1 \<in> order_ID ` set (db_orders (w_db w))" and "confirmed (w_db w) (w_batch w) (co_ID o1)"
  shows "w_db (tick env w) = w_db w \<and>
    (w_status (tick env w) = Running \<longrightarrow> (\<exists>err. \<forall>o2 \<in> set (w_batch w). \<forall>n. co_ResultChannel o2 = Some n \<longrightarrow>
      w_chans (tick env w) n = answered \<lparr>res_Order = res_order_zero, res_Err = Some err\<rparr>)) \<and>
    (\<exists>m. w_status (tick env' (tick env w)) = Crashed m)"
proof -
  have inv: "worker_inv w" by (rule reachable_worker_inv [OF assms(1)])
  have ok: "db_ok (w_db w)" using reachable_stock [OF assms(1-3)] by simp
  have ne: "w_batch w \<noteq> []" using assms(7) by auto
  have refused: "batch_write env bd (w_db w) \<noteq> Inr (db', res)"
    if "batch_decide env (w_db w) (w_batch w) = Ret (Inr bd)" for bd db' res
    using new_order_fresh(2) [OF assms(5) that _ ok assms(6,7,9)] assms(8) by blast
  have db: "w_db (tick env w) = w_db w"
    using refused by (auto simp: tick_db BatchCreateOrder_def split: outcome.split sum.split)
  have p: "poisoned (tick env w) \<and> (w_status (tick env w) = Running \<longrightarrow> w_batch (tick env w) \<noteq> [])"
  proof (cases "poisoned w")
    case True
    with poisoned_tick [OF True, of env] assms(4) show ?thesis
      by (auto simp: poisoned_def tick_def split: prod.splits outcome.splits sum.splits if_splits)
  next
    case False
    with inv assms(4) have "channels_ready (w_batch w) (w_chans w)"
      by (auto simp: worker_inv_def intro: unanswered_ready)
    from BatchCreateOrder_returns [OF assms(5) this] obtain cs' r where
      out: "snd (BatchCreateOrder env (w_db w) (w_chans w) (w_batch w)) = Ret (cs', r)" by blast
    then obtain err where "r = Inl err"
      using refused ne by (cases r) (auto simp: BatchCreateOrder_def split: outcome.splits sum.splits)
    with out ne assms(4) have t: "w_status (tick env w) = Running" "w_batch (tick env w) \<noteq> []"
      by (cases "BatchCreateOrder env (w_db w) (w_chans w) (w_batch w)"; simp add: tick_def)+
    with failed_tick(4) [OF inv assms(4) ne t] show ?thesis by simp
  qed
  with db failed_tick(1) [OF inv assms(4) ne] poisoned_tick show ?thesis by blast
qed

definition again_db :: database where
  "again_db = shop_db\<lparr>db_products := [shop_product 5], db_orders := [order_row_of one_env (shop_order 10 20 2 0)]\<rparr>"

definition again :: worker where
  "again = receive (enqueue (shop_order 10 20 2 0) (worker_start again_db))"

lemma again_sel: "w_status again = Running" "w_batch again = [shop_order 10 20 2 0]" "w_db again = again_db"
  by (simp_all add: again_def receive_def enqueue_def worker_start_def shop_order_def)

theorem repeated_checkout_ends_the_process_witness:
  "\<exists>m. w_status (tick one_env (tick one_env again)) = Crashed m \<and> w_db (tick one_env again) = again_db"
proof -
  let ?o = "shop_order 10 20 2 0"
  have db: "db_ok again_db" "stock_nonneg again_db" "uid 10 \<in> order_ID ` set (db_orders again_db)"
    by (simp_all add: again_db_def db_ok_def stock_nonneg_def order_row_of_def shop_defs)
  have b: "batch_wf [?o]" "env_enumerates one_env [?o]" "co_ID ?o = uid 10"
    using one_order_valid by (simp_all add: batch_wf_def shop_defs)
  have "confirmed again_db [?o] (uid 10)"
    by (simp add: confirmed_def batch_items_def kept_def items_of_product_def retained_all fits_def total_quantity_def
        again_db_def shop_defs)
  from repeated_checkout_ends_the_process [OF sent_and_received [of again_db ?o, folded again_def] db(1,2), of one_env ?o one_env]
    this b db(3) show ?thesis by (auto simp: again_sel)
qed

text \<open>C12: no request gets lost: in every reachable state, each result channel that was handed out belongs to
  a request in the queue, or to one in the batch that the next tick answers unless it ends the process,
  or has been answered and closed. The next tick is always possible.\<close>

theorem no_request_is_lost:
  assumes "reachable db0 w" and "n < w_next w"
  shows "(\<exists>o1 \<in> set (w_queue w). co_ResultChannel o1 = Some n) \<or>
    (\<exists>o1 \<in> set (w_batch w). co_ResultChannel o1 = Some n) \<and>
      (w_status w = Running \<longrightarrow> worker_step w (tick (received_order (w_batch w) env1) w) \<and>
        (w_status (tick env w) = Running \<longrightarrow> ch_closed (w_chans (tick env w) n))) \<or>
    ch_closed (w_chans w n)"
proof -
  have inv: "worker_inv w" by (rule reachable_worker_inv [OF assms(1)])
  with assms(2) have "Some n \<in> co_ResultChannel ` set (pending w) \<or> ch_closed (w_chans w n)"
    unfolding channels_inv_def worker_inv_def by blast
  moreover have "ch_closed (w_chans (tick env w) n)"
    if "o1 \<in> set (w_batch w)" "co_ResultChannel o1 = Some n" "w_status w = Running" "w_status (tick env w) = Running" for o1
  proof -
    from that(1) have "w_batch w \<noteq> []" by auto
    from tick_answers [OF inv that(3) this that(4)] that(1,2) show ?thesis by (metis answered_def chan.select_convs(2))
  qed
  ultimately show ?thesis using worker_can_tick [of w env1] unfolding pending_def by fastforce
qed

theorem no_request_is_lost_witness:
  "(\<exists>o1 \<in> set (w_queue one_request). co_ResultChannel o1 = Some 0) \<or>
   (\<exists>o1 \<in> set (w_batch one_request). co_ResultChannel o1 = Some 0) \<or> ch_closed (w_chans one_request 0)"
  using no_request_is_lost [OF one_request_reachable, of 0] by (auto simp: one_request_sel)

text \<open>C32: the worker is a shop that sells in the order it was asked. Whatever the handlers send, in
  batches the specification covers, and however ticks, failures and time-outs fall: the orders received are, in
  order, those of the batches sold, of the batch in hand and of the queue, and the tables are those of the
  shop after these sales, one after the other; only a worker that has died may have sold the batch in hand
  as well.\<close>

theorem worker_sells_what_it_received:
  assumes "sane_run db0 rs w" and "db_ok db0" and "stock_nonneg db0"
  shows "\<exists>batches. map as_sent rs = map as_sent (concat batches @ w_batch w @ w_queue w) \<and>
    (shelf_of (w_db w) = fold sell_batch batches (shelf_of db0) \<or>
     w_status w \<notin> {Running, Stopped} \<and>
       shelf_of (w_db w) = fold sell_batch (batches @ [w_batch w]) (shelf_of db0))"
  using run_accounts [OF assms] unfolding accounts_def .

theorem worker_sells_what_it_received_witness:
  "\<exists>batches. map as_sent [shop_order 10 20 2 0] =
       map as_sent (concat batches @ w_batch (tick one_env one_order) @ w_queue (tick one_env one_order)) \<and>
     sane_run shop_db [shop_order 10 20 2 0] (tick one_env one_order)"
proof -
  let ?o = "shop_order 10 20 2 0"
  have "sane_run shop_db [?o] (enqueue ?o (worker_start shop_db))"
    by (rule run_enqueue [OF run_start, unfolded append_Nil])
      (simp_all add: worker_start_def queue_capacity_def crashed_def)
  then have "sane_run shop_db [?o] one_order"
    unfolding one_order_def
    by (elim run_step [OF _ step_receive])
      (simp_all add: worker_start_def enqueue_def sane_batch_def batch_wf_def quantities_fit_def)
  then have r: "sane_run shop_db [?o] (tick one_env one_order)"
    using one_order_valid
    by (rule_tac run_step [OF _ step_tick]) (simp_all add: one_order_sel sane_batch_def batch_valid_def batch_admitted_def)
  from worker_sells_what_it_received [OF r shop_db_ok shop_stock] r show ?thesis by blast
qed

text \<open>C24: stopping strands the requests that are on their way: once the worker has stopped at the signal, a
  request it has not answered is still in the queue or the batch and is never answered, and no order is
  written any more, whatever the handlers go on doing.\<close>

theorem stopping_strands_requests:
  assumes "reachable db0 w" and "w_status w = Stopped" and "n < w_next w" and "\<not> ch_closed (w_chans w n)"
    and "worker_step\<^sup>*\<^sup>* w w'"
  shows "(\<exists>o1 \<in> set (w_queue w') \<union> set (w_batch w'). co_ResultChannel o1 = Some n) \<and>
    \<not> ch_closed (w_chans w' n) \<and> w_db w' = w_db w"
proof -
  note s = stopped_steps [OF assms(5,2)]
  have "channels_inv w" using reachable_worker_inv [OF assms(1)] by (simp add: worker_inv_def)
  with assms(3,4) have "Some n \<in> co_ResultChannel ` set (pending w)" unfolding channels_inv_def by blast
  then obtain o1 where o1: "o1 \<in> set (w_queue w) \<union> set (w_batch w)" "co_ResultChannel o1 = Some n"
    unfolding pending_def by fastforce
  have "set (w_queue w) \<subseteq> set (w_queue w')" using s set_mono_prefix by blast
  with o1 s assms(4) show ?thesis by (metis UnE UnI1 UnI2 subsetD)
qed

theorem stopping_strands_requests_witness:
  "\<not> ch_closed (w_chans (enqueue (shop_order 12 22 2 0) (one_request\<lparr>w_status := Stopped\<rparr>)) 0) \<and>
   w_db (enqueue (shop_order 12 22 2 0) (one_request\<lparr>w_status := Stopped\<rparr>)) = shop_db"
proof -
  let ?w = "one_request\<lparr>w_status := Stopped\<rparr>"
  have r: "reachable shop_db ?w"
    by (rule reach_step [OF one_request_reachable]) (rule step_stop, simp add: one_request_sel)
  have w: "w_status ?w = Stopped" "0 < w_next ?w" "\<not> ch_closed (w_chans ?w 0)"
    by (simp_all add: one_request_sel fresh_chans_def chan_made_def)
  have "w_queue ?w = []"
    by (simp add: one_request_def receive_def enqueue_def worker_start_def)
  then have "worker_step ?w (enqueue (shop_order 12 22 2 0) ?w)"
    by (intro step_enqueue) (simp_all add: crashed_def queue_capacity_def)
  from stopping_strands_requests [OF r w r_into_rtranclp [where r = worker_step, OF this]]
  show ?thesis by (simp add: one_request_sel)
qed

section \<open>The statements of a batch\<close>



text \<open>C14: the iterators behind \<open>COPY\<close> hand over every row once and in order, and \<open>Values\<close> is
  never called on an empty slice.\<close>

theorem copy_hands_over_every_row:
  "copy_loop cols \<lparr>ci_rows = rows, ci_skippedFirstNextCall = False\<rparr> = Ret (map cols rows)"
  by (rule copy_loop_fresh)

section \<open>Where the code breaks\<close>










end
