(* ===== verification/CacheStore.thy ===== *)
theory CacheStore
  imports Mapper
begin

text \<open>
  The JSON cache of the services (Redis behind \<open>go-redis\<close>): the calls they make as a record of
  operations, what they rely on as a locale, and the encodings of what they store. \<open>redis_ops\<close> is
  a typed key-value store with those laws that can also be down.
\<close>

section \<open>The operations\<close>

text \<open>\<open>JSONGet(...).Result()\<close>: an error (\<open>redis.Nil\<close> for an absent key), an empty text, or JSON.\<close>

record 's cache_ops =
  JSONGet :: "string \<Rightarrow> 's \<Rightarrow> go_error + json option"
  JSONSet :: "string \<Rightarrow> json \<Rightarrow> 's \<Rightarrow> go_error option \<times> 's"
  JSONDel :: "string \<Rightarrow> 's \<Rightarrow> go_error option \<times> 's"
  Del :: "string \<Rightarrow> 's \<Rightarrow> go_error option \<times> 's"
  SetEx :: "string \<Rightarrow> string \<Rightarrow> 's \<Rightarrow> go_error option \<times> 's"

text \<open>\<open>if err != nil || err == redis.Nil || jsonCache == ""\<close> is a miss.\<close>

definition cache_hit :: "'s cache_ops \<Rightarrow> string \<Rightarrow> 's \<Rightarrow> json option" where
  "cache_hit ops k s = (case JSONGet ops k s of Inl e \<Rightarrow> None | Inr j \<Rightarrow> j)"

section \<open>What the services rely on\<close>

locale cache_store =
  fixes ops :: "'s cache_ops"
  assumes set_hit: "JSONSet ops k v s = (None, s') \<Longrightarrow> cache_hit ops k s' = Some v"
    and set_other: "JSONSet ops k v s = (e, s') \<Longrightarrow> k' \<noteq> k \<Longrightarrow> cache_hit ops k' s' = cache_hit ops k' s"
    and set_failed: "JSONSet ops k v s = (Some err, s') \<Longrightarrow>
      cache_hit ops k s' = cache_hit ops k s \<or> cache_hit ops k s' = Some v \<or> cache_hit ops k s' = None"
    and jsondel_miss: "JSONDel ops k s = (None, s') \<Longrightarrow> cache_hit ops k s' = None"
    and jsondel_failed: "JSONDel ops k s = (Some err, s') \<Longrightarrow>
      cache_hit ops k s' = cache_hit ops k s \<or> cache_hit ops k s' = None"
    and jsondel_other: "JSONDel ops k s = (e, s') \<Longrightarrow> k' \<noteq> k \<Longrightarrow> cache_hit ops k' s' = cache_hit ops k' s"
    and del_miss: "Del ops k s = (None, s') \<Longrightarrow> cache_hit ops k s' = None"
    and del_failed: "Del ops k s = (Some err, s') \<Longrightarrow>
      cache_hit ops k s' = cache_hit ops k s \<or> cache_hit ops k s' = None"
    and del_other: "Del ops k s = (e, s') \<Longrightarrow> k' \<noteq> k \<Longrightarrow> cache_hit ops k' s' = cache_hit ops k' s"
    and setex_miss: "SetEx ops k t s = (None, s') \<Longrightarrow> cache_hit ops k s' = None"
    and setex_failed: "SetEx ops k t s = (Some err, s') \<Longrightarrow>
      cache_hit ops k s' = cache_hit ops k s \<or> cache_hit ops k s' = None"
    and setex_other: "SetEx ops k t s = (e, s') \<Longrightarrow> k' \<noteq> k \<Longrightarrow> cache_hit ops k' s' = cache_hit ops k' s"
begin

text \<open>A key keeps its value through a write of another key.\<close>

lemma hit_survives_set:
  "cache_hit ops k s = Some v \<Longrightarrow> k' \<noteq> k \<Longrightarrow> JSONSet ops k' w s = (e, s') \<Longrightarrow> cache_hit ops k s' = Some v"
  using set_other by metis

text \<open>What a key holds after a command was there before or is what the command wrote.\<close>

lemma set_hits:
  assumes "JSONSet ops k v s = (e, s')" and "cache_hit ops k' s' = Some w"
  shows "cache_hit ops k' s = Some w \<or> k' = k \<and> w = v"
  using assms set_hit set_failed set_other [OF assms(1)] by (cases e; cases "k' = k") fastforce+

lemma jsondel_hits: "JSONDel ops k s = (e, s') \<Longrightarrow> cache_hit ops k' s' = Some w \<Longrightarrow> cache_hit ops k' s = Some w"
  using jsondel_miss jsondel_failed jsondel_other by (cases e; cases "k' = k") fastforce+

lemma del_hits: "Del ops k s = (e, s') \<Longrightarrow> cache_hit ops k' s' = Some w \<Longrightarrow> cache_hit ops k' s = Some w"
  using del_miss del_failed del_other by (cases e; cases "k' = k") fastforce+

lemma setex_hits: "SetEx ops k t s = (e, s') \<Longrightarrow> cache_hit ops k' s' = Some w \<Longrightarrow> cache_hit ops k' s = Some w"
  using setex_miss setex_failed setex_other by (cases e; cases "k' = k") fastforce+

lemma set_then_del:
  "JSONSet ops k v s = (None, s1) \<Longrightarrow> JSONDel ops k s1 = (None, s2) \<Longrightarrow> cache_hit ops k s2 = None"
  using jsondel_miss by blast

end

text \<open>A type that goes into the cache and is read back, possibly as another one.\<close>

locale json_codec =
  fixes enc :: "'a \<Rightarrow> json" and dec :: "json \<Rightarrow> go_error + 'b" and view :: "'a \<Rightarrow> 'b"
    and good :: "'a \<Rightarrow> bool"
  assumes dec_enc: "good x \<Longrightarrow> dec (enc x) = Inr (view x)"
begin

lemma decode_list_enc:
  "\<forall>x \<in> set xs. good x \<Longrightarrow> decode_list dec (json_agg (map enc xs)) = Inr (map view xs)"
  by (rule decode_json_agg) (simp add: dec_enc)

lemma view_unique:
  "good x \<Longrightarrow> good y \<Longrightarrow> enc x = enc y \<Longrightarrow> view x = view y"
  using dec_enc by (metis Inr_inject)

end

text \<open>Both together: what is written under a key is what a later read of the key decodes.\<close>

locale cached_codec = cache_store ops + json_codec enc dec view good
  for ops :: "'s cache_ops" and enc :: "'a \<Rightarrow> json" and dec :: "json \<Rightarrow> go_error + 'b"
    and view :: "'a \<Rightarrow> 'b" and good :: "'a \<Rightarrow> bool"
begin

lemma read_back:
  "JSONSet ops k (enc x) s = (None, s') \<Longrightarrow> good x \<Longrightarrow>
     map_option dec (cache_hit ops k s') = Some (Inr (view x))"
  by (simp add: set_hit dec_enc)

lemma read_back_after_other:
  "JSONSet ops k (enc x) s = (None, s1) \<Longrightarrow> JSONSet ops k' w s1 = (e, s2) \<Longrightarrow> k' \<noteq> k \<Longrightarrow> good x \<Longrightarrow>
     map_option dec (cache_hit ops k s2) = Some (Inr (view x))"
  using read_back set_other by metis

end

section \<open>A store with these laws\<close>

datatype redis_value = RJson json | RString string

record redis =
  rd_keys :: "string \<rightharpoonup> redis_value"
  rd_down :: bool

definition redis_Nil :: go_error where
  "redis_Nil = ErrVar ''redis.Nil'' ''redis: nil''"

definition redis_down :: go_error where
  "redis_down = ErrNew ''dial tcp: connect: connection refused''"

definition wrong_type :: go_error where
  "wrong_type = ErrNew ''Existing key has wrong Redis type''"

definition redis_ops :: "redis cache_ops" where
  "redis_ops =
     \<lparr>JSONGet = (\<lambda>k s. if rd_down s then Inl redis_down else
         (case rd_keys s k of None \<Rightarrow> Inl redis_Nil | Some (RJson j) \<Rightarrow> Inr (Some j)
          | Some (RString t) \<Rightarrow> Inl wrong_type)),
      JSONSet = (\<lambda>k v s. if rd_down s then (Some redis_down, s) else
         (case rd_keys s k of Some (RString t) \<Rightarrow> (Some wrong_type, s)
          | _ \<Rightarrow> (None, s\<lparr>rd_keys := (rd_keys s)(k \<mapsto> RJson v)\<rparr>))),
      JSONDel = (\<lambda>k s. if rd_down s then (Some redis_down, s) else
         (case rd_keys s k of Some (RString t) \<Rightarrow> (Some wrong_type, s)
          | _ \<Rightarrow> (None, s\<lparr>rd_keys := (rd_keys s)(k := None)\<rparr>))),
      Del = (\<lambda>k s. if rd_down s then (Some redis_down, s) else
         (None, s\<lparr>rd_keys := (rd_keys s)(k := None)\<rparr>)),
      SetEx = (\<lambda>k t s. if rd_down s then (Some redis_down, s) else
         (None, s\<lparr>rd_keys := (rd_keys s)(k \<mapsto> RString t)\<rparr>))\<rparr>"

lemma redis_hit: "cache_hit redis_ops k s =
    (if rd_down s then None else case rd_keys s k of Some (RJson j) \<Rightarrow> Some j | _ \<Rightarrow> None)"
  by (simp add: cache_hit_def redis_ops_def split: option.split redis_value.split)

lemma redis_set: "JSONSet redis_ops k v s =
    (if rd_down s then (Some redis_down, s)
     else case rd_keys s k of Some (RString t) \<Rightarrow> (Some wrong_type, s)
       | _ \<Rightarrow> (None, s\<lparr>rd_keys := (rd_keys s)(k \<mapsto> RJson v)\<rparr>))"
  by (simp add: redis_ops_def)

lemma redis_jsondel: "JSONDel redis_ops k s =
    (if rd_down s then (Some redis_down, s)
     else case rd_keys s k of Some (RString t) \<Rightarrow> (Some wrong_type, s)
       | _ \<Rightarrow> (None, s\<lparr>rd_keys := (rd_keys s)(k := None)\<rparr>))"
  by (simp add: redis_ops_def)

lemma redis_del: "Del redis_ops k s =
    (if rd_down s then (Some redis_down, s) else (None, s\<lparr>rd_keys := (rd_keys s)(k := None)\<rparr>))"
  by (simp add: redis_ops_def)

lemma redis_setex: "SetEx redis_ops k t s =
    (if rd_down s then (Some redis_down, s) else (None, s\<lparr>rd_keys := (rd_keys s)(k \<mapsto> RString t)\<rparr>))"
  by (simp add: redis_ops_def)

interpretation redis_cache: cache_store redis_ops
  by unfold_locales
    (auto simp: redis_hit redis_set redis_jsondel redis_del redis_setex
      split: if_splits option.splits redis_value.splits)

section \<open>What is stored\<close>

text \<open>\<open>json.Marshal\<close> of a \<open>repository.Product\<close>, read back into a \<open>response.Product\<close>.\<close>

definition product_row_json :: "product_row \<Rightarrow> json" where
  "product_row_json p = JObj
     [(''id'', uuid_json (product_ID p)), (''name'', JStr (product_Name p)),
      (''price'', numeric_json (product_Price p)), (''quantity'', int32_json (product_Quantity p)),
      (''created_at'', timestamptz_json (product_CreatedAt p)),
      (''updated_at'', timestamptz_json (product_UpdatedAt p))]"

fun decode_res_product :: "json \<Rightarrow> go_error + res_product" where
  "decode_res_product (JObj kvs) =
     if_ok (decode_uuid (json_field ''id'' kvs)) (\<lambda>i.
     if_ok (decode_string (json_field ''name'' kvs)) (\<lambda>nm.
     if_ok (decode_decimal (json_field ''price'' kvs)) (\<lambda>pr.
     if_ok (decode_int32 (json_field ''quantity'' kvs)) (\<lambda>q.
     if_ok (decode_time (json_field ''created_at'' kvs)) (\<lambda>c.
     if_ok (decode_time (json_field ''updated_at'' kvs)) (\<lambda>u.
       Inr \<lparr>sp_ID = i, sp_Name = nm, sp_Price = pr, sp_Quantity = q, sp_CreatedAt = c,
            sp_UpdatedAt = u\<rparr>))))))"
| "decode_res_product JNull =
     Inr \<lparr>sp_ID = uuid_Nil, sp_Name = [], sp_Price = \<lparr>dec_value = None, dec_exp = 0\<rparr>,
          sp_Quantity = 0, sp_CreatedAt = time_zero, sp_UpdatedAt = time_zero\<rparr>"
| "decode_res_product j = Inl (typeError ''response.Product'')"

definition res_product_of_row :: "product_row \<Rightarrow> res_product" where
  "res_product_of_row p =
     \<lparr>sp_ID = product_ID p, sp_Name = product_Name p,
      sp_Price = plain_decimal (the (num_Int (product_Price p))) (num_Exp (product_Price p)),
      sp_Quantity = product_Quantity p, sp_CreatedAt = tz_Time (product_CreatedAt p),
      sp_UpdatedAt = tz_Time (product_UpdatedAt p)\<rparr>"

definition proper_product :: "product_row \<Rightarrow> bool" where
  "proper_product p \<longleftrightarrow> proper_numeric (product_Price p) \<and> finite_tz (product_CreatedAt p) \<and>
     finite_tz (product_UpdatedAt p)"

text \<open>\<open>repository.User\<close> goes in and out as the same struct; \<open>pgtype.Timestamptz\<close> decodes itself.\<close>

fun decode_timestamptz :: "json \<Rightarrow> go_error + pg_timestamptz" where
  "decode_timestamptz JNull = Inr \<lparr>tz_Time = time_zero, tz_InfinityModifier = Finite, tz_Valid = False\<rparr>"
| "decode_timestamptz (JTime t) = Inr (timestamptz_of_time t)"
| "decode_timestamptz (JStr s) =
     (if s = ''infinity'' then
        Inr \<lparr>tz_Time = time_zero, tz_InfinityModifier = Infinity, tz_Valid = True\<rparr>
      else if s = ''-infinity'' then
        Inr \<lparr>tz_Time = time_zero, tz_InfinityModifier = NegativeInfinity, tz_Valid = True\<rparr>
      else Inl (typeError ''pgtype.Timestamptz''))"
| "decode_timestamptz j = Inl (typeError ''pgtype.Timestamptz'')"

definition user_row_json :: "user_row \<Rightarrow> json" where
  "user_row_json u = JObj
     [(''id'', uuid_json (user_ID u)), (''username'', JStr (user_Username u)),
      (''email'', JStr (user_Email u)), (''password'', JStr (user_Password u)),
      (''created_at'', timestamptz_json (user_CreatedAt u)),
      (''updated_at'', timestamptz_json (user_UpdatedAt u))]"

fun decode_user_row :: "json \<Rightarrow> go_error + user_row" where
  "decode_user_row (JObj kvs) =
     if_ok (decode_uuid (json_field ''id'' kvs)) (\<lambda>i.
     if_ok (decode_string (json_field ''username'' kvs)) (\<lambda>nm.
     if_ok (decode_string (json_field ''email'' kvs)) (\<lambda>em.
     if_ok (decode_string (json_field ''password'' kvs)) (\<lambda>pw.
     if_ok (decode_timestamptz (json_field ''created_at'' kvs)) (\<lambda>c.
     if_ok (decode_timestamptz (json_field ''updated_at'' kvs)) (\<lambda>u.
       Inr \<lparr>user_ID = i, user_Username = nm, user_Email = em, user_Password = pw,
            user_CreatedAt = c, user_UpdatedAt = u\<rparr>))))))"
| "decode_user_row JNull =
     Inr \<lparr>user_ID = uuid_Nil, user_Username = [], user_Email = [], user_Password = [],
          user_CreatedAt = \<lparr>tz_Time = time_zero, tz_InfinityModifier = Finite, tz_Valid = False\<rparr>,
          user_UpdatedAt = \<lparr>tz_Time = time_zero, tz_InfinityModifier = Finite, tz_Valid = False\<rparr>\<rparr>"
| "decode_user_row j = Inl (typeError ''repository.User'')"

definition finite_user :: "user_row \<Rightarrow> bool" where
  "finite_user u \<longleftrightarrow> finite_tz (user_CreatedAt u) \<and> finite_tz (user_UpdatedAt u)"

text \<open>\<open>response.Cart\<close>; a decimal goes out as a quoted number.\<close>

definition res_cart_item_json :: "res_cart_item \<Rightarrow> json" where
  "res_cart_item_json i = JObj
     [(''id'', uuid_json (sci_ID i)), (''cart_id'', uuid_json (sci_CartID i)),
      (''product_id'', uuid_json (sci_ProductID i)), (''quantity'', int32_json (sci_Quantity i)),
      (''price'', decimal_json (sci_Price i)), (''created_at'', JTime (sci_CreatedAt i)),
      (''updated_at'', JTime (sci_UpdatedAt i))]"

definition res_cart_json :: "res_cart \<Rightarrow> json" where
  "res_cart_json c = JObj
     [(''id'', uuid_json (sc_ID c)), (''user_id'', uuid_json (sc_UserID c)),
      (''cart_items'', json_agg (map res_cart_item_json (sc_CartItems c))),
      (''created_at'', JTime (sc_CreatedAt c)), (''updated_at'', JTime (sc_UpdatedAt c))]"

fun decode_res_cart :: "json \<Rightarrow> go_error + res_cart" where
  "decode_res_cart (JObj kvs) =
     if_ok (decode_uuid (json_field ''id'' kvs)) (\<lambda>i.
     if_ok (decode_uuid (json_field ''user_id'' kvs)) (\<lambda>uid.
     if_ok (decode_list decode_res_cart_item (json_field ''cart_items'' kvs)) (\<lambda>items.
     if_ok (decode_time (json_field ''created_at'' kvs)) (\<lambda>c.
     if_ok (decode_time (json_field ''updated_at'' kvs)) (\<lambda>u.
       Inr \<lparr>sc_ID = i, sc_UserID = uid, sc_CartItems = items, sc_CreatedAt = c,
            sc_UpdatedAt = u\<rparr>)))))"
| "decode_res_cart JNull = Inr res_cart_zero"
| "decode_res_cart j = Inl (typeError ''response.Cart'')"

definition plain_cart_item :: "res_cart_item \<Rightarrow> res_cart_item" where
  "plain_cart_item i =
     i\<lparr>sci_Price := plain_decimal (decimal_Coefficient (sci_Price i)) (dec_exp (sci_Price i))\<rparr>"

definition plain_cart :: "res_cart \<Rightarrow> res_cart" where
  "plain_cart c = c\<lparr>sc_CartItems := map plain_cart_item (sc_CartItems c)\<rparr>"

text \<open>The row of \<open>FindCartById\<close>: its \<open>[]byte\<close> column becomes base64 text.\<close>

definition cart_row_json :: "find_cart_by_id_row \<Rightarrow> json" where
  "cart_row_json r = JObj
     [(''id'', uuid_json (fcr_ID r)), (''user_id'', uuid_json (fcr_UserID r)),
      (''created_at'', timestamptz_json (fcr_CreatedAt r)),
      (''updated_at'', timestamptz_json (fcr_UpdatedAt r)), (''cart_items'', JB64 (fcr_CartItems r))]"

section \<open>The codecs\<close>

interpretation order_item_codec:
  json_codec order_item_to_json decode_res_order_item res_order_item_of_row proper_order_item
  by unfold_locales (rule decode_order_item_to_json)

interpretation cart_item_codec:
  json_codec cart_item_to_json decode_res_cart_item res_cart_item_of_row proper_cart_item
  by unfold_locales (rule decode_cart_item_to_json)

interpretation res_cart_item_codec:
  json_codec res_cart_item_json decode_res_cart_item plain_cart_item "\<lambda>i. True"
  by unfold_locales (simp add: res_cart_item_json_def json_field_def plain_cart_item_def)

interpretation product_codec:
  cached_codec redis_ops product_row_json decode_res_product res_product_of_row proper_product
  by unfold_locales
    (simp add: product_row_json_def json_field_def proper_product_def res_product_of_row_def)

interpretation user_codec:
  cached_codec redis_ops user_row_json decode_user_row "\<lambda>u. u" finite_user
proof unfold_locales
  fix u
  have tz: "finite_tz t \<Longrightarrow> decode_timestamptz (timestamptz_json t) = Inr t" for t
    by (cases t) (auto simp: finite_tz_def timestamptz_json_def timestamptz_of_time_def)
  show "finite_user u \<Longrightarrow> decode_user_row (user_row_json u) = Inr u"
    by (cases u) (simp add: user_row_json_def json_field_def finite_user_def tz)
qed

interpretation cart_codec:
  cached_codec redis_ops res_cart_json decode_res_cart plain_cart "\<lambda>c. True"
  by unfold_locales
    (simp add: res_cart_json_def json_field_def plain_cart_def res_cart_item_codec.decode_list_enc)

text \<open>A row that went into the cache is not a cart.\<close>

lemma decode_cart_row_fails: "\<exists>e. decode_res_cart (cart_row_json r) = Inl e"
  by (simp add: cart_row_json_def json_field_def)

end
