(* ===== verification/Http.thy ===== *)
theory Http
  imports Json
begin

text \<open>
  What the four services share on the HTTP side: the request context (\<open>internal/log/context.go\<close>,
  \<open>internal/token.go\<close>), \<open>WriteJsonResponse\<close> (\<open>internal/http/response.go\<close>) and the middlewares
  \<open>Logging\<close>, \<open>RecoverPanic\<close> and \<open>Auth\<close> (\<open>internal/middleware\<close>). A handler threads the state of
  its service; it may return without writing. JWT parsing is a parameter (\<open>parse\<close>).
\<close>

section \<open>Contexts\<close>

record jwt_token =
  jwt_Raw :: string
  jwt_Subject :: string
  jwt_Valid :: bool

text \<open>The two values the middlewares attach; an absent value is nil.\<close>

record ctx =
  ctx_requestId :: "string option"
  ctx_jwt :: "jwt_token option"

definition type_assertion_panic :: "string \<Rightarrow> string" where
  "type_assertion_panic t = ''interface conversion: interface {} is nil, not '' @ t"

definition RequestIDFromContext :: "ctx \<Rightarrow> string outcome" where
  "RequestIDFromContext c =
     (case ctx_requestId c of None \<Rightarrow> Panic (type_assertion_panic ''string'') | Some i \<Rightarrow> Ret i)"

definition AttachRequestIDToContext :: "ctx \<Rightarrow> string \<Rightarrow> ctx" where
  "AttachRequestIDToContext c h = c\<lparr>ctx_requestId := Some h\<rparr>"

definition AttachJwtToken :: "ctx \<Rightarrow> jwt_token \<Rightarrow> ctx" where
  "AttachJwtToken c jwt = c\<lparr>ctx_jwt := Some jwt\<rparr>"

definition JwtTokenFromContext :: "ctx \<Rightarrow> jwt_token outcome" where
  "JwtTokenFromContext c =
     (case ctx_jwt c of None \<Rightarrow> Panic (type_assertion_panic ''*jwt.Token'') | Some t \<Rightarrow> Ret t)"

text \<open>\<open>parse\<close> is \<open>jwt.ParseWithClaims\<close> with the options of the code (audience, HS256, expiry).\<close>

definition VerifyToken :: "(string \<Rightarrow> go_error + jwt_token) \<Rightarrow> string \<Rightarrow> go_error + jwt_token" where
  "VerifyToken parse token =
     (case parse token of
        Inl e \<Rightarrow> Inl (ErrWrap ''failed parsing claims with error='' e)
      | Inr jwtToken \<Rightarrow> if \<not> jwt_Valid jwtToken then Inl ErrTokenInvalid else Inr jwtToken)"

definition UserIdFromJwtToken :: "ctx \<Rightarrow> (go_error + uuid) outcome" where
  "UserIdFromJwtToken c =
     and_then (JwtTokenFromContext c) (\<lambda>jwt.
       Ret (case uuid_Parse (jwt_Subject jwt) of
              Inl e \<Rightarrow> Inl (ErrWrap (''failed parsing subject='' @ jwt_Subject jwt @ '' with error='')
                          (ErrNew (uuid_error_text e)))
            | Inr userId \<Rightarrow> Inr userId))"

section \<open>Responses\<close>

datatype response_data =
    DNone
  | DOrder res_order
  | DOrders "order_row list"
  | DCart res_cart
  | DProduct res_product
  | DProductRow product_row
  | DProducts "product_row list"
  | DToken string

record http_body =
  hb_status :: string
  hb_statusCode :: "nat option"
  hb_message :: string
  hb_data :: response_data

record http_response =
  hr_header :: "(string \<times> string) list"
  hr_code :: nat
  hr_body :: http_body

definition WriteJsonResponse ::
    "ctx \<Rightarrow> (string \<times> string) list \<Rightarrow> http_body \<Rightarrow> http_response outcome" where
  "WriteJsonResponse c header body =
     and_then (RequestIDFromContext c) (\<lambda>reqId. Ret
       \<lparr>hr_header = [(''Content-Type'', ''application/json''), (''X-REQUEST-ID'', reqId)] @ header,
        hr_code = (case hb_statusCode body of None \<Rightarrow> 200 | Some v \<Rightarrow> v),
        hr_body = body\<rparr>)"

text \<open>The two literals every handler writes.\<close>

definition failed :: "nat \<Rightarrow> string \<Rightarrow> http_body" where
  "failed code msg = \<lparr>hb_status = ''failed'', hb_statusCode = Some code, hb_message = msg, hb_data = DNone\<rparr>"

definition success :: "nat \<Rightarrow> string \<Rightarrow> response_data \<Rightarrow> http_body" where
  "success code msg d = \<lparr>hb_status = ''success'', hb_statusCode = Some code, hb_message = msg, hb_data = d\<rparr>"

section \<open>Requests and handlers\<close>

text \<open>
  \<open>rq_vars\<close> is \<open>mux.Vars(r)\<close>, set by the gorilla router of every service; \<open>rq_pathValues\<close> is
  what \<open>r.PathValue\<close> reads, which only the router of \<open>net/http\<close> sets. The body is its JSON value.
\<close>

record http_request =
  rq_requestId :: string
  rq_Authorization :: string
  rq_vars :: "string \<rightharpoonup> string"
  rq_pathValues :: "string \<rightharpoonup> string"
  rq_query :: "string \<rightharpoonup> string"
  rq_body :: "go_error + json"

text \<open>A lookup in a Go map of strings, and \<open>r.PathValue\<close>: an absent key is the empty string.\<close>

definition map_get :: "(string \<rightharpoonup> string) \<Rightarrow> string \<Rightarrow> string" where
  "map_get m k = (case m k of None \<Rightarrow> [] | Some v \<Rightarrow> v)"

text \<open>The requests the services see come through gorilla's router.\<close>

definition via_gorilla :: "http_request \<Rightarrow> bool" where
  "via_gorilla r \<longleftrightarrow> rq_pathValues r = Map.empty"

type_synonym reply = "http_response option outcome"
type_synonym 's handler = "ctx \<Rightarrow> http_request \<Rightarrow> 's \<Rightarrow> 's \<times> reply"

text \<open>\<open>WriteJsonResponse(...); return\<close>.\<close>

definition reply :: "ctx \<Rightarrow> http_body \<Rightarrow> reply" where
  "reply c body = and_then (WriteJsonResponse c [] body) (\<lambda>r. Ret (Some r))"

lemma reply_with_id:
  "ctx_requestId c = Some i \<Longrightarrow> reply c body = Ret (Some
     \<lparr>hr_header = [(''Content-Type'', ''application/json''), (''X-REQUEST-ID'', i)],
      hr_code = (case hb_statusCode body of None \<Rightarrow> 200 | Some v \<Rightarrow> v), hr_body = body\<rparr>)"
  by (simp add: reply_def WriteJsonResponse_def RequestIDFromContext_def)

lemma reply_without_id:
  "ctx_requestId c = None \<Longrightarrow> reply c body = Panic (type_assertion_panic ''string'')"
  by (simp add: reply_def WriteJsonResponse_def RequestIDFromContext_def)

text \<open>The status of a reply.\<close>

definition replied :: "reply \<Rightarrow> nat \<Rightarrow> bool" where
  "replied out code \<longleftrightarrow> (\<exists>r. out = Ret (Some r) \<and> hr_code r = code)"

lemma replied_reply [simp]:
  "ctx_requestId c = Some i \<Longrightarrow> replied (reply c (failed code msg)) code' \<longleftrightarrow> code' = code"
  "ctx_requestId c = Some i \<Longrightarrow> replied (reply c (success code msg d)) code' \<longleftrightarrow> code' = code"
  by (auto simp: replied_def reply_with_id failed_def success_def)

section \<open>Middlewares\<close>

text \<open>\<open>newId\<close> is \<open>uuid.NewString()\<close>.\<close>

definition Logging :: "string \<Rightarrow> 's handler \<Rightarrow> 's handler" where
  "Logging newId next1 c r s =
     next1 (AttachRequestIDToContext c (if rq_requestId r = [] then newId else rq_requestId r)) r s"

definition RecoverPanic :: "'s handler \<Rightarrow> 's handler" where
  "RecoverPanic next1 c r s =
     (case next1 c r s of
        (s', Panic m) \<Rightarrow> (s', reply c (failed 500 ''Internal Server Error''))
      | (s', out) \<Rightarrow> (s', out))"

text \<open>\<open>strings.Split(s, " ")\<close>.\<close>

fun split_spaces :: "string \<Rightarrow> string list" where
  "split_spaces [] = [[]]"
| "split_spaces (c # s) =
     (if c = CHR '' '' then [] # split_spaces s
      else case split_spaces s of [] \<Rightarrow> [[c]] | w # ws \<Rightarrow> (c # w) # ws)"

definition Auth :: "(string \<Rightarrow> go_error + jwt_token) \<Rightarrow> 's handler \<Rightarrow> 's handler" where
  "Auth parse next1 c r s =
     (let authorization = rq_Authorization r in
      if authorization = [] then (s, reply c (failed 401 (Error ErrEmptyAuth)))
      else case split_spaces authorization of
        _ # token # _ \<Rightarrow>
          (case VerifyToken parse token of
             Inl e \<Rightarrow> (s, reply c (failed 401 (Error ErrTokenInvalid)))
           | Inr jwt \<Rightarrow> next1 (AttachJwtToken c jwt) r s)
      | _ \<Rightarrow> (s, Panic ''runtime error: index out of range [1] with length 1''))"

text \<open>The stack of the protected routers.\<close>

definition protected1 ::
    "(string \<Rightarrow> go_error + jwt_token) \<Rightarrow> string \<Rightarrow> 's handler \<Rightarrow> 's handler" where
  "protected1 parse newId next1 = Logging newId (RecoverPanic (Auth parse next1))"

definition public1 :: "string \<Rightarrow> 's handler \<Rightarrow> 's handler" where
  "public1 newId next1 = Logging newId (RecoverPanic next1)"

text \<open>The token of a well-formed header: the second word.\<close>

definition bearer_token :: "string \<Rightarrow> string option" where
  "bearer_token a = (case split_spaces a of _ # token # _ \<Rightarrow> Some token | _ \<Rightarrow> None)"

lemma split_spaces_not_Nil [simp]: "split_spaces s \<noteq> []"
  by (cases s rule: split_spaces.cases) (auto split: list.split)

lemma split_spaces_word:
  "CHR '' '' \<notin> set w \<Longrightarrow> split_spaces (w @ CHR '' '' # s) = w # split_spaces s"
  by (induction w) auto

lemma split_spaces_single: "CHR '' '' \<notin> set w \<Longrightarrow> split_spaces w = [w]"
  by (induction w) auto

lemma bearer_token_header:
  "CHR '' '' \<notin> set t \<Longrightarrow> bearer_token (''Bearer '' @ t) = Some t"
  using split_spaces_word [of "''Bearer''" t] by (simp add: bearer_token_def split_spaces_single)

lemma RecoverPanic_no_panic:
  assumes "ctx_requestId c = Some i"
  shows "snd (RecoverPanic next1 c r s) \<noteq> Panic m"
  using assms
  by (auto simp: RecoverPanic_def reply_with_id split: prod.split outcome.split)

lemma Auth_rejects:
  assumes "\<And>t. bearer_token (rq_Authorization r) = Some t \<Longrightarrow> \<exists>e. VerifyToken parse t = Inl e"
  shows "fst (Auth parse next1 c r s) = s \<and>
    (snd (Auth parse next1 c r s) = reply c (failed 401 (Error ErrEmptyAuth)) \<or>
     snd (Auth parse next1 c r s) = reply c (failed 401 (Error ErrTokenInvalid)) \<or>
     (\<exists>m. snd (Auth parse next1 c r s) = Panic m))"
  using assms
  by (auto simp: Auth_def bearer_token_def Let_def split: list.splits sum.splits)

lemma Auth_accepts:
  assumes "rq_Authorization r = ''Bearer '' @ t" and "CHR '' '' \<notin> set t"
    and "VerifyToken parse t = Inr jwt"
  shows "Auth parse next1 c r s = next1 (AttachJwtToken c jwt) r s"
  using assms split_spaces_word [of "''Bearer''" t]
  by (simp add: Auth_def split_spaces_single Let_def)

text \<open>A handler behind \<open>Auth\<close> runs only with a verified token.\<close>

lemma Auth_cases:
  "(\<exists>t jwt. bearer_token (rq_Authorization r) = Some t \<and> VerifyToken parse t = Inr jwt \<and>
      Auth parse next1 c r s = next1 (AttachJwtToken c jwt) r s) \<or>
   fst (Auth parse next1 c r s) = s"
  by (auto simp: Auth_def bearer_token_def Let_def split: list.splits sum.splits)

lemma RecoverPanic_state [simp]: "fst (RecoverPanic next1 c r s) = fst (next1 c r s)"
  by (auto simp: RecoverPanic_def split: prod.split outcome.split)

lemma RecoverPanic_Ret: "next1 c r s = (s', Ret x) \<Longrightarrow> RecoverPanic next1 c r s = (s', Ret x)"
  by (simp add: RecoverPanic_def)

lemma RecoverPanic_Panic:
  "next1 c r s = (s', Panic m) \<Longrightarrow>
     RecoverPanic next1 c r s = (s', reply c (failed 500 ''Internal Server Error''))"
  by (simp add: RecoverPanic_def)

lemma AttachRequestId_sel [simp]: "ctx_requestId (AttachRequestIDToContext c i) = Some i"
  by (simp add: AttachRequestIDToContext_def)

lemma AttachJwtToken_sel [simp]:
  "ctx_requestId (AttachJwtToken c t) = ctx_requestId c" "ctx_jwt (AttachJwtToken c t) = Some t"
  by (simp_all add: AttachJwtToken_def)

lemma protected_cases:
  "(\<exists>t jwt c'. bearer_token (rq_Authorization r) = Some t \<and> VerifyToken parse t = Inr jwt \<and>
      ctx_jwt c' = Some jwt \<and> ctx_requestId c' \<noteq> None \<and>
      fst (protected1 parse newId next1 c r s) = fst (next1 c' r s)) \<or>
   fst (protected1 parse newId next1 c r s) = s"
proof -
  let ?c = "AttachRequestIDToContext c (if rq_requestId r = [] then newId else rq_requestId r)"
  have "fst (protected1 parse newId next1 c r s) = fst (Auth parse next1 ?c r s)"
    by (simp add: protected1_def Logging_def)
  with Auth_cases [of r parse next1 ?c s] show ?thesis
    by (metis AttachJwtToken_sel AttachRequestId_sel option.distinct(1))
qed

end
