(* ===== verification/ProductService.thy ===== *)
theory ProductService
  imports CacheStore RepositoryLaws Http
begin

text \<open>
  The product service: \<open>product/internal/service/product.go\<close> and its controller. Every operation
  works on the database and on the JSON cache; both are the state. What one request meets is a
  \<open>request_env\<close>: the failure of its n-th database call, its fresh identifiers, the clock.
\<close>

section \<open>State and environment\<close>

record 's shop_state =
  ss_db :: database
  ss_cache :: 's

record request_env =
  qe_fault :: "nat \<Rightarrow> go_error option"
  qe_newId :: "nat \<Rightarrow> uuid"
  qe_now :: time

definition db_call :: "request_env \<Rightarrow> nat \<Rightarrow> go_error + 'a \<Rightarrow> go_error + 'a" where
  "db_call env n r = (case qe_fault env n of Some e \<Rightarrow> Inl e | None \<Rightarrow> r)"

lemma db_call_Inr [simp]: "db_call env n r = Inr a \<longleftrightarrow> qe_fault env n = None \<and> r = Inr a"
  by (simp add: db_call_def split: option.split)

type_synonym ('s, 'r) service = "'s shop_state \<Rightarrow> 's shop_state \<times> 'r outcome"

section \<open>The service\<close>

definition product_key :: "uuid \<Rightarrow> string" where
  "product_key i = ''products:'' @ uuid_String i"

lemma product_key_eq [simp]: "product_key i = product_key j \<longleftrightarrow> i = j"
  by (simp add: product_key_def)

definition res_product_zero :: res_product where
  "res_product_zero = \<lparr>sp_ID = uuid_Nil, sp_Name = [], sp_Price = \<lparr>dec_value = None, dec_exp = 0\<rparr>,
     sp_Quantity = 0, sp_CreatedAt = time_zero, sp_UpdatedAt = time_zero\<rparr>"

text \<open>\<open>fmt.Errorf("product is already exist with error=%w", err)\<close> with a nil \<open>err\<close>.\<close>

definition ErrProductExist :: go_error where
  "ErrProductExist = ErrNew ''product is already exist with error=%!w(<nil>)''"

definition ProductService_InsertProduct ::
    "'s cache_ops \<Rightarrow> request_env \<Rightarrow> req_product \<Rightarrow> ('s, go_error + res_product) service" where
  "ProductService_InsertProduct ops env param st =
     (case db_call env 0 (FindProductByName (ss_db st) (rp_Name param)) of
        Inr product \<Rightarrow> (st, and_then (Product_Response product) (\<lambda>r. Ret (Inl ErrProductExist)))
      | Inl e0 \<Rightarrow>
          (case db_call env 1 (InsertProduct (qe_newId env 0) (qe_now env) (ss_db st)
                  \<lparr>ipp_Name = rp_Name param, ipp_Price = numeric_of_decimal (rp_Price param),
                   ipp_Quantity = int32_of_int (rp_Quantity param)\<rparr>) of
             Inl e \<Rightarrow> (st, Ret (Inl (ErrWrap ''failed to insert product with error='' e)))
           | Inr (db', product) \<Rightarrow>
               (case JSONSet ops (product_key (product_ID product)) (product_row_json product)
                       (ss_cache st) of
                  (Some e, cache') \<Rightarrow>
                    (st\<lparr>ss_db := db', ss_cache := cache'\<rparr>, Ret (Inr res_product_zero))
                | (None, cache') \<Rightarrow>
                    (st\<lparr>ss_db := db', ss_cache := cache'\<rparr>,
                     and_then (Product_Response product) (\<lambda>r. Ret (Inr r))))))"

definition ProductService_GetProducts ::
    "request_env \<Rightarrow> ('s, go_error + product_row list) service" where
  "ProductService_GetProducts env st =
     (st, Ret (case db_call env 0 (Inr (FindProducts (ss_db st))) of
        Inl e \<Rightarrow> Inl (ErrWrap ''failed to get products from database with error='' e)
      | Inr products \<Rightarrow> Inr products))"

definition ProductService_FindProductById ::
    "'s cache_ops \<Rightarrow> request_env \<Rightarrow> uuid \<Rightarrow> ('s, go_error + res_product) service" where
  "ProductService_FindProductById ops env i st =
     (case cache_hit ops (product_key i) (ss_cache st) of
        None \<Rightarrow>
          (case db_call env 0 (FindProductById (ss_db st) i) of
             Inl e \<Rightarrow> (st, Ret (Inl (ErrWrap ''failed to find product in database with error='' e)))
           | Inr product \<Rightarrow> (st, and_then (Product_Response product) (\<lambda>r. Ret (Inr r))))
      | Some jsonCache \<Rightarrow>
          (st, Ret (case decode_res_product jsonCache of
             Inl e \<Rightarrow> Inl (ErrWrap ''failed to unmarshal jsonCache with error='' e)
           | Inr product \<Rightarrow> Inr product)))"

definition ProductService_UpdateProduct ::
    "'s cache_ops \<Rightarrow> request_env \<Rightarrow> uuid \<Rightarrow> req_product \<Rightarrow> ('s, go_error + product_row) service" where
  "ProductService_UpdateProduct ops env i param st =
     (case db_call env 0 (UpdateProduct (qe_now env) (ss_db st)
             \<lparr>upp_Name = rp_Name param, upp_Price = numeric_of_decimal (rp_Price param),
              upp_Quantity = int32_of_int (rp_Quantity param), upp_ID = i\<rparr>) of
        Inl e \<Rightarrow> (st, Ret (Inl (ErrWrap ''failed to update product with error='' e)))
      | Inr (db', product) \<Rightarrow>
          (case JSONSet ops (product_key i) (product_row_json product) (ss_cache st) of
             (Some e, cache') \<Rightarrow>
               (st\<lparr>ss_db := db', ss_cache := cache'\<rparr>,
                Ret (Inl (ErrWrap ''failed to update product to cache with error='' e)))
           | (None, cache') \<Rightarrow> (st\<lparr>ss_db := db', ss_cache := cache'\<rparr>, Ret (Inr product))))"

definition ProductService_RemoveProduct ::
    "'s cache_ops \<Rightarrow> request_env \<Rightarrow> uuid \<Rightarrow> ('s, go_error + product_row) service" where
  "ProductService_RemoveProduct ops env i st =
     (case JSONDel ops (product_key i) (ss_cache st) of
        (Some e, cache') \<Rightarrow>
          (st\<lparr>ss_cache := cache'\<rparr>,
           Ret (Inl (ErrWrap ''failed to remove product in cache with error='' e)))
      | (None, cache') \<Rightarrow>
          (case db_call env 0 (DeleteProduct (ss_db st) i) of
             Inl e \<Rightarrow> (st\<lparr>ss_cache := cache'\<rparr>,
                       Ret (Inl (ErrWrap ''failed to remove product in database with error='' e)))
           | Inr (db', product) \<Rightarrow> (st\<lparr>ss_db := db', ss_cache := cache'\<rparr>, Ret (Inr product))))"

section \<open>Operations that keep the schema\<close>

text \<open>A service operation may change the database only from one valid state to another.\<close>

locale keeps_schema =
  fixes run :: "'a \<Rightarrow> 's shop_state \<Rightarrow> 's shop_state \<times> 'r"
  assumes keeps: "db_ok (ss_db st) \<Longrightarrow> db_ok (ss_db (fst (run x st)))"
begin

lemma keeps_sequence:
  "db_ok (ss_db st) \<Longrightarrow> db_ok (ss_db (foldl (\<lambda>st x. fst (run x st)) st xs))"
proof (induction xs arbitrary: st)
  case Nil
  then show ?case by simp
next
  case (Cons x xs)
  then show ?case using keeps by simp
qed

end

interpretation product_insert:
  keeps_schema "\<lambda>(env, param). ProductService_InsertProduct ops env param" for ops
  by unfold_locales
    (auto simp: ProductService_InsertProduct_def dest: InsertProduct_ok split: sum.split prod.split option.split)

interpretation product_update:
  keeps_schema "\<lambda>(env, i, param). ProductService_UpdateProduct ops env i param" for ops
  by unfold_locales
    (auto simp: ProductService_UpdateProduct_def dest: UpdateProduct_ok split: sum.split prod.split option.split)

interpretation product_remove:
  keeps_schema "\<lambda>(env, i). ProductService_RemoveProduct ops env i" for ops
  by unfold_locales
    (auto simp: ProductService_RemoveProduct_def dest: DeleteProduct_ok split: sum.split prod.split option.split)

section \<open>Reading what was written\<close>

lemma InsertProduct_appends:
  assumes "ss_db (fst (ProductService_InsertProduct ops env param st)) \<noteq> ss_db st"
  obtains row where
    "db_products (ss_db (fst (ProductService_InsertProduct ops env param st))) = db_products (ss_db st) @ [row]"
    "product_Name row = rp_Name param" "product_Quantity row = int32_of_int (rp_Quantity param)"
  using assms
  by (auto simp: ProductService_InsertProduct_def InsertProduct_def Let_def split: sum.splits prod.splits
      option.splits if_splits)

lemma proper_updated_product:
  assumes "UpdateProduct now db \<lparr>upp_Name = n, upp_Price = numeric_of_decimal d, upp_Quantity = q, upp_ID = i\<rparr> =
      Inr (db', row)"
    and "\<forall>p \<in> set (db_products db). finite_tz (product_CreatedAt p)"
  shows "proper_product row \<and> product_ID row = i \<and> product_Quantity row = q \<and> row \<in> set (db_products db')"
proof -
  from assms(1) obtain p ps where p: "filter (\<lambda>p. product_ID p = i) (db_products db) = p # ps"
    by (auto simp: UpdateProduct_def split: list.splits)
  then have pin: "p \<in> set (db_products db)" "product_ID p = i" by (auto simp: filter_eq_Cons_iff)
  have row: "row = p\<lparr>product_Name := n, product_Price := numeric_of_decimal d,
      product_Quantity := q, product_UpdatedAt := timestamptz_of_time now\<rparr>"
    and db': "db_products db' = map (\<lambda>r. if product_ID r = i then row else r) (db_products db)"
    using assms(1) p by (auto simp: UpdateProduct_def Let_def split: if_splits)
  have "row \<in> set (db_products db')"
    unfolding db' using pin by (auto intro!: image_eqI [of _ _ p])
  with row assms(2) pin show ?thesis by (simp add: proper_product_def)
qed

section \<open>The controller\<close>

text \<open>\<open>json.NewDecoder(r.Body).Decode(&reqBody)\<close>: a body that is no JSON, or of another shape.\<close>

fun decode_int64 :: "json \<Rightarrow> go_error + int64" where
  "decode_int64 JNull = Inr 0"
| "decode_int64 (JNum c e) =
     (if e = 0 \<and> - (2 ^ 63) \<le> c \<and> c < 2 ^ 63 then Inr (word_of_int c) else Inl (typeError ''int''))"
| "decode_int64 j = Inl (typeError ''int'')"

fun decode_req_product :: "json \<Rightarrow> go_error + req_product" where
  "decode_req_product (JObj kvs) =
     if_ok (decode_string (json_field ''name'' kvs)) (\<lambda>nm.
     if_ok (decode_decimal (json_field ''price'' kvs)) (\<lambda>pr.
     if_ok (decode_int64 (json_field ''quantity'' kvs)) (\<lambda>q.
       Inr \<lparr>rp_Name = nm, rp_Price = pr, rp_Quantity = q\<rparr>)))"
| "decode_req_product JNull =
     Inr \<lparr>rp_Name = [], rp_Price = \<lparr>dec_value = None, dec_exp = 0\<rparr>, rp_Quantity = 0\<rparr>"
| "decode_req_product j = Inl (typeError ''request.Product'')"

definition decode_body :: "(json \<Rightarrow> go_error + 'a) \<Rightarrow> http_request \<Rightarrow> go_error + 'a" where
  "decode_body dec r = if_ok (rq_body r) dec"

text \<open>The validator is a parameter: \<open>None\<close> accepts.\<close>

type_synonym 'a validator = "'a \<Rightarrow> go_error option"

text \<open>The two steps most handlers start with; the continuation runs on a decoded, valid body.\<close>

definition with_body :: "(json \<Rightarrow> go_error + 'a) \<Rightarrow> 'a validator \<Rightarrow> ctx \<Rightarrow> http_request \<Rightarrow> 's \<Rightarrow>
    ('a \<Rightarrow> 's \<times> reply) \<Rightarrow> 's \<times> reply" where
  "with_body dec validate c r st k =
     (case decode_body dec r of
        Inl e \<Rightarrow> (st, reply c (failed 400 (''failed decoding request body with error='' @ Error e)))
      | Inr reqBody \<Rightarrow>
          (case validate reqBody of
             Some e \<Rightarrow> (st, reply c (failed 400 (''failed validating request body with error='' @ Error e)))
           | None \<Rightarrow> k reqBody))"

text \<open>Answering a service call: its panic is the handler's.\<close>

definition answer :: "'s \<times> (go_error + 'a) outcome \<Rightarrow> (go_error \<Rightarrow> reply) \<Rightarrow> ('a \<Rightarrow> reply) \<Rightarrow> 's \<times> reply" where
  "answer p bad good =
     (fst p, and_then (snd p) (\<lambda>r. case r of Inl e \<Rightarrow> bad e | Inr a \<Rightarrow> good a))"

definition ProductController_InsertProduct ::
    "'s cache_ops \<Rightarrow> req_product validator \<Rightarrow> request_env \<Rightarrow> 's shop_state handler" where
  "ProductController_InsertProduct ops validate env c r st =
     with_body decode_req_product validate c r st (\<lambda>reqBody.
       answer (ProductService_InsertProduct ops env reqBody st)
         (\<lambda>e. reply c (failed 400 (''failed inserting product with error='' @ Error e)))
         (\<lambda>product. reply c (success 200 ''successfully inserted product'' (DProduct product))))"

definition ProductController_GetProducts :: "request_env \<Rightarrow> 's shop_state handler" where
  "ProductController_GetProducts env c r st =
     answer (ProductService_GetProducts env st)
       (\<lambda>e. reply c (failed 400 (''failed get products with error='' @ Error e)))
       (\<lambda>products. reply c (success 200 ''products found'' (DProducts products)))"

definition ProductController_FindProductById ::
    "'s cache_ops \<Rightarrow> request_env \<Rightarrow> 's shop_state handler" where
  "ProductController_FindProductById ops env c r st =
     (case uuid_Parse (map_get (rq_vars r) ''productId'') of
        Inl e \<Rightarrow> (st, reply c (failed 400
                   (''failed get product id from pathValues with error='' @ uuid_error_text e)))
      | Inr i \<Rightarrow>
          answer (ProductService_FindProductById ops env i st)
            (\<lambda>e. reply c (failed 400 (''failed finding product with id='' @ uuid_String i @
                    '' with error='' @ Error e)))
            (\<lambda>product. reply c (success 200 (''product id='' @ uuid_String i @ '' found'')
                          (DProduct product))))"

definition ProductController_RemoveProduct ::
    "'s cache_ops \<Rightarrow> req_product validator \<Rightarrow> request_env \<Rightarrow> 's shop_state handler" where
  "ProductController_RemoveProduct ops validate env c r st =
     (case uuid_Parse (map_get (rq_pathValues r) ''productId'') of
        Inl e \<Rightarrow> (st, reply c (failed 400
                   (''failed getting pathvalue productId with error='' @ uuid_error_text e)))
      | Inr i \<Rightarrow>
          with_body decode_req_product validate c r st (\<lambda>reqBody.
            answer (ProductService_RemoveProduct ops env i st)
              (\<lambda>e. reply c (failed 400 (''failed remove product with error='' @ Error e)))
              (\<lambda>product. reply c (success 200 ''successfully inserted product'' (DProductRow product)))))"

definition ProductController_UpdateProduct ::
    "'s cache_ops \<Rightarrow> req_product validator \<Rightarrow> request_env \<Rightarrow> 's shop_state handler" where
  "ProductController_UpdateProduct ops validate env c r st =
     (case uuid_Parse (map_get (rq_pathValues r) ''productId'') of
        Inl e \<Rightarrow> (st, reply c (failed 400
                   (''failed getting pathValue productId with error='' @ uuid_error_text e)))
      | Inr i \<Rightarrow>
          with_body decode_req_product validate c r st (\<lambda>reqBody.
            answer (ProductService_UpdateProduct ops env i reqBody st)
              (\<lambda>e. reply c (failed 400 (''failed updating product with error='' @ Error e)))
              (\<lambda>product. reply c (success 200 ''successfully updated product'' (DProductRow product)))))"

end
