(* ===== verification/UserService.thy ===== *)
theory UserService
  imports ProductService
begin

text \<open>
  The user service: \<open>user/internal/service/user.go\<close> and its controller. \<open>bcrypt\<close> and the signing
  of tokens are parameters. The login token is stored as a plain string (\<open>SETEX\<close>) but looked for
  as a JSON value (\<open>JSON.GET\<close>).
\<close>

section \<open>Parameters\<close>

record jwt_claims =
  cl_Audience :: "string list"
  cl_Issuer :: string
  cl_Subject :: string
  cl_ExpiresAt :: time
  cl_IssuedAt :: time
  cl_ID :: string

record crypto =
  CompareHashAndPassword :: "string \<Rightarrow> string \<Rightarrow> go_error option"
  GenerateFromPassword :: "string \<Rightarrow> go_error + string"
  SignedString :: "jwt_claims \<Rightarrow> go_error + string"

text \<open>\<open>30 * time.Minute\<close>, with instants in nanoseconds.\<close>

definition thirty_minutes :: time where
  "thirty_minutes = 30 * 60 * 1000000000"

text \<open>What \<open>Login\<close> returns: the text of a token it signed, or the JSON text it found.\<close>

datatype login_token = Signed string | CachedText json

section \<open>The service\<close>

definition user_key :: "uuid \<Rightarrow> string" where
  "user_key i = sprintf_s ''user:%s'' (uuid_String i)"

definition login_key :: "string \<Rightarrow> string" where
  "login_key email = sprintf_s ''login_user:%s'' email"

lemma user_key_eq: "user_key i = ''user:'' @ uuid_String i"
  by (simp add: user_key_def)

lemma login_key_eq: "login_key e = ''login_user:'' @ e"
  by (simp add: login_key_def)

lemma login_key_not_user_key [simp]: "login_key e \<noteq> user_key i" "user_key i \<noteq> login_key e"
  by (simp_all add: user_key_eq login_key_eq)

definition login_claims :: "user_row \<Rightarrow> time \<Rightarrow> uuid \<Rightarrow> jwt_claims" where
  "login_claims user tokenCreationTime jti =
     \<lparr>cl_Audience = [''audience-user''], cl_Issuer = ''user-service'',
      cl_Subject = uuid_String (user_ID user),
      cl_ExpiresAt = tokenCreationTime + thirty_minutes, cl_IssuedAt = tokenCreationTime,
      cl_ID = uuid_String jti\<rparr>"

definition UserService_Login ::
    "'s cache_ops \<Rightarrow> crypto \<Rightarrow> request_env \<Rightarrow> login_request \<Rightarrow> ('s, go_error + login_token) service" where
  "UserService_Login ops cr env param st =
     (case cache_hit ops (login_key (lr_Email param)) (ss_cache st) of
        Some signedToken \<Rightarrow> (st, Ret (Inr (CachedText signedToken)))
      | None \<Rightarrow>
          (case db_call env 0 (FindByEmail (ss_db st) (lr_Email param)) of
             Inl e \<Rightarrow> (st, Ret (Inl (ErrWrap (''failed finding user by email='' @ lr_Email param @
                         '' with error='') (ErrJoin [e, ErrUserNotFound]))))
           | Inr user \<Rightarrow>
               (case CompareHashAndPassword cr (user_Password user) (lr_Password param) of
                  Some e \<Rightarrow> (st, Ret (Inl (ErrWrap
                     ''failed verifying hashed password and password with error=''
                     (ErrJoin [e, ErrPasswordMismatch]))))
                | None \<Rightarrow>
                    (case SignedString cr (login_claims user (qe_now env) (qe_newId env 0)) of
                       Inl e \<Rightarrow> (st, Ret (Inl (ErrWrap ''failed signing token with error='' e)))
                     | Inr signedToken \<Rightarrow>
                         (case SetEx ops (login_key (lr_Email param)) signedToken (ss_cache st) of
                            (Some e, cache') \<Rightarrow> (st\<lparr>ss_cache := cache'\<rparr>,
                              Ret (Inl (ErrWrap ''failed inserting token to cache with error='' e)))
                          | (None, cache') \<Rightarrow>
                              (st\<lparr>ss_cache := cache'\<rparr>, Ret (Inr (Signed signedToken))))))))"

definition UserService_Register ::
    "'s cache_ops \<Rightarrow> crypto \<Rightarrow> request_env \<Rightarrow> register_request \<Rightarrow> ('s, go_error + user_row) service" where
  "UserService_Register ops cr env param st =
     (case db_call env 0 (FindByEmail (ss_db st) (rr_Email param)) of
        Inr u \<Rightarrow> (st, Ret (Inl ErrEmailExist))
      | Inl e0 \<Rightarrow>
          (case GenerateFromPassword cr (rr_Password param) of
             Inl e \<Rightarrow> (st, Ret (Inl (ErrWrap ''failed hashing password with error=''
                        (ErrJoin [e, ErrFailedHashToken]))))
           | Inr hashed \<Rightarrow>
               (case db_call env 1 (InsertUser (qe_newId env 0) (ss_db st)
                       \<lparr>iup_Username = rr_Username param, iup_Email = rr_Email param,
                        iup_Password = hashed, iup_CreatedAt = timestamptz_of_time (qe_now env),
                        iup_UpdatedAt = timestamptz_of_time (qe_now env)\<rparr>) of
                  Inl e \<Rightarrow> (st, Ret (Inl (ErrWrap ''failed inserting user to database with error='' e)))
                | Inr (db', user) \<Rightarrow>
                    (case JSONSet ops (user_key (user_ID user)) (user_row_json user) (ss_cache st) of
                       (e, cache') \<Rightarrow> (st\<lparr>ss_db := db', ss_cache := cache'\<rparr>, Ret (Inr user))))))"

definition UserService_FindUserById ::
    "'s cache_ops \<Rightarrow> request_env \<Rightarrow> uuid \<Rightarrow> ('s, go_error + user_row) service" where
  "UserService_FindUserById ops env i st =
     (case cache_hit ops (user_key i) (ss_cache st) of
        None \<Rightarrow>
          (case db_call env 0 (FindById (ss_db st) i) of
             Inl e \<Rightarrow> (st, Ret (Inl (ErrWrap ''failed finding user from database with error='' e)))
           | Inr user \<Rightarrow>
               (case JSONSet ops (user_key i) (user_row_json user) (ss_cache st) of
                  (Some e, cache') \<Rightarrow> (st\<lparr>ss_cache := cache'\<rparr>,
                     Ret (Inl (ErrWrap ''failed inserting user to cache with error='' e)))
                | (None, cache') \<Rightarrow> (st\<lparr>ss_cache := cache'\<rparr>, Ret (Inr user))))
      | Some jsonCache \<Rightarrow>
          (st, Ret (case decode_user_row jsonCache of
             Inl e \<Rightarrow> Inl (ErrWrap ''failed unmarshaling user from cache with error='' e)
           | Inr user \<Rightarrow> Inr user)))"

interpretation user_login:
  keeps_schema "\<lambda>(env, param). UserService_Login ops cr env param" for ops cr
  by unfold_locales
    (auto simp: UserService_Login_def split: sum.split prod.split option.split)

interpretation user_register:
  keeps_schema "\<lambda>(env, param). UserService_Register ops cr env param" for ops cr
  by unfold_locales
    (auto simp: UserService_Register_def dest: InsertUser_ok split: sum.split prod.split option.split)

interpretation user_find:
  keeps_schema "\<lambda>(env, i). UserService_FindUserById ops env i" for ops
  by unfold_locales
    (auto simp: UserService_FindUserById_def split: sum.split prod.split option.split)

section \<open>Logging in takes the password\<close>

text \<open>No JSON value sits under a login key; every operation of the service keeps it so.\<close>

definition login_clean :: "'s cache_ops \<Rightarrow> 's \<Rightarrow> bool" where
  "login_clean ops s \<longleftrightarrow> (\<forall>e. cache_hit ops (login_key e) s = None)"

context cache_store
begin

lemma Login_clean:
  assumes "login_clean ops (ss_cache st)"
  shows "login_clean ops (ss_cache (fst (UserService_Login ops cr env param st)))"
proof -
  have step: "login_clean ops s'" if "SetEx ops (login_key m) t (ss_cache st) = (e, s')" for m t e s'
    unfolding login_clean_def
  proof
    fix m'
    show "cache_hit ops (login_key m') s' = None"
    proof (cases "login_key m' = login_key m")
      case True
      with that assms setex_failed [of "login_key m" t "ss_cache st"] show ?thesis
        by (cases e) (auto simp: login_clean_def intro: setex_miss)
    next
      case False
      from setex_other [OF that this] assms show ?thesis by (simp add: login_clean_def)
    qed
  qed
  show ?thesis
    using assms step
    by (auto simp: UserService_Login_def split: sum.split prod.split option.split)
qed

lemma Register_clean:
  "login_clean ops (ss_cache st) \<Longrightarrow>
     login_clean ops (ss_cache (fst (UserService_Register ops cr env param st)))"
  by (auto simp: UserService_Register_def login_clean_def set_other split: sum.split prod.split)

lemma FindUserById_clean:
  "login_clean ops (ss_cache st) \<Longrightarrow>
     login_clean ops (ss_cache (fst (UserService_FindUserById ops env i st)))"
  by (auto simp: UserService_FindUserById_def login_clean_def set_other
      split: sum.split prod.split option.split)

text \<open>A registered user is found again, from the cache.\<close>

lemma Register_then_Find:
  assumes "UserService_Register ops cr env param st = (st1, Ret (Inr user))"
    and "JSONSet ops (user_key (user_ID user)) (user_row_json user) (ss_cache st) = (None, cache')"
  shows "ss_cache st1 = cache' \<and> cache_hit ops (user_key (user_ID user)) (ss_cache st1) =
    Some (user_row_json user)"
  using assms set_hit
  by (auto simp: UserService_Register_def split: sum.splits prod.splits)

end

lemma Login_checks_password:
  assumes "UserService_Login ops cr env param st = (st', Ret (Inr tok))"
    and "login_clean ops (ss_cache st)"
  shows "\<exists>user t. user \<in> set (db_users (ss_db st)) \<and> user_Email user = lr_Email param \<and>
    CompareHashAndPassword cr (user_Password user) (lr_Password param) = None \<and>
    SignedString cr (login_claims user (qe_now env) (qe_newId env 0)) = Inr t \<and> tok = Signed t"
  using assms
  by (auto simp: UserService_Login_def login_clean_def FindByEmail_def
      split: sum.splits prod.splits option.splits dest!: one_row_filter)

lemma Register_success:
  assumes "UserService_Register ops cr env param st = (st', Ret (Inr user))" and "qe_fault env 0 = None"
  shows "rr_Email param \<notin> user_Email ` set (db_users (ss_db st)) \<and>
    db_users (ss_db st') = db_users (ss_db st) @ [user] \<and> user_Email user = rr_Email param \<and>
    user_Username user = rr_Username param \<and>
    GenerateFromPassword cr (rr_Password param) = Inr (user_Password user)"
proof -
  from assms obtain e0 hashed db' where
    f: "FindByEmail (ss_db st) (rr_Email param) = Inl e0" and
    h: "GenerateFromPassword cr (rr_Password param) = Inr hashed" and
    i: "InsertUser (qe_newId env 0) (ss_db st)
      \<lparr>iup_Username = rr_Username param, iup_Email = rr_Email param, iup_Password = hashed,
       iup_CreatedAt = timestamptz_of_time (qe_now env),
       iup_UpdatedAt = timestamptz_of_time (qe_now env)\<rparr> = Inr (db', user)" and
    d: "ss_db st' = db'"
    by (auto simp: UserService_Register_def db_call_def split: sum.splits prod.splits option.splits)
  from f have "rr_Email param \<notin> user_Email ` set (db_users (ss_db st))"
    by (auto simp: FindByEmail_def one_row_Inl_iff filter_empty_conv)
  moreover have "db_users db' = db_users (ss_db st) @ [user] \<and> user_Email user = rr_Email param \<and>
      user_Username user = rr_Username param \<and> user_Password user = hashed"
    using i by (auto simp: InsertUser_def Let_def split: if_splits)
  ultimately show ?thesis using h d by simp
qed

section \<open>The controller\<close>

fun decode_login :: "json \<Rightarrow> go_error + login_request" where
  "decode_login (JObj kvs) =
     if_ok (decode_string (json_field ''email'' kvs)) (\<lambda>em.
     if_ok (decode_string (json_field ''password'' kvs)) (\<lambda>pw.
       Inr \<lparr>lr_Email = em, lr_Password = pw\<rparr>))"
| "decode_login JNull = Inr \<lparr>lr_Email = [], lr_Password = []\<rparr>"
| "decode_login j = Inl (typeError ''request.LoginRequest'')"

fun decode_register :: "json \<Rightarrow> go_error + register_request" where
  "decode_register (JObj kvs) =
     if_ok (decode_string (json_field ''username'' kvs)) (\<lambda>nm.
     if_ok (decode_string (json_field ''email'' kvs)) (\<lambda>em.
     if_ok (decode_string (json_field ''password'' kvs)) (\<lambda>pw.
       Inr \<lparr>rr_Username = nm, rr_Email = em, rr_Password = pw\<rparr>)))"
| "decode_register JNull = Inr \<lparr>rr_Username = [], rr_Email = [], rr_Password = []\<rparr>"
| "decode_register j = Inl (typeError ''request.Register'')"

text \<open>\<open>MarshalJSON\<close> of both requests masks the password.\<close>

definition login_json :: "login_request \<Rightarrow> json" where
  "login_json l = JObj [(''email'', JStr (lr_Email l)), (''password'', JStr ''***'')]"

definition register_json :: "register_request \<Rightarrow> json" where
  "register_json r = JObj [(''username'', JStr (rr_Username r)), (''email'', JStr (rr_Email r)),
     (''password'', JStr ''***'')]"

text \<open>
  The token the handler sends: a cached value would be sent as its JSON text, which the model
  keeps as a parameter (\<open>text\<close>, \<open>json.Marshal\<close>'s rendering).
\<close>

definition token_text :: "(json \<Rightarrow> string) \<Rightarrow> login_token \<Rightarrow> string" where
  "token_text text t = (case t of Signed s \<Rightarrow> s | CachedText j \<Rightarrow> text j)"

text \<open>Any failure leaves the token empty, so the condition holds whatever the error is.\<close>

definition UserController_Login ::
    "'s cache_ops \<Rightarrow> crypto \<Rightarrow> (json \<Rightarrow> string) \<Rightarrow> login_request validator \<Rightarrow> request_env \<Rightarrow>
      's shop_state handler" where
  "UserController_Login ops cr text validate env c r st =
     with_body decode_login validate c r st (\<lambda>reqBody.
       let p = UserService_Login ops cr env reqBody st in
       (fst p, and_then (snd p) (\<lambda>res.
          let token = (case res of Inl e \<Rightarrow> [] | Inr t \<Rightarrow> token_text text t);
              notFound = (case res of Inl e \<Rightarrow> errors_Is e ErrUserNotFound | Inr t \<Rightarrow> False)
          in if notFound \<or> token = []
             then reply c (failed 400 (Error ErrUserNotFound))
             else reply c (success 200 ''login success'' (DToken token)))))"

text \<open>The second test compares with a fresh pointer, which no error is equal to.\<close>

definition InvalidValidationError :: go_error where
  "InvalidValidationError = ErrNew ''validator: (nil)''"

definition UserController_Register ::
    "'s cache_ops \<Rightarrow> crypto \<Rightarrow> register_request validator \<Rightarrow> request_env \<Rightarrow> 's shop_state handler" where
  "UserController_Register ops cr validate env c r st =
     (case decode_body decode_register r of
        Inl e \<Rightarrow> (st, reply c (failed 400 (Error e)))
      | Inr reqBody \<Rightarrow>
          (if (case validate reqBody of None \<Rightarrow> False | Some e \<Rightarrow> errors_Is e InvalidValidationError)
           then (st, reply c (failed 400 (''failed validating request body with error='' @
                   (case validate reqBody of None \<Rightarrow> [] | Some e \<Rightarrow> Error e))))
           else answer (UserService_Register ops cr env reqBody st)
             (\<lambda>e. let err = ErrWrap ''failed registering user with error='' e in
                if errors_Is err ErrEmailExist
                then reply c (failed 409 (Error ErrEmailExist))
                else reply c (failed 400 (Error err)))
             (\<lambda>user. reply c (success 200 (''user with username='' @ user_Username user @
                '' and email='' @ user_Email user @ '' is registered'') DNone))))"

definition UserController_FindUserById ::
    "'s cache_ops \<Rightarrow> request_env \<Rightarrow> 's shop_state handler" where
  "UserController_FindUserById ops env c r st =
     (case rq_vars r ''userId'' of
        None \<Rightarrow> (st, reply c (failed 400 ''userId not found in pathValues''))
      | Some pathValue \<Rightarrow>
          (case uuid_Parse pathValue of
             Inl e \<Rightarrow> (st, reply c (failed 400
                        (''failed validating userId with error='' @ uuid_error_text e)))
           | Inr userId \<Rightarrow>
               answer (UserService_FindUserById ops env userId st)
                 (\<lambda>e. reply c (failed 400 (''failed finding user by id with error='' @ Error e)))
                 (\<lambda>user. reply c (success 200 (''user with id='' @ uuid_String (user_ID user) @
                    '' is found'') DNone))))"

lemma Register_ignores_validation:
  "UserController_Register ops cr validate env = UserController_Register ops cr validate' env"
proof -
  have "\<not> (case validate q of None \<Rightarrow> False | Some e \<Rightarrow> errors_Is e InvalidValidationError)"
    for validate :: "register_request validator" and q
    by (simp add: InvalidValidationError_def split: option.split)
  then show ?thesis
    by (intro ext) (simp add: UserController_Register_def cong: sum.case_cong)
qed

end
