(* ===== verification/CartService.thy ===== *)
theory CartService
  imports UserService
begin

text \<open>
  The cart service: \<open>cart/internal/service/cart.go\<close> and its controller. The user service and the
  order service are reached over HTTP and are parameters: the status a request for a user gets,
  and the status and message a checkout gets.
\<close>

section \<open>The other services\<close>

text \<open>An HTTP call fails, or has a status; the answer to a checkout also has a JSON body.\<close>

record peers =
  find_user :: "uuid \<Rightarrow> go_error + nat"
  checkout_order :: "string \<Rightarrow> create_order \<Rightarrow> go_error + (nat \<times> (go_error + string))"

section \<open>Keys\<close>

definition KEY_CARTS :: string where
  "KEY_CARTS = ''carts:%s''"

definition cart_key :: "uuid \<Rightarrow> string" where
  "cart_key i = sprintf_s KEY_CARTS (uuid_String i)"

definition user_carts_key :: "uuid \<Rightarrow> string" where
  "user_carts_key i = sprintf_s ''carts:user_id:%s'' (uuid_String i)"

lemma cart_key_eq: "cart_key i = ''carts:'' @ uuid_String i"
  by (simp add: cart_key_def KEY_CARTS_def)

lemma cart_key_inj [simp]: "cart_key i = cart_key j \<longleftrightarrow> i = j"
  by (simp add: cart_key_eq)

text \<open>The key \<open>RemoveCartItem\<close> deletes is the format itself, not filled in.\<close>

lemma unformatted_key: "KEY_CARTS @ uuid_String i \<noteq> cart_key j"
proof -
  have "length (KEY_CARTS @ uuid_String i) \<noteq> length (cart_key j)"
    by (simp add: cart_key_eq KEY_CARTS_def)
  then show ?thesis by metis
qed

section \<open>Inserting a cart\<close>

text \<open>The loop that merges the items of one product: the last price, the sum of the quantities.\<close>

definition mergeCartItem :: "(string \<rightharpoonup> req_cart_item) \<Rightarrow> req_cart_item \<Rightarrow> (string \<rightharpoonup> req_cart_item)" where
  "mergeCartItem mp item =
     (let k = uuid_String (rci_ProductId item) in
      case mp k of
        Some existing \<Rightarrow> mp(k \<mapsto> \<lparr>rci_ProductId = rci_ProductId item, rci_Price = rci_Price item,
                                  rci_Quantity = rci_Quantity existing + rci_Quantity item\<rparr>)
      | None \<Rightarrow> mp(k \<mapsto> item))"

definition mergeCartItems :: "req_cart_item list \<Rightarrow> (string \<rightharpoonup> req_cart_item)" where
  "mergeCartItems items = foldl mergeCartItem Map.empty items"

text \<open>The merged items in the order \<open>ks\<close> the map is iterated in, with fresh identifiers.\<close>

definition cart_item_args :: "request_env \<Rightarrow> uuid \<Rightarrow> req_cart_item list \<Rightarrow> insert_cart_item_params list" where
  "cart_item_args env cartId items =
     map (\<lambda>(n, item). \<lparr>ici_ID = qe_newId env (Suc n), ici_CartID = cartId,
            ici_ProductID = rci_ProductId item, ici_Quantity = rci_Quantity item,
            ici_Price = numeric_of_decimal (rci_Price item)\<rparr>) (enumerate 0 items)"

text \<open>The statements of the transaction, up to the response.\<close>

definition insert_cart_tx :: "request_env \<Rightarrow> string list \<Rightarrow> req_cart \<Rightarrow> uuid \<Rightarrow> database \<Rightarrow>
    go_error + (database \<times> uuid \<times> res_cart)" where
  "insert_cart_tx env ks param userID db =
     (case db_call env 0 (Inr ()) of
        Inl e \<Rightarrow> Inl (ErrWrap ''failed initializing transaction with error='' e)
      | Inr u \<Rightarrow>
      (case db_call env 1 (InsertCart (qe_newId env 0) (qe_now env) db userID) of
        Inl e \<Rightarrow> Inl (ErrWrap ''failed inserting cart with error='' e)
      | Inr (db1, cart) \<Rightarrow>
      (case db_call env 2 (InsertCartItems (qe_now env) db1 (cart_item_args env (cart_ID cart)
              (map snd (go_range ks (mergeCartItems (rc_CartItems param)))))) of
        Inl e \<Rightarrow> Inl (ErrWrap ''failed inserting cartItems to database with error='' e)
      | Inr (db2, n) \<Rightarrow>
      (case db_call env 3 (FindCartById db2 \<lparr>fcp_ID = userID, fcp_ID_2 = cart_ID cart\<rparr>) of
        Inl e \<Rightarrow> Inl (ErrWrap ''failed finding cart by id with error='' e)
      | Inr cartDb \<Rightarrow>
      (case FindCartByIdRow_Response cartDb of
        Inl e \<Rightarrow> Inl (ErrWrap ''failed mapping cart with error='' e)
      | Inr res \<Rightarrow> Inr (db2, cart_ID cart, res))))))"

text \<open>The cache is written before the commit; a failed commit takes the entry out again.\<close>

definition CartService_InsertCart ::
    "'s cache_ops \<Rightarrow> peers \<Rightarrow> request_env \<Rightarrow> string list \<Rightarrow> req_cart \<Rightarrow> uuid \<Rightarrow> ctx \<Rightarrow>
      ('s, go_error + res_cart) service" where
  "CartService_InsertCart ops ps env ks param userID c st =
     (case RequestIDFromContext c of
        Panic m \<Rightarrow> (st, Panic m)
      | Blocked \<Rightarrow> (st, Blocked)
      | Ret requestId \<Rightarrow>
      (case find_user ps userID of
        Inl e \<Rightarrow> (st, Ret (Inl (ErrWrap (''failed getting userId='' @ uuid_String userID @
                   '' with error='') e)))
      | Inr status \<Rightarrow>
          if status \<noteq> 200
          then (st, Ret (Inl (ErrNew (''userId='' @ uuid_String userID @ '' not found''))))
          else case insert_cart_tx env ks param userID (ss_db st) of
            Inl e \<Rightarrow> (st, Ret (Inl e))
          | Inr (db', cartId, res) \<Rightarrow>
              (case JSONSet ops (cart_key cartId) (res_cart_json res) (ss_cache st) of
                 (Some e, cache') \<Rightarrow> (st\<lparr>ss_cache := cache'\<rparr>,
                    Ret (Inl (ErrWrap ''failed inserting cart to cache with error='' e)))
               | (None, cache') \<Rightarrow>
                   (case qe_fault env 4 of
                      Some e \<Rightarrow>
                        (case JSONDel ops (cart_key cartId) cache' of
                           (Some ne, cache'') \<Rightarrow> (st\<lparr>ss_cache := cache''\<rparr>,
                              Ret (Inl (ErrWrap ''failed committing transaction with error=''
                                (ErrJoin [e, ne]))))
                         | (None, cache'') \<Rightarrow> (st\<lparr>ss_cache := cache''\<rparr>, Ret (Inl e)))
                    | None \<Rightarrow> (st\<lparr>ss_db := db', ss_cache := cache'\<rparr>, Ret (Inr res))))))"

section \<open>Finding and removing\<close>

text \<open>The query takes the user first and the cart second; the code passes the cart first.\<close>

definition CartService_FindCartById ::
    "'s cache_ops \<Rightarrow> request_env \<Rightarrow> find_cart_by_id \<Rightarrow> ('s, go_error + res_cart) service" where
  "CartService_FindCartById ops env param st =
     (case cache_hit ops (cart_key (fcbi_ID param)) (ss_cache st) of
        None \<Rightarrow>
          (case db_call env 0 (FindCartById (ss_db st)
                  \<lparr>fcp_ID = fcbi_ID param, fcp_ID_2 = fcbi_UserId param\<rparr>) of
             Inl e \<Rightarrow> (st, Ret (Inl (ErrWrap ''failed finding cart in db with error='' e)))
           | Inr cart \<Rightarrow>
               (case JSONSet ops (cart_key (fcbi_ID param)) (cart_row_json cart) (ss_cache st) of
                  (Some e, cache') \<Rightarrow> (st\<lparr>ss_cache := cache'\<rparr>,
                     Ret (Inl (ErrWrap ''failed inserting cart in cache with error='' e)))
                | (None, cache') \<Rightarrow> (st\<lparr>ss_cache := cache'\<rparr>,
                     Ret (case FindCartByIdRow_Response cart of
                        Inl e \<Rightarrow> Inl (ErrWrap ''failed mapping cart with error='' e)
                      | Inr res \<Rightarrow> Inr res))))
      | Some jsonCache \<Rightarrow>
          (st, Ret (case decode_res_cart jsonCache of
             Inl e \<Rightarrow> Inl (ErrWrap ''failed unmarshaling cache with error='' e)
           | Inr cart \<Rightarrow> Inr cart)))"

text \<open>On a hit the named result \<open>carts\<close> is returned as it is: nil.\<close>

definition CartService_FindCartByUserId ::
    "'s cache_ops \<Rightarrow> request_env \<Rightarrow> uuid \<Rightarrow> ('s, go_error + find_cart_by_id_row list) service" where
  "CartService_FindCartByUserId ops env userId st =
     (case cache_hit ops (user_carts_key userId) (ss_cache st) of
        None \<Rightarrow>
          (case db_call env 0 (Inr (FindCartByUserId (ss_db st) userId)) of
             Inl e \<Rightarrow> (st, Ret (Inl (ErrWrap ''failed finding carts in db with error='' e)))
           | Inr carts \<Rightarrow>
               (case JSONSet ops (user_carts_key userId) (JArr (map cart_row_json carts)) (ss_cache st) of
                  (Some e, cache') \<Rightarrow> (st\<lparr>ss_cache := cache'\<rparr>,
                     Ret (Inl (ErrWrap ''failed inserting cache with error='' e)))
                | (None, cache') \<Rightarrow> (st\<lparr>ss_cache := cache'\<rparr>, Ret (Inr carts))))
      | Some jsonString \<Rightarrow> (st, Ret (Inr [])))"

definition CartService_RemoveCartItem ::
    "'s cache_ops \<Rightarrow> request_env \<Rightarrow> remove_cart_item \<Rightarrow> ('s, go_error + unit) service" where
  "CartService_RemoveCartItem ops env param st =
     (case db_call env 0 (FindCartById (ss_db st)
             \<lparr>fcp_ID = rmci_CartId param, fcp_ID_2 = rmci_UserId param\<rparr>) of
        Inl e \<Rightarrow> (st, Ret (Inl (ErrWrap (''failed finding cartId='' @ uuid_String (rmci_ID param) @
                   '' with error='') e)))
      | Inr cart \<Rightarrow>
      (case db_call env 1 (FindCartItemById (ss_db st) (rmci_ID param)) of
        Inl e \<Rightarrow> (st, Ret (Inl (ErrWrap ''failed finding cart item with error='' e)))
      | Inr item \<Rightarrow>
      (case Del ops (KEY_CARTS @ uuid_String (rmci_CartId param)) (ss_cache st) of
        (Some e, cache') \<Rightarrow> (st\<lparr>ss_cache := cache'\<rparr>,
           Ret (Inl (ErrWrap ''failed deleting cart from cache with error='' e)))
      | (None, cache') \<Rightarrow>
      (case db_call env 2 (DeleteCartItemFromCartsById (ss_db st)
              \<lparr>dci_ID = rmci_ID param, dci_CartID = rmci_CartId param\<rparr>) of
        Inl e \<Rightarrow> (st\<lparr>ss_cache := cache'\<rparr>,
           Ret (Inl (ErrWrap ''failed deleting cart item with error='' e)))
      | Inr (db', item') \<Rightarrow> (st\<lparr>ss_db := db', ss_cache := cache'\<rparr>, Ret (Inr ()))))))"

text \<open>The call of \<open>FindCartById\<close> inside counts as database call 0; the delete is call 1.\<close>

definition CartService_RemoveCart ::
    "'s cache_ops \<Rightarrow> request_env \<Rightarrow> remove_cart \<Rightarrow> ('s, go_error + unit) service" where
  "CartService_RemoveCart ops env param st =
     (case CartService_FindCartById ops env
             \<lparr>fcbi_ID = rmc_ID param, fcbi_UserId = rmc_UserId param\<rparr> st of
        (st1, Ret (Inr cart)) \<Rightarrow>
          (case db_call env 1 (DeleteCartByIdAndUserId (ss_db st1)
                  \<lparr>dcp_ID = rmc_ID param, dcp_UserID = rmc_UserId param\<rparr>) of
             Inl e \<Rightarrow> (st1, Ret (Inl (ErrWrap ''failed deleting cart with error='' e)))
           | Inr (db', row) \<Rightarrow>
               (case JSONDel ops (cart_key (rmc_ID param)) (ss_cache st1) of
                  (Some e, cache') \<Rightarrow> (st1\<lparr>ss_db := db', ss_cache := cache'\<rparr>,
                     Ret (Inl (ErrWrap ''failed deleting cart from cache with error='' e)))
                | (None, cache') \<Rightarrow> (st1\<lparr>ss_db := db', ss_cache := cache'\<rparr>, Ret (Inr ()))))
      | (st1, Ret (Inl e)) \<Rightarrow> (st1, Ret (Inl (ErrWrap ''failed finding cart with error='' e)))
      | (st1, Panic m) \<Rightarrow> (st1, Panic m)
      | (st1, Blocked) \<Rightarrow> (st1, Blocked))"

section \<open>Checkout\<close>

text \<open>The environment of the removal at the end: its own database calls.\<close>

definition shift_env :: "nat \<Rightarrow> request_env \<Rightarrow> request_env" where
  "shift_env n env = env\<lparr>qe_fault := (\<lambda>m. qe_fault env (n + m))\<rparr>"

definition CartService_CheckoutCart ::
    "'s cache_ops \<Rightarrow> peers \<Rightarrow> request_env \<Rightarrow> ctx \<Rightarrow> jwt_token \<Rightarrow> checkout_cart \<Rightarrow>
      ('s, go_error + res_cart) service" where
  "CartService_CheckoutCart ops ps env c jwt param st =
     (case RequestIDFromContext c of
        Panic m \<Rightarrow> (st, Panic m)
      | Blocked \<Rightarrow> (st, Blocked)
      | Ret requestId \<Rightarrow>
      (case find_user ps (cc_UserId param) of
        Inl e \<Rightarrow> (st, Ret (Inl (ErrWrap ''failed sending request to user service with error='' e)))
      | Inr status \<Rightarrow>
          if status \<noteq> 200 then (st, Ret (Inl (ErrNew ''user not found in user service'')))
          else case CartService_FindCartById ops env
                      \<lparr>fcbi_ID = cc_CartId param, fcbi_UserId = cc_UserId param\<rparr> st of
            (st1, Panic m) \<Rightarrow> (st1, Panic m)
          | (st1, Blocked) \<Rightarrow> (st1, Blocked)
          | (st1, Ret (Inl e)) \<Rightarrow>
              (st1, Ret (Inl (ErrWrap ''failed finding cart by id with error='' e)))
          | (st1, Ret (Inr cart)) \<Rightarrow>
              (case checkout_order ps (''Bearer '' @ jwt_Raw jwt) (Cart_Order cart) of
                 Inl e \<Rightarrow> (st1, Ret (Inl (ErrWrap
                            ''failed sending checkout request to order service with error='' e)))
               | Inr (code, Inl e) \<Rightarrow> (st1, Ret (Inl e))
               | Inr (code, Inr message) \<Rightarrow>
                   if code \<noteq> 201
                   then (st1, Ret (Inl (ErrNew (''order service returned status code='' @
                           format_d (int code) @ '' with message='' @ message))))
                   else case CartService_RemoveCart ops (shift_env 1 env)
                               \<lparr>rmc_ID = cc_CartId param, rmc_UserId = cc_UserId param\<rparr> st1 of
                     (st2, Ret (Inr u)) \<Rightarrow> (st2, Ret (Inr cart))
                   | (st2, Ret (Inl e)) \<Rightarrow>
                       (st2, Ret (Inl (ErrWrap ''failed removing cart with error='' e)))
                   | (st2, Panic m) \<Rightarrow> (st2, Panic m)
                   | (st2, Blocked) \<Rightarrow> (st2, Blocked))))"

section \<open>Operations that keep the schema\<close>

lemma insert_cart_tx_ok: "insert_cart_tx env ks param uid db = Inr (db', i, res) \<Longrightarrow> db_ok db \<Longrightarrow> db_ok db'"
  by (auto simp: insert_cart_tx_def split: sum.splits prod.splits
      dest: InsertCart_ok InsertCartItems_ok)

lemma FindCartById_db [simp]: "ss_db (fst (CartService_FindCartById ops env param st)) = ss_db st"
  by (simp add: CartService_FindCartById_def split: option.split sum.split prod.split)

lemma RemoveCart_keeps:
  assumes "db_ok (ss_db st)"
  shows "db_ok (ss_db (fst (CartService_RemoveCart ops env param st)))"
proof -
  obtain st1 out where f: "CartService_FindCartById ops env
      \<lparr>fcbi_ID = rmc_ID param, fcbi_UserId = rmc_UserId param\<rparr> st = (st1, out)"
    by (metis surj_pair)
  then have "ss_db st1 = ss_db st" by (metis FindCartById_db fst_conv)
  with assms f show ?thesis
    by (auto simp: CartService_RemoveCart_def dest: DeleteCartByIdAndUserId_ok
        split: outcome.split sum.split prod.split option.split)
qed

interpretation cart_insert:
  keeps_schema "\<lambda>(env, ks, param, uid, c). CartService_InsertCart ops ps env ks param uid c" for ops ps
  by unfold_locales
    (auto simp: CartService_InsertCart_def dest: insert_cart_tx_ok
      split: outcome.split sum.split prod.split option.split)

interpretation cart_remove_item:
  keeps_schema "\<lambda>(env, param). CartService_RemoveCartItem ops env param" for ops
  by unfold_locales
    (auto simp: CartService_RemoveCartItem_def dest: DeleteCartItemFromCartsById_ok
      split: sum.split prod.split option.split)

interpretation cart_remove:
  keeps_schema "\<lambda>(env, param). CartService_RemoveCart ops env param" for ops
  by unfold_locales (auto intro: RemoveCart_keeps)

section \<open>The controller\<close>

fun decode_req_cart_item :: "json \<Rightarrow> go_error + req_cart_item" where
  "decode_req_cart_item (JObj kvs) =
     if_ok (decode_uuid (json_field ''product_id'' kvs)) (\<lambda>pid.
     if_ok (decode_decimal (json_field ''price'' kvs)) (\<lambda>pr.
     if_ok (decode_int32 (json_field ''quantity'' kvs)) (\<lambda>q.
       Inr \<lparr>rci_ProductId = pid, rci_Price = pr, rci_Quantity = q\<rparr>)))"
| "decode_req_cart_item JNull =
     Inr \<lparr>rci_ProductId = uuid_Nil, rci_Price = \<lparr>dec_value = None, dec_exp = 0\<rparr>, rci_Quantity = 0\<rparr>"
| "decode_req_cart_item j = Inl (typeError ''request.CartItem'')"

fun decode_req_cart :: "json \<Rightarrow> go_error + req_cart" where
  "decode_req_cart (JObj kvs) =
     if_ok (decode_list decode_req_cart_item (json_field ''cart_items'' kvs)) (\<lambda>items.
       Inr \<lparr>rc_CartItems = items\<rparr>)"
| "decode_req_cart JNull = Inr \<lparr>rc_CartItems = []\<rparr>"
| "decode_req_cart j = Inl (typeError ''request.Cart'')"

text \<open>The middle step of three handlers: the user of the token, or an answer 400.\<close>

definition with_user :: "ctx \<Rightarrow> 's \<Rightarrow> (uuid \<Rightarrow> 's \<times> reply) \<Rightarrow> 's \<times> reply" where
  "with_user c st k =
     (case UserIdFromJwtToken c of
        Panic m \<Rightarrow> (st, Panic m)
      | Blocked \<Rightarrow> (st, Blocked)
      | Ret (Inl e) \<Rightarrow>
          (st, reply c (failed 400 (''failed getting userId from jwtToken with error='' @ Error e)))
      | Ret (Inr userId) \<Rightarrow> k userId)"

definition CartController_InsertCart ::
    "'s cache_ops \<Rightarrow> peers \<Rightarrow> req_cart validator \<Rightarrow> request_env \<Rightarrow> string list \<Rightarrow> 's shop_state handler" where
  "CartController_InsertCart ops ps validate env ks c r st =
     with_body decode_req_cart validate c r st (\<lambda>reqBody.
     with_user c st (\<lambda>userId.
       answer (CartService_InsertCart ops ps env ks reqBody userId c st)
         (\<lambda>e. reply c (failed 400 (''failed inserting cart with error='' @ Error e)))
         (\<lambda>cart. reply c (success 200 ''successfully inserted cart'' (DCart cart)))))"

definition CartController_FindCartById ::
    "'s cache_ops \<Rightarrow> request_env \<Rightarrow> 's shop_state handler" where
  "CartController_FindCartById ops env c r st =
     (let v = map_get (rq_vars r) ''cartId'' in
      case uuid_Parse v of
        Inl e \<Rightarrow> (st, reply c (failed 400 (''failed validating cartId='' @
                   uuid_String (uuid_Parse_value v) @ '' with error='' @ uuid_error_text e)))
      | Inr cartId \<Rightarrow>
          with_user c st (\<lambda>userId.
            answer (CartService_FindCartById ops env \<lparr>fcbi_ID = cartId, fcbi_UserId = userId\<rparr> st)
              (\<lambda>e. reply c (failed 400 (''failed finding cartId='' @ uuid_String cartId @
                      '' with error='' @ Error e)))
              (\<lambda>cart. reply c (success 200 (''cartId='' @ uuid_String cartId @ '' found'')
                         (DCart cart)))))"

text \<open>
  The request carries no user, so the service gets the nil identifier. A success writes nothing.
\<close>

definition CartController_RemoveCartItem ::
    "'s cache_ops \<Rightarrow> request_env \<Rightarrow> 's shop_state handler" where
  "CartController_RemoveCartItem ops env c r st =
     (let v = map_get (rq_pathValues r) ''cartId''; w = map_get (rq_pathValues r) ''cartItemId'' in
      case uuid_Parse v of
        Inl e \<Rightarrow> (st, reply c (failed 400 (''failed validating cartId='' @
                   uuid_String (uuid_Parse_value v) @ '' with error='' @ uuid_error_text e)))
      | Inr cartId \<Rightarrow>
          (case uuid_Parse w of
             Inl e \<Rightarrow> (st, reply c (failed 400 (''failed validating cartItemId='' @
                        uuid_String cartId @ '' with error='' @ uuid_error_text e)))
           | Inr cartItemId \<Rightarrow>
               answer (CartService_RemoveCartItem ops env
                        \<lparr>rmci_ID = cartItemId, rmci_CartId = cartId, rmci_UserId = uuid_Nil\<rparr> st)
                 (\<lambda>e. reply c (failed 500 (''failed removing cart item with error='' @ Error e)))
                 (\<lambda>u. Ret None)))"

definition CartController_CheckoutCart ::
    "'s cache_ops \<Rightarrow> peers \<Rightarrow> request_env \<Rightarrow> 's shop_state handler" where
  "CartController_CheckoutCart ops ps env c r st =
     (case RequestIDFromContext c of
        Panic m \<Rightarrow> (st, Panic m)
      | Blocked \<Rightarrow> (st, Blocked)
      | Ret reqId \<Rightarrow>
      (let v = map_get (rq_vars r) ''cartId'' in
      case uuid_Parse v of
        Inl e \<Rightarrow> (st, reply c (failed 400 (''failed validating cart id='' @
                   uuid_String (uuid_Parse_value v) @ '' with error='' @ uuid_error_text e)))
      | Inr cartId \<Rightarrow>
          with_user c st (\<lambda>userId.
            case JwtTokenFromContext c of
              Panic m \<Rightarrow> (st, Panic m)
            | Blocked \<Rightarrow> (st, Blocked)
            | Ret jwt \<Rightarrow>
                answer (CartService_CheckoutCart ops ps env c jwt
                          \<lparr>cc_UserId = userId, cc_CartId = cartId\<rparr> st)
                  (\<lambda>e. reply c (failed 400 (''failed checkout cart id='' @ uuid_String cartId @
                          '' with error='' @ Error e)))
                  (\<lambda>cart. reply c (success 200 (''checkout cart id='' @ uuid_String cartId)
                             (DCart cart))))))"

end
