(* ===== verification/CartLaws.thy ===== *)
theory CartLaws
  imports CartService
begin

text \<open>
  What inserting and checking out a cart do: the merge of its items, the rows it inserts, and
  the path of a cart through the cache.
\<close>

section \<open>Sequences of fallible steps\<close>

lemma step_ok:
  "(case x of Inl e \<Rightarrow> Inl (f e) | Inr y \<Rightarrow> g y) = Inr z \<longleftrightarrow> (\<exists>y. x = Inr y \<and> g y = Inr z)"
  by (simp split: sum.split)

section \<open>Merging\<close>

definition cart_items_of :: "uuid \<Rightarrow> req_cart_item list \<Rightarrow> req_cart_item list" where
  "cart_items_of p items = filter (\<lambda>i. rci_ProductId i = p) items"

definition merged_cart_item :: "uuid \<Rightarrow> req_cart_item list \<Rightarrow> req_cart_item" where
  "merged_cart_item p items =
     \<lparr>rci_ProductId = p, rci_Price = rci_Price (last items),
      rci_Quantity = sum_list (map rci_Quantity items)\<rparr>"

lemma mergeCartItems_snoc: "mergeCartItems (items @ [i]) = mergeCartItem (mergeCartItems items) i"
  by (simp add: mergeCartItems_def)

lemma mergeCartItems_at:
  "mergeCartItems items (uuid_String p) =
     (if cart_items_of p items = [] then None else Some (merged_cart_item p (cart_items_of p items)))"
proof (induction items rule: rev_induct)
  case Nil
  then show ?case by (simp add: mergeCartItems_def cart_items_of_def)
next
  case (snoc i items)
  show ?case
  proof (cases "rci_ProductId i = p")
    case True
    with snoc show ?thesis
      by (auto simp: mergeCartItems_snoc mergeCartItem_def cart_items_of_def merged_cart_item_def
          split: option.splits)
  next
    case False
    with snoc show ?thesis
      by (auto simp: mergeCartItems_snoc mergeCartItem_def cart_items_of_def Let_def
          split: option.splits)
  qed
qed

lemma mergeCartItems_dom:
  "dom (mergeCartItems items) = uuid_String ` rci_ProductId ` set items"
proof (induction items rule: rev_induct)
  case Nil
  then show ?case by (simp add: mergeCartItems_def)
next
  case (snoc i items)
  then show ?case
    by (auto simp: mergeCartItems_snoc mergeCartItem_def Let_def split: option.splits)
qed

section \<open>The rows of a new cart\<close>

definition cart_rows :: "request_env \<Rightarrow> uuid \<Rightarrow> string list \<Rightarrow> req_cart_item list \<Rightarrow> cart_item_row list" where
  "cart_rows env cartId ks items =
     map (cart_item_of_params (qe_now env)) (cart_item_args env cartId (map snd (go_range ks (mergeCartItems items))))"

lemma map_enumerate_snd: "map (\<lambda>(n, x). f x) (enumerate k xs) = map f xs"
  by (induction xs arbitrary: k) auto

lemma cart_rows_quantities:
  "map (\<lambda>r. (citem_CartID r, citem_ProductID r, citem_Quantity r)) (cart_rows env cartId ks items) =
     map (\<lambda>(k, i). (cartId, rci_ProductId i, rci_Quantity i)) (go_range ks (mergeCartItems items))"
proof -
  have "map (\<lambda>r. (citem_CartID r, citem_ProductID r, citem_Quantity r)) (cart_rows env cartId ks items) =
      map (\<lambda>(n, i). (cartId, rci_ProductId i, rci_Quantity i))
        (enumerate 0 (map snd (go_range ks (mergeCartItems items))))"
    by (simp add: cart_rows_def cart_item_args_def cart_item_of_params_def o_def case_prod_unfold)
  also have "\<dots> = map (\<lambda>i. (cartId, rci_ProductId i, rci_Quantity i))
      (map snd (go_range ks (mergeCartItems items)))"
    by (rule map_enumerate_snd)
  finally show ?thesis by (simp add: o_def case_prod_unfold)
qed

text \<open>One row for each product, with the sum of the quantities the request has for it.\<close>

lemma cart_rows_set:
  assumes "enumerates ks (mergeCartItems items)"
  shows "(\<lambda>r. (citem_CartID r, citem_ProductID r, citem_Quantity r)) ` set (cart_rows env cartId ks items) =
    (\<lambda>p. (cartId, p, sum_list (map rci_Quantity (cart_items_of p items)))) ` rci_ProductId ` set items"
proof -
  have "(\<lambda>r. (citem_CartID r, citem_ProductID r, citem_Quantity r)) ` set (cart_rows env cartId ks items) =
      (\<lambda>(k, i). (cartId, rci_ProductId i, rci_Quantity i)) ` {(k, i). mergeCartItems items k = Some i}"
    using arg_cong [OF cart_rows_quantities, of set env cartId ks items]
    by (simp add: set_go_range_enumerates [OF assms])
  also have "\<dots> = (\<lambda>p. (cartId, p, sum_list (map rci_Quantity (cart_items_of p items)))) `
      rci_ProductId ` set items"
  proof (intro equalityI subsetI)
    fix x
    assume "x \<in> (\<lambda>(k, i). (cartId, rci_ProductId i, rci_Quantity i)) ` {(k, i). mergeCartItems items k = Some i}"
    then obtain k i where x: "x = (cartId, rci_ProductId i, rci_Quantity i)" "mergeCartItems items k = Some i"
      by auto
    then have "k \<in> uuid_String ` rci_ProductId ` set items"
      using mergeCartItems_dom [of items] by blast
    then obtain p where p: "k = uuid_String p" "p \<in> rci_ProductId ` set items" by blast
    with x(2) have "i = merged_cart_item p (cart_items_of p items)"
      by (simp add: mergeCartItems_at split: if_splits)
    with x(1) p(2) show "x \<in> (\<lambda>p. (cartId, p, sum_list (map rci_Quantity (cart_items_of p items)))) `
        rci_ProductId ` set items"
      by (simp add: merged_cart_item_def)
  next
    fix x
    assume "x \<in> (\<lambda>p. (cartId, p, sum_list (map rci_Quantity (cart_items_of p items)))) `
        rci_ProductId ` set items"
    then obtain p where p: "p \<in> rci_ProductId ` set items"
      "x = (cartId, p, sum_list (map rci_Quantity (cart_items_of p items)))" by blast
    then have "cart_items_of p items \<noteq> []" by (auto simp: cart_items_of_def filter_empty_conv)
    then have "mergeCartItems items (uuid_String p) = Some (merged_cart_item p (cart_items_of p items))"
      by (simp add: mergeCartItems_at)
    with p(2) show "x \<in> (\<lambda>(k, i). (cartId, rci_ProductId i, rci_Quantity i)) `
        {(k, i). mergeCartItems items k = Some i}"
      by (intro image_eqI [where x = "(uuid_String p, merged_cart_item p (cart_items_of p items))"])
        (simp_all add: merged_cart_item_def)
  qed
  finally show ?thesis .
qed

lemma cart_rows_length:
  assumes "enumerates ks (mergeCartItems items)"
  shows "length (cart_rows env cartId ks items) = card (rci_ProductId ` set items)"
proof -
  have "set ks = uuid_String ` rci_ProductId ` set items" and d: "distinct ks"
    using assms mergeCartItems_dom [of items] by (auto simp: enumerates_def)
  then have "length ks = card (uuid_String ` rci_ProductId ` set items)"
    by (metis distinct_card)
  also have "\<dots> = card (rci_ProductId ` set items)"
    by (intro card_image inj_onI) simp
  finally have "length ks = card (rci_ProductId ` set items)" .
  moreover have "length (go_range ks (mergeCartItems items)) = length ks"
  proof -
    have "map fst (go_range ks (mergeCartItems items)) = filter (\<lambda>k. mergeCartItems items k \<noteq> None) ks"
      by (rule map_fst_go_range)
    also have "\<dots> = ks" using assms by (auto simp: enumerates_def filter_id_conv)
    finally show ?thesis by (metis length_map)
  qed
  ultimately show ?thesis by (simp add: cart_rows_def cart_item_args_def)
qed

lemma insert_cart_tx_tables:
  assumes "insert_cart_tx env ks param uid db = Inr (db', i, res)"
  shows "i = qe_newId env 0 \<and> i \<notin> cart_ID ` set (db_carts db) \<and>
    uid \<in> user_ID ` set (db_users db) \<and>
    db_carts db' = db_carts db @ [\<lparr>cart_ID = i, cart_UserID = uid,
      cart_CreatedAt = timestamptz_of_time (qe_now env), cart_UpdatedAt = timestamptz_of_time (qe_now env)\<rparr>] \<and>
    db_cart_items db' = db_cart_items db @ cart_rows env i ks (rc_CartItems param) \<and>
    db_users db' = db_users db \<and> db_products db' = db_products db \<and> db_orders db' = db_orders db \<and>
    db_order_items db' = db_order_items db"
proof -
  from assms obtain db1 cart n where
    c: "InsertCart (qe_newId env 0) (qe_now env) db uid = Inr (db1, cart)" and
    it: "InsertCartItems (qe_now env) db1 (cart_item_args env (cart_ID cart)
      (map snd (go_range ks (mergeCartItems (rc_CartItems param))))) = Inr (db', n)" and
    i: "i = cart_ID cart"
    by (auto simp: insert_cart_tx_def step_ok)
  from c have "db1 = db\<lparr>db_carts := db_carts db @ [cart]\<rparr> \<and> qe_newId env 0 \<notin> cart_ID ` set (db_carts db) \<and>
      uid \<in> user_ID ` set (db_users db) \<and> cart = \<lparr>cart_ID = qe_newId env 0, cart_UserID = uid,
        cart_CreatedAt = timestamptz_of_time (qe_now env), cart_UpdatedAt = timestamptz_of_time (qe_now env)\<rparr>"
    by (auto simp: InsertCart_def Let_def split: if_splits)
  moreover from it have "db' = db1\<lparr>db_cart_items := db_cart_items db1 @
      cart_rows env (cart_ID cart) ks (rc_CartItems param)\<rparr>"
    by (auto simp: InsertCartItems_def Let_def cart_rows_def split: if_splits)
  ultimately show ?thesis using i by auto
qed

lemma insert_cart_tx_response:
  assumes "insert_cart_tx env ks param uid db = Inr (db', i, res)"
  shows "sc_ID res = i \<and> sc_UserID res = uid"
proof -
  from assms obtain db1 cart db2 row where
    c: "FindCartById db2 \<lparr>fcp_ID = uid, fcp_ID_2 = cart_ID cart\<rparr> = Inr row" and
    r: "FindCartByIdRow_Response row = Inr res" and i: "i = cart_ID cart" and "db2 = db'" and
    "InsertCart (qe_newId env 0) (qe_now env) db uid = Inr (db1, cart)"
    by (auto simp: insert_cart_tx_def step_ok)
  from c have "fcr_ID row = cart_ID cart \<and> fcr_UserID row = uid"
    by (auto simp: FindCartById_def one_row_Inr_iff map_eq_Cons_conv filter_eq_Cons_iff)
  with r i show ?thesis
    by (auto simp: FindCartByIdRow_Response_def)
qed

text \<open>A service call that succeeded went through the transaction and the cache.\<close>

lemma InsertCart_success:
  assumes "CartService_InsertCart ops ps env ks param uid c st = (st', Ret (Inr res))"
  shows "\<exists>i. insert_cart_tx env ks param uid (ss_db st) = Inr (ss_db st', i, res) \<and>
    JSONSet ops (cart_key i) (res_cart_json res) (ss_cache st) = (None, ss_cache st') \<and>
    find_user ps uid = Inr 200 \<and> qe_fault env 4 = None"
  using assms
  by (auto simp: CartService_InsertCart_def
      split: outcome.splits sum.splits prod.splits option.splits if_splits)

lemma InsertCart_failure:
  assumes "CartService_InsertCart ops ps env ks param uid c st = (st', out)"
    and "\<And>res. out \<noteq> Ret (Inr res)"
  shows "ss_db st' = ss_db st"
  using assms
  by (auto simp: CartService_InsertCart_def
      split: outcome.splits sum.splits prod.splits option.splits if_splits)

section \<open>Removing and checking out\<close>

lemma RemoveCart_success:
  assumes "CartService_RemoveCart ops env param st = (st', Ret (Inr u))"
  shows "\<exists>st1 cart row. CartService_FindCartById ops env
      \<lparr>fcbi_ID = rmc_ID param, fcbi_UserId = rmc_UserId param\<rparr> st = (st1, Ret (Inr cart)) \<and>
    DeleteCartByIdAndUserId (ss_db st) \<lparr>dcp_ID = rmc_ID param, dcp_UserID = rmc_UserId param\<rparr> =
      Inr (ss_db st', row) \<and>
    JSONDel ops (cart_key (rmc_ID param)) (ss_cache st1) = (None, ss_cache st')"
proof -
  obtain st1 out where f: "CartService_FindCartById ops env
      \<lparr>fcbi_ID = rmc_ID param, fcbi_UserId = rmc_UserId param\<rparr> st = (st1, out)"
    by (metis surj_pair)
  then have db: "ss_db st1 = ss_db st" by (metis FindCartById_db fst_conv)
  with assms f show ?thesis
    by (auto simp: CartService_RemoveCart_def
        split: outcome.splits sum.splits prod.splits option.splits)
qed

lemma DeleteCart_gone:
  assumes "DeleteCartByIdAndUserId db arg = Inr (db', row)" and "db_ok db"
  shows "dcp_ID arg \<notin> cart_ID ` set (db_carts db') \<and> items_of_cart db' (dcp_ID arg) = [] \<and>
    (\<forall>i. i \<noteq> dcp_ID arg \<longrightarrow> items_of_cart db' i = items_of_cart db i)"
proof -
  from assms(1) obtain cs where f: "filter (\<lambda>c. cart_ID c = dcp_ID arg \<and> cart_UserID c = dcp_UserID arg)
      (db_carts db) = row # cs"
    and db': "db' = db\<lparr>db_carts := filter (\<lambda>c. \<not> (cart_ID c = dcp_ID arg \<and>
        cart_UserID c = dcp_UserID arg)) (db_carts db),
      db_cart_items := filter (\<lambda>i. citem_CartID i \<noteq> dcp_ID arg) (db_cart_items db)\<rparr>"
    by (auto simp: DeleteCartByIdAndUserId_def split: list.splits)
  from f have row: "row \<in> set (db_carts db)" "cart_ID row = dcp_ID arg" "cart_UserID row = dcp_UserID arg"
    by (auto simp: filter_eq_Cons_iff)
  have "c = row" if "c \<in> set (db_carts db)" "cart_ID c = dcp_ID arg" for c
    using that row assms(2) by (metis db_ok_def distinct_map inj_onD)
  with row(3) have "dcp_ID arg \<notin> cart_ID ` set (db_carts db')"
    unfolding db' by auto
  moreover have "items_of_cart db' (dcp_ID arg) = []"
    unfolding db' by (simp add: items_of_cart_def filter_empty_conv)
  moreover have "items_of_cart db' i = items_of_cart db i" if "i \<noteq> dcp_ID arg" for i
    unfolding db' items_of_cart_def using that by (simp, intro filter_cong) auto
  ultimately show ?thesis by blast
qed

lemma CheckoutCart_success:
  assumes "CartService_CheckoutCart ops ps env c jwt param st = (st', Ret (Inr cart))"
  shows "\<exists>st1 message. CartService_FindCartById ops env
      \<lparr>fcbi_ID = cc_CartId param, fcbi_UserId = cc_UserId param\<rparr> st = (st1, Ret (Inr cart)) \<and>
    find_user ps (cc_UserId param) = Inr 200 \<and>
    checkout_order ps (''Bearer '' @ jwt_Raw jwt) (Cart_Order cart) = Inr (201, Inr message) \<and>
    CartService_RemoveCart ops (shift_env 1 env)
      \<lparr>rmc_ID = cc_CartId param, rmc_UserId = cc_UserId param\<rparr> st1 = (st', Ret (Inr ()))"
  using assms
  by (auto simp: CartService_CheckoutCart_def
      split: outcome.splits sum.splits prod.splits option.splits if_splits)

lemma FindCartById_cold_miss:
  assumes "cache_hit ops (cart_key (fcbi_ID param)) (ss_cache st) = None"
    and "fcbi_ID param \<notin> user_ID ` set (db_users (ss_db st))"
  shows "\<exists>e. CartService_FindCartById ops env param st = (st, Ret (Inl e))"
proof -
  have "\<exists>e. db_call env 0 (FindCartById (ss_db st)
      \<lparr>fcp_ID = fcbi_ID param, fcp_ID_2 = fcbi_UserId param\<rparr>) = Inl e"
    using assms(2) by (simp add: db_call_def FindCartById_def one_row_def split: option.split)
  with assms(1) show ?thesis by (auto simp: CartService_FindCartById_def)
qed

section \<open>The handler\<close>

lemma InsertCart_handler:
  assumes "ss_db (fst (CartController_InsertCart ops ps validate env ks c r st)) \<noteq> ss_db st"
  shows "\<exists>uid param cart. UserIdFromJwtToken c = Ret (Inr uid) \<and>
    decode_body decode_req_cart r = Inr param \<and> validate param = None \<and>
    CartService_InsertCart ops ps env ks param uid c st =
      (fst (CartController_InsertCart ops ps validate env ks c r st), Ret (Inr cart))"
proof -
  from assms obtain param where b: "decode_body decode_req_cart r = Inr param" "validate param = None"
    by (auto simp: CartController_InsertCart_def with_body_def split: sum.splits option.splits)
  moreover from this assms obtain uid where u: "UserIdFromJwtToken c = Ret (Inr uid)"
    by (auto simp: CartController_InsertCart_def with_body_def with_user_def
        split: outcome.splits sum.splits)
  moreover obtain st' out where s: "CartService_InsertCart ops ps env ks param uid c st = (st', out)"
    by (metis surj_pair)
  ultimately have st': "fst (CartController_InsertCart ops ps validate env ks c r st) = st'"
    by (simp add: CartController_InsertCart_def with_body_def with_user_def answer_def)
  with assms InsertCart_failure [OF s] obtain cart where "out = Ret (Inr cart)" by auto
  with b u s st' show ?thesis by blast
qed

end
