(* ===== verification/OrderController.thy ===== *)
theory OrderController
  imports OrderWorker CartService
begin

text \<open>
  \<open>order/internal/controller/order.go\<close>: the two reads, and \<open>Checkout\<close>, which checks a request and
  then waits twice with one three-second time-out: for room in the queue, and for the result.
\<close>

section \<open>The request of a checkout\<close>

fun decode_req_order_item :: "json \<Rightarrow> go_error + req_order_item" where
  "decode_req_order_item (JObj kvs) =
     if_ok (decode_time (json_field ''created_at'' kvs)) (\<lambda>c.
     if_ok (decode_time (json_field ''updated_at'' kvs)) (\<lambda>u.
     if_ok (decode_uuid (json_field ''id'' kvs)) (\<lambda>i.
     if_ok (decode_uuid (json_field ''order_id'' kvs)) (\<lambda>oid.
     if_ok (decode_uuid (json_field ''product_id'' kvs)) (\<lambda>pid.
     if_ok (decode_decimal (json_field ''price'' kvs)) (\<lambda>pr.
     if_ok (decode_int32 (json_field ''quantity'' kvs)) (\<lambda>q.
       Inr \<lparr>roi_CreatedAt = c, roi_UpdatedAt = u, roi_ID = i, roi_OrderID = oid,
            roi_ProductID = pid, roi_Price = pr, roi_Quantity = q\<rparr>)))))))"
| "decode_req_order_item JNull =
     Inr \<lparr>roi_CreatedAt = time_zero, roi_UpdatedAt = time_zero, roi_ID = uuid_Nil,
          roi_OrderID = uuid_Nil, roi_ProductID = uuid_Nil,
          roi_Price = \<lparr>dec_value = None, dec_exp = 0\<rparr>, roi_Quantity = 0\<rparr>"
| "decode_req_order_item j = Inl (typeError ''request.OrderItem'')"

fun decode_create_order :: "json \<Rightarrow> go_error + create_order" where
  "decode_create_order (JObj kvs) =
     if_ok (decode_list decode_req_order_item (json_field ''order_items'' kvs)) (\<lambda>items.
     if_ok (decode_time (json_field ''created_at'' kvs)) (\<lambda>c.
     if_ok (decode_time (json_field ''updated_at'' kvs)) (\<lambda>u.
     if_ok (decode_uuid (json_field ''id'' kvs)) (\<lambda>i.
     if_ok (decode_uuid (json_field ''user_id'' kvs)) (\<lambda>uid.
       Inr \<lparr>co_OrderItems = items, co_CreatedAt = c, co_UpdatedAt = u, co_ID = i, co_UserId = uid,
            co_ResultChannel = None\<rparr>)))))"
| "decode_create_order JNull =
     Inr \<lparr>co_OrderItems = [], co_CreatedAt = time_zero, co_UpdatedAt = time_zero, co_ID = uuid_Nil,
          co_UserId = uuid_Nil, co_ResultChannel = None\<rparr>"
| "decode_create_order j = Inl (typeError ''request.CreateOrder'')"

text \<open>What the cart service sends (\<open>json.Marshal(order)\<close>); the channel is not part of it.\<close>

definition req_order_item_json :: "req_order_item \<Rightarrow> json" where
  "req_order_item_json i = JObj
     [(''created_at'', JTime (roi_CreatedAt i)), (''updated_at'', JTime (roi_UpdatedAt i)),
      (''id'', uuid_json (roi_ID i)), (''order_id'', uuid_json (roi_OrderID i)),
      (''product_id'', uuid_json (roi_ProductID i)), (''price'', decimal_json (roi_Price i)),
      (''quantity'', int32_json (roi_Quantity i))]"

definition create_order_json :: "create_order \<Rightarrow> json" where
  "create_order_json o1 = JObj
     [(''order_items'', json_agg (map req_order_item_json (co_OrderItems o1))),
      (''created_at'', JTime (co_CreatedAt o1)), (''updated_at'', JTime (co_UpdatedAt o1)),
      (''id'', uuid_json (co_ID o1)), (''user_id'', uuid_json (co_UserId o1))]"

definition plain_order_item :: "req_order_item \<Rightarrow> req_order_item" where
  "plain_order_item i =
     i\<lparr>roi_Price := plain_decimal (decimal_Coefficient (roi_Price i)) (dec_exp (roi_Price i))\<rparr>"

definition plain_order :: "create_order \<Rightarrow> create_order" where
  "plain_order o1 =
     o1\<lparr>co_OrderItems := map plain_order_item (co_OrderItems o1), co_ResultChannel := None\<rparr>"

interpretation req_order_item_codec:
  json_codec req_order_item_json decode_req_order_item plain_order_item "\<lambda>i. True"
  by unfold_locales (simp add: req_order_item_json_def json_field_def plain_order_item_def)

interpretation create_order_codec:
  json_codec create_order_json decode_create_order plain_order "\<lambda>o1. True"
  by unfold_locales
    (simp add: create_order_json_def json_field_def plain_order_def req_order_item_codec.decode_list_enc)

section \<open>The reads\<close>

text \<open>An identifier that does not parse ends the handler before it writes anything.\<close>

definition OrderController_FindOrderById ::
    "go_error option \<Rightarrow> go_error option \<Rightarrow> ctx \<Rightarrow> http_request \<Rightarrow> database \<Rightarrow> reply" where
  "OrderController_FindOrderById fault1 fault2 c r db =
     (case uuid_Parse (map_get (rq_vars r) ''orderId'') of
        Inl e \<Rightarrow> Ret None
      | Inr orderId \<Rightarrow>
          and_then (OrderService_FindOrderById fault1 fault2 db
                      \<lparr>fobi_UserId = uuid_Nil, fobi_OrderId = orderId\<rparr>)
            (\<lambda>res. case res of
               Inl e \<Rightarrow> reply c (failed 400 (''order with id='' @ uuid_String orderId @ '' and not found''))
             | Inr order \<Rightarrow> reply c (success 200 ''found orders'' (DOrder order))))"

definition OrderController_FindOrders ::
    "go_error option \<Rightarrow> ctx \<Rightarrow> http_request \<Rightarrow> database \<Rightarrow> reply" where
  "OrderController_FindOrders fault c r db =
     (let u = map_get (rq_query r) ''userId''; v = map_get (rq_query r) ''orderId'' in
      case uuid_Parse u of
        Inl e \<Rightarrow> reply c (failed 400 (''failed validating userId='' @
                   uuid_String (uuid_Parse_value u) @ '' with error='' @ uuid_error_text e))
      | Inr userId \<Rightarrow>
      (case uuid_Parse v of
        Inl e \<Rightarrow> reply c (failed 400 (''failed validating orderId='' @
                   uuid_String (uuid_Parse_value v) @ '' with error='' @ uuid_error_text e))
      | Inr orderId \<Rightarrow>
      (case OrderService_FindOrders fault db \<lparr>fo_UserId = userId, fo_OrderId = orderId\<rparr> of
        Inl e \<Rightarrow> reply c (failed 400 (''failed finding orders with error='' @ Error e))
      | Inr orders \<Rightarrow> reply c (success 200 ''found orders'' (DOrders orders)))))"

section \<open>Checkout\<close>

text \<open>
  What the two \<open>select\<close> statements meet: the time-out before there was room in the queue, the
  time-out after the request was queued (each with \<open>c.Err()\<close>), or the result.
\<close>

datatype checkout_wait = QueueTimeout go_error | ResultTimeout go_error | Arrived order_result

definition timeout_reply :: "ctx \<Rightarrow> go_error \<Rightarrow> reply" where
  "timeout_reply c e = reply c (failed 500 (''failed creating order with error='' @ Error e))"

definition result_reply :: "ctx \<Rightarrow> order_result \<Rightarrow> reply" where
  "result_reply c result =
     (case res_Err result of
        Some e \<Rightarrow> reply c (failed 400 (''failed creating order with error='' @ Error e))
      | None \<Rightarrow> reply c (success 201 ''order created'' (DOrder (res_Order result))))"

text \<open>The handler: the request it queues, if any, and its reply. The token's user is only logged.\<close>

definition OrderController_Checkout ::
    "create_order validator \<Rightarrow> ctx \<Rightarrow> http_request \<Rightarrow> checkout_wait \<Rightarrow> create_order option \<times> reply" where
  "OrderController_Checkout validate c r wait =
     (case UserIdFromJwtToken c of
        Panic m \<Rightarrow> (None, Panic m)
      | Blocked \<Rightarrow> (None, Blocked)
      | Ret (Inl e) \<Rightarrow>
          (None, reply c (failed 400 (''failed getting userId from jwtToken with error='' @ Error e)))
      | Ret (Inr userId) \<Rightarrow>
      (case decode_body decode_create_order r of
        Inl e \<Rightarrow> (None, reply c (failed 400 ''request body is invalid''))
      | Inr param \<Rightarrow>
      (case validate param of
        Some e \<Rightarrow> (None, reply c (failed 400 ''request body is invalid''))
      | None \<Rightarrow>
      (case wait of
        QueueTimeout e \<Rightarrow> (None, timeout_reply c e)
      | ResultTimeout e \<Rightarrow> (Some param, timeout_reply c e)
      | Arrived result \<Rightarrow> (Some param, result_reply c result)))))"

text \<open>A cart that is checked out arrives at the order service as its own order.\<close>

lemma cart_order_arrives:
  "decode_create_order (create_order_json (Cart_Order cart)) = Inr (plain_order (Cart_Order cart))"
  by (rule create_order_codec.dec_enc) simp

lemma plain_order_sel [simp]:
  "co_ID (plain_order o1) = co_ID o1" "co_UserId (plain_order o1) = co_UserId o1"
  "co_OrderItems (plain_order o1) = map plain_order_item (co_OrderItems o1)"
  by (simp_all add: plain_order_def)

lemma plain_order_item_sel [simp]:
  "roi_ID (plain_order_item i) = roi_ID i" "roi_OrderID (plain_order_item i) = roi_OrderID i"
  "roi_ProductID (plain_order_item i) = roi_ProductID i"
  "roi_Quantity (plain_order_item i) = roi_Quantity i"
  by (simp_all add: plain_order_item_def)

lemma cart_orders_wf:
  assumes "distinct (map sc_ID carts)"
  shows "batch_wf (map (\<lambda>c. plain_order (Cart_Order c)) carts)"
  using assms by (auto simp: batch_wf_def o_def Cart_Order_def cart_item_to_order_item_def)

end
