(* ===== verification/CartClaims.thy ===== *)
theory CartClaims
  imports CartLaws OrderClaims OrderController
begin

text \<open>
  The properties of the cart service, each with an instance in the small shop: its user puts one
  lamp in a cart and checks the cart out.
\<close>

section \<open>A cart in the small shop\<close>

definition demo_cart_item :: req_cart_item where
  "demo_cart_item = \<lparr>rci_ProductId = uid 2, rci_Price = shop_price, rci_Quantity = 1\<rparr>"

definition demo_req :: req_cart where
  "demo_req = \<lparr>rc_CartItems = [demo_cart_item]\<rparr>"

definition demo_env :: request_env where
  "demo_env = \<lparr>qe_fault = (\<lambda>n. None), qe_newId = (\<lambda>n. uid (30 + of_nat n)), qe_now = 7\<rparr>"

definition demo_ks :: "string list" where
  "demo_ks = [uuid_String (uid 2)]"

definition demo_peers :: peers where
  "demo_peers = \<lparr>find_user = (\<lambda>u. Inr 200), checkout_order = (\<lambda>t o1. Inr (201, Inr ''ok''))\<rparr>"

definition demo_jwt :: jwt_token where
  "demo_jwt = \<lparr>jwt_Raw = ''raw'', jwt_Subject = uuid_String (uid 1), jwt_Valid = True\<rparr>"

definition demo_ctx :: ctx where
  "demo_ctx = \<lparr>ctx_requestId = Some ''r1'', ctx_jwt = Some demo_jwt\<rparr>"

definition demo_state :: "redis shop_state" where
  "demo_state = \<lparr>ss_db = shop_db, ss_cache = \<lparr>rd_keys = Map.empty, rd_down = False\<rparr>\<rparr>"

lemmas demo_defs = demo_cart_item_def demo_req_def demo_env_def demo_ks_def demo_peers_def
  demo_jwt_def demo_ctx_def demo_state_def shop_defs

definition demo_row :: cart_item_row where
  "demo_row = \<lparr>citem_ID = uid 31, citem_CartID = uid 30, citem_ProductID = uid 2,
     citem_Quantity = 1, citem_Price = numeric_of_decimal shop_price,
     citem_CreatedAt = timestamptz_of_time 7, citem_UpdatedAt = timestamptz_of_time 7\<rparr>"

definition demo_cart_row :: cart_row where
  "demo_cart_row = \<lparr>cart_ID = uid 30, cart_UserID = uid 1, cart_CreatedAt = timestamptz_of_time 7,
     cart_UpdatedAt = timestamptz_of_time 7\<rparr>"

definition demo_db :: database where
  "demo_db = shop_db\<lparr>db_carts := [demo_cart_row], db_cart_items := [demo_row]\<rparr>"

definition demo_cart :: res_cart where
  "demo_cart = \<lparr>sc_ID = uid 30, sc_UserID = uid 1, sc_CartItems = [res_cart_item_of_row demo_row],
     sc_CreatedAt = 7, sc_UpdatedAt = 7\<rparr>"

lemma demo_args: "cart_item_args demo_env (uid 30) (map snd (go_range demo_ks (mergeCartItems [demo_cart_item]))) =
    [\<lparr>ici_ID = uid 31, ici_CartID = uid 30, ici_ProductID = uid 2, ici_Quantity = 1,
      ici_Price = numeric_of_decimal shop_price\<rparr>]"
  by (simp add: cart_item_args_def go_range_def map_filter_simps mergeCartItems_def mergeCartItem_def
      demo_cart_item_def demo_env_def demo_ks_def)

lemma demo_proper: "proper_cart_item demo_row"
  by (simp add: proper_cart_item_def demo_row_def)

lemma demo_InsertCart: "InsertCart (uid 30) 7 shop_db (uid 1) =
    Inr (shop_db\<lparr>db_carts := [demo_cart_row]\<rparr>, demo_cart_row)"
  by (simp add: InsertCart_def Let_def shop_db_def shop_user_def demo_cart_row_def)

lemma demo_InsertCartItems: "InsertCartItems 7 (shop_db\<lparr>db_carts := [demo_cart_row]\<rparr>)
    [\<lparr>ici_ID = uid 31, ici_CartID = uid 30, ici_ProductID = uid 2, ici_Quantity = 1,
      ici_Price = numeric_of_decimal shop_price\<rparr>] = Inr (demo_db, 1)"
  by (simp add: InsertCartItems_def Let_def numeric_of_decimal_def demo_db_def demo_cart_row_def demo_row_def cart_item_of_params_def
      shop_db_def shop_product_def)

lemma demo_decode: "decode_list decode_res_cart_item (json_agg [cart_item_to_json demo_row]) =
    Inr [res_cart_item_of_row demo_row]"
  using cart_item_codec.decode_list_enc [of "[demo_row]"] demo_proper by simp

lemma demo_FindCartById: "\<exists>row. FindCartById demo_db \<lparr>fcp_ID = uid 1, fcp_ID_2 = uid 30\<rparr> = Inr row \<and>
    FindCartByIdRow_Response row = Inr demo_cart"
proof -
  have "items_of_cart demo_db (uid 30) = [demo_row]"
    by (simp add: items_of_cart_def demo_db_def demo_row_def)
  then show ?thesis
    by (simp add: FindCartById_def one_row_def demo_db_def demo_cart_row_def shop_db_def shop_user_def
        FindCartByIdRow_Response_def demo_decode demo_cart_def)
qed

lemma demo_tx: "insert_cart_tx demo_env demo_ks demo_req (uid 1) shop_db = Inr (demo_db, uid 30, demo_cart)"
proof -
  have e: "qe_newId demo_env 0 = uid 30" "qe_now demo_env = 7" "\<And>n. qe_fault demo_env n = None"
    by (simp_all add: demo_env_def)
  have "cart_ID demo_cart_row = uid 30" by (simp add: demo_cart_row_def)
  then show ?thesis
    using demo_FindCartById
    by (auto simp: insert_cart_tx_def db_call_def e demo_InsertCart demo_InsertCartItems demo_args
        demo_req_def)
qed

definition demo_after :: "redis shop_state" where
  "demo_after = \<lparr>ss_db = demo_db,
     ss_cache = \<lparr>rd_keys = [cart_key (uid 30) \<mapsto> RJson (res_cart_json demo_cart)], rd_down = False\<rparr>\<rparr>"

lemma demo_insert:
  "CartService_InsertCart redis_ops demo_peers demo_env demo_ks demo_req (uid 1) demo_ctx demo_state =
     (demo_after, Ret (Inr demo_cart))"
proof -
  have "RequestIDFromContext demo_ctx = Ret ''r1''" "find_user demo_peers (uid 1) = Inr 200"
    "qe_fault demo_env 4 = None" "ss_db demo_state = shop_db"
    by (simp_all add: RequestIDFromContext_def demo_ctx_def demo_peers_def demo_env_def demo_state_def)
  then show ?thesis
    by (simp add: CartService_InsertCart_def demo_tx redis_set demo_state_def demo_after_def)
qed

lemma demo_db_ok: "db_ok demo_db"
  by (simp add: db_ok_def demo_db_def demo_cart_row_def demo_row_def shop_defs)

lemma demo_enumerates: "enumerates demo_ks (mergeCartItems (rc_CartItems demo_req))"
  by (simp add: enumerates_def mergeCartItems_dom demo_ks_def demo_req_def demo_cart_item_def)

lemma demo_hit: "cache_hit redis_ops (cart_key (uid 30)) (ss_cache demo_after) = Some (res_cart_json demo_cart)"
  by (simp add: redis_hit demo_after_def)

section \<open>Inserting a cart\<close>

text \<open>C17: a cart that was inserted is read back from the cache, whatever the database answers and
  whichever user asks: up to the spelling of its prices, what \<open>InsertCart\<close> returned.\<close>

theorem inserted_cart_is_read_back:
  assumes "cache_store ops"
    and "CartService_InsertCart ops ps env ks param userID c st = (st', Ret (Inr cart))"
  shows "sc_UserID cart = userID \<and>
    CartService_FindCartById ops env' \<lparr>fcbi_ID = sc_ID cart, fcbi_UserId = anyone\<rparr> st' =
      (st', Ret (Inr (plain_cart cart)))"
proof -
  from InsertCart_success [OF assms(2)] obtain i where
    tx: "insert_cart_tx env ks param userID (ss_db st) = Inr (ss_db st', i, cart)" and
    js: "JSONSet ops (cart_key i) (res_cart_json cart) (ss_cache st) = (None, ss_cache st')"
    by blast
  from insert_cart_tx_response [OF tx] have i: "sc_ID cart = i" "sc_UserID cart = userID" by auto
  have "cache_hit ops (cart_key i) (ss_cache st') = Some (res_cart_json cart)"
    by (rule cache_store.set_hit [OF assms(1) js])
  with i show ?thesis
    by (simp add: CartService_FindCartById_def cart_codec.dec_enc)
qed

theorem inserted_cart_is_read_back_witness:
  "CartService_FindCartById redis_ops demo_env \<lparr>fcbi_ID = sc_ID demo_cart, fcbi_UserId = uid 9\<rparr> demo_after =
     (demo_after, Ret (Inr (plain_cart demo_cart)))"
  using inserted_cart_is_read_back [OF redis_cache.cache_store_axioms demo_insert] by blast

text \<open>C18: an insert of a cart is all or nothing. When it succeeds it adds one cart of the user and, for each
  product the request names, one row with the sum of the quantities requested of it, and no other table
  changes; whatever else comes of it, an error or a panic, every table is as it was.\<close>

theorem insert_cart_adds_merged_rows:
  assumes "CartService_InsertCart ops ps env ks param userID c st = (st', out)"
    and "enumerates ks (mergeCartItems (rc_CartItems param))"
  shows "case out of
      Ret (Inr cart) \<Rightarrow> (\<exists>rows crow. db_carts (ss_db st') = db_carts (ss_db st) @ [crow] \<and>
        cart_ID crow = sc_ID cart \<and> cart_UserID crow = userID \<and>
        db_cart_items (ss_db st') = db_cart_items (ss_db st) @ rows \<and>
        length rows = card (rci_ProductId ` set (rc_CartItems param)) \<and>
        (\<lambda>r. (citem_CartID r, citem_ProductID r, citem_Quantity r)) ` set rows =
          (\<lambda>p. (sc_ID cart, p, sum_list (map rci_Quantity (cart_items_of p (rc_CartItems param))))) `
            rci_ProductId ` set (rc_CartItems param) \<and>
        db_products (ss_db st') = db_products (ss_db st) \<and> db_orders (ss_db st') = db_orders (ss_db st) \<and>
        db_order_items (ss_db st') = db_order_items (ss_db st) \<and> db_users (ss_db st') = db_users (ss_db st))
    | _ \<Rightarrow> ss_db st' = ss_db st"
proof (cases "\<exists>cart. out = Ret (Inr cart)")
  case True
  then obtain cart where out: "out = Ret (Inr cart)" by blast
  from InsertCart_success [OF assms(1) [unfolded out]] obtain i where
    tx: "insert_cart_tx env ks param userID (ss_db st) = Inr (ss_db st', i, cart)" by blast
  from insert_cart_tx_response [OF tx] have i: "sc_ID cart = i" by auto
  show ?thesis
    unfolding out outcome.case sum.case
    using insert_cart_tx_tables [OF tx] cart_rows_set [OF assms(2), of env i]
      cart_rows_length [OF assms(2), of env i]
    by (intro exI [of _ "cart_rows env i ks (rc_CartItems param)"]
        exI [of _ "\<lparr>cart_ID = i, cart_UserID = userID,
          cart_CreatedAt = timestamptz_of_time (qe_now env),
          cart_UpdatedAt = timestamptz_of_time (qe_now env)\<rparr>"]) (simp add: i)
next
  case False
  with InsertCart_failure [OF assms(1)] show ?thesis by (auto split: outcome.split sum.split)
qed

theorem insert_cart_adds_merged_rows_witness:
  "\<exists>rows. db_cart_items (ss_db demo_after) = db_cart_items (ss_db demo_state) @ rows \<and>
     length rows = card (rci_ProductId ` set (rc_CartItems demo_req))"
  using insert_cart_adds_merged_rows [OF demo_insert demo_enumerates] unfolding outcome.case sum.case by blast

section \<open>Checking a cart out\<close>

lemma demo_find: "CartService_FindCartById redis_ops env \<lparr>fcbi_ID = uid 30, fcbi_UserId = u\<rparr> demo_after =
    (demo_after, Ret (Inr (plain_cart demo_cart)))"
  by (simp add: CartService_FindCartById_def demo_hit cart_codec.dec_enc)

definition demo_checkout :: checkout_cart where
  "demo_checkout = \<lparr>cc_UserId = uid 1, cc_CartId = uid 30\<rparr>"

lemma demo_checks_out:
  assumes "find_user ps (uid 1) = Inr 200"
    and "checkout_order ps (''Bearer '' @ jwt_Raw jwt) (Cart_Order (plain_cart demo_cart)) = Inr (201, Inr message)"
  shows "\<exists>st'. CartService_CheckoutCart redis_ops ps demo_env demo_ctx jwt demo_checkout demo_after =
    (st', Ret (Inr (plain_cart demo_cart)))"
proof -
  have "\<exists>db' row. DeleteCartByIdAndUserId (ss_db demo_after) \<lparr>dcp_ID = uid 30, dcp_UserID = uid 1\<rparr> =
      Inr (db', row)"
    by (simp add: DeleteCartByIdAndUserId_def demo_after_def demo_db_def demo_cart_row_def)
  moreover have "\<exists>s'. JSONDel redis_ops (cart_key (uid 30)) (ss_cache demo_after) = (None, s')"
    by (simp add: redis_jsondel demo_after_def)
  moreover have "qe_fault (shift_env 1 demo_env) 1 = None"
    by (simp add: shift_env_def demo_env_def)
  ultimately have "\<exists>st'. CartService_RemoveCart redis_ops (shift_env 1 demo_env)
      \<lparr>rmc_ID = uid 30, rmc_UserId = uid 1\<rparr> demo_after = (st', Ret (Inr ()))"
    by (auto simp: CartService_RemoveCart_def demo_find db_call_def)
  moreover have "RequestIDFromContext demo_ctx = Ret ''r1''" by (simp add: RequestIDFromContext_def demo_ctx_def)
  ultimately show ?thesis
    using assms by (auto simp: CartService_CheckoutCart_def demo_checkout_def demo_find)
qed

text \<open>A checkout that succeeds has handed the order made from the cart over to the order service,
  under the caller's own token, and been answered 201; afterwards neither the database nor the
  cache has the cart, and no item of it is left.\<close>

lemma checkout_hands_over_and_removes:
  assumes "cache_store ops" and "db_ok (ss_db st)"
    and "CartService_CheckoutCart ops ps env c jwt param st = (st', Ret (Inr cart))"
  shows "(\<exists>message. checkout_order ps (''Bearer '' @ jwt_Raw jwt) (Cart_Order cart) = Inr (201, Inr message)) \<and>
    find_user ps (cc_UserId param) = Inr 200 \<and>
    cc_CartId param \<notin> cart_ID ` set (db_carts (ss_db st')) \<and>
    items_of_cart (ss_db st') (cc_CartId param) = [] \<and>
    cache_hit ops (cart_key (cc_CartId param)) (ss_cache st') = None"
proof -
  from CheckoutCart_success [OF assms(3)] obtain st1 message where
    f: "CartService_FindCartById ops env
      \<lparr>fcbi_ID = cc_CartId param, fcbi_UserId = cc_UserId param\<rparr> st = (st1, Ret (Inr cart))" and
    co: "checkout_order ps (''Bearer '' @ jwt_Raw jwt) (Cart_Order cart) = Inr (201, Inr message)" and
    u: "find_user ps (cc_UserId param) = Inr 200" and
    rm: "CartService_RemoveCart ops (shift_env 1 env)
      \<lparr>rmc_ID = cc_CartId param, rmc_UserId = cc_UserId param\<rparr> st1 = (st', Ret (Inr ()))"
    by blast
  from f have "ss_db st1 = ss_db st" by (metis FindCartById_db fst_conv)
  with assms(2) have ok: "db_ok (ss_db st1)" by simp
  from RemoveCart_success [OF rm] obtain s2 row where
    d: "DeleteCartByIdAndUserId (ss_db st1) \<lparr>dcp_ID = cc_CartId param, dcp_UserID = cc_UserId param\<rparr> =
      Inr (ss_db st', row)" and
    j: "JSONDel ops (cart_key (cc_CartId param)) s2 = (None, ss_cache st')"
    unfolding remove_cart.select_convs by blast
  from cache_store.jsondel_miss [OF assms(1) j] DeleteCart_gone [OF d ok] co u show ?thesis by simp
qed

text \<open>C21: once the cache has lost a cart, \<open>FindCartById\<close> never finds it again, whoever owns it: the
  service hands the query the cart's identifier where it wants the user's, so only a cart whose
  identifier happens to be a user's could match.\<close>

theorem uncached_cart_is_never_found:
  assumes "cache_hit ops (cart_key (fcbi_ID param)) (ss_cache st) = None"
    and "fcbi_ID param \<notin> user_ID ` set (db_users (ss_db st))"
  shows "\<exists>e. CartService_FindCartById ops env param st = (st, Ret (Inl e))"
  using FindCartById_cold_miss assms by blast

theorem uncached_cart_is_never_found_witness:
  "demo_cart_row \<in> set (db_carts demo_db) \<and>
    (\<exists>e. CartService_FindCartById redis_ops demo_env
      \<lparr>fcbi_ID = cart_ID demo_cart_row, fcbi_UserId = cart_UserID demo_cart_row\<rparr>
      (demo_state\<lparr>ss_db := demo_db\<rparr>) = (demo_state\<lparr>ss_db := demo_db\<rparr>, Ret (Inl e)))"
proof -
  let ?param = "\<lparr>fcbi_ID = cart_ID demo_cart_row, fcbi_UserId = cart_UserID demo_cart_row\<rparr>"
  have "cache_hit redis_ops (cart_key (fcbi_ID ?param)) (ss_cache (demo_state\<lparr>ss_db := demo_db\<rparr>)) = None"
    by (simp add: redis_hit demo_state_def)
  moreover have "fcbi_ID ?param \<notin> user_ID ` set (db_users (ss_db (demo_state\<lparr>ss_db := demo_db\<rparr>)))"
    by (simp add: demo_db_def shop_db_def shop_user_def demo_cart_row_def)
  ultimately show ?thesis
    using uncached_cart_is_never_found [of redis_ops ?param "demo_state\<lparr>ss_db := demo_db\<rparr>" demo_env]
    by (auto simp: demo_db_def)
qed

section \<open>The endpoints\<close>

text \<open>C22: behind the middlewares, the handler of \<open>POST /carts\<close> changes the database only for a request
  with a verified token, and then by one cart of the user the token names, whom the user service
  knows.\<close>

theorem carts_belong_to_the_token_user:
  assumes "ss_db (fst (protected1 parse newId (CartController_InsertCart ops ps validate env ks) c r st)) \<noteq>
    ss_db st"
  shows "\<exists>t jwt uid crow. bearer_token (rq_Authorization r) = Some t \<and> VerifyToken parse t = Inr jwt \<and>
    uuid_Parse (jwt_Subject jwt) = Inr uid \<and> find_user ps uid = Inr 200 \<and>
    cart_UserID crow = uid \<and>
    db_carts (ss_db (fst (protected1 parse newId (CartController_InsertCart ops ps validate env ks) c r st))) =
      db_carts (ss_db st) @ [crow]"
proof -
  let ?h = "CartController_InsertCart ops ps validate env ks"
  from assms protected_cases [of r parse newId ?h c st] obtain t jwt c' where
    t: "bearer_token (rq_Authorization r) = Some t" "VerifyToken parse t = Inr jwt"
    "ctx_jwt c' = Some jwt" and
    e: "fst (protected1 parse newId ?h c r st) = fst (?h c' r st)"
    by auto
  with assms obtain uid param cart where
    u: "UserIdFromJwtToken c' = Ret (Inr uid)" and
    s: "CartService_InsertCart ops ps env ks param uid c' st = (fst (?h c' r st), Ret (Inr cart))"
    using InsertCart_handler by metis
  from u t(3) have sub: "uuid_Parse (jwt_Subject jwt) = Inr uid"
    by (auto simp: UserIdFromJwtToken_def JwtTokenFromContext_def split: sum.splits)
  from InsertCart_success [OF s] obtain i where
    tx: "insert_cart_tx env ks param uid (ss_db st) = Inr (ss_db (fst (?h c' r st)), i, cart)" and
    f: "find_user ps uid = Inr 200" by blast
  from insert_cart_tx_tables [OF tx] t(1,2) sub f e show ?thesis
    by (metis cart_row.select_convs(2))
qed

definition demo_parse :: "string \<Rightarrow> go_error + jwt_token" where
  "demo_parse t = (if t = ''raw'' then Inr demo_jwt else Inl (ErrNew ''token is malformed''))"

definition demo_request :: http_request where
  "demo_request = \<lparr>rq_requestId = ''r1'', rq_Authorization = ''Bearer raw'', rq_vars = Map.empty,
     rq_pathValues = Map.empty, rq_query = Map.empty,
     rq_body = Inr (JObj [(''cart_items'', JArr [JObj [(''product_id'', uuid_json (uid 2)),
       (''price'', decimal_json shop_price), (''quantity'', int32_json 1)]])])\<rparr>"

theorem carts_belong_to_the_token_user_witness:
  "\<exists>crow. cart_UserID crow = uid 1 \<and>
    db_carts (ss_db (fst (protected1 demo_parse ''n'' (CartController_InsertCart redis_ops demo_peers
      (\<lambda>b. None) demo_env demo_ks) \<lparr>ctx_requestId = None, ctx_jwt = None\<rparr> demo_request demo_state))) =
    [crow]"
proof -
  let ?c0 = "\<lparr>ctx_requestId = None, ctx_jwt = None\<rparr>"
  let ?h = "CartController_InsertCart redis_ops demo_peers (\<lambda>b. None) demo_env demo_ks"
  have pd: "plain_decimal 1250 (-2) = shop_price"
    by (simp add: plain_decimal_def plain_number_def shop_price_def)
  have body: "decode_body decode_req_cart demo_request = Inr demo_req"
    by (simp add: decode_body_def demo_request_def json_field_def demo_req_def demo_cart_item_def
        pd decimal_Coefficient_def) (simp add: shop_price_def pd [unfolded shop_price_def])
  have u: "UserIdFromJwtToken demo_ctx = Ret (Inr (uid 1))"
    by (simp add: UserIdFromJwtToken_def JwtTokenFromContext_def demo_ctx_def demo_jwt_def)
  have h: "fst (?h demo_ctx demo_request demo_state) = demo_after"
    by (simp add: CartController_InsertCart_def with_body_def body with_user_def u demo_insert answer_def)
  have "Auth demo_parse ?h (AttachRequestIDToContext ?c0 ''r1'') demo_request demo_state =
      ?h demo_ctx demo_request demo_state"
  proof -
    have "AttachJwtToken (AttachRequestIDToContext ?c0 ''r1'') demo_jwt = demo_ctx"
      by (simp add: AttachJwtToken_def AttachRequestIDToContext_def demo_ctx_def)
    moreover have "VerifyToken demo_parse ''raw'' = Inr demo_jwt"
      by (simp add: VerifyToken_def demo_parse_def demo_jwt_def)
    ultimately show ?thesis
      using Auth_accepts [of demo_request "''raw''" demo_parse demo_jwt ?h
          "AttachRequestIDToContext ?c0 ''r1''" demo_state] by (simp add: demo_request_def)
  qed
  with h have e: "fst (protected1 demo_parse ''n'' ?h ?c0 demo_request demo_state) = demo_after"
    by (simp add: protected1_def Logging_def demo_request_def)
  have "ss_db demo_after \<noteq> ss_db demo_state"
    by (simp add: demo_after_def demo_state_def demo_db_def shop_db_def)
  then have "ss_db (fst (protected1 demo_parse ''n'' ?h ?c0 demo_request demo_state)) \<noteq> ss_db demo_state"
    by (simp add: e)
  from carts_belong_to_the_token_user [OF this] show ?thesis
    by (auto simp: demo_request_def bearer_token_def VerifyToken_def demo_parse_def demo_jwt_def
        demo_state_def shop_db_def)
qed

end
