(* ===== verification/Shop.thy ===== *)
theory Shop
  imports CartLaws OrderController
begin

text \<open>
  The services side by side: they share one database and one Redis instance, so a history of the
  shop is a sequence of their operations in any order. What each operation may touch in the cache
  and what every history keeps: the schema, the orders, the answers about users.
\<close>

section \<open>Histories\<close>

datatype shop_op =
    OpInsertProduct request_env req_product
  | OpFindProduct request_env uuid
  | OpUpdateProduct request_env uuid req_product
  | OpRemoveProduct request_env uuid
  | OpRegister request_env register_request
  | OpLogin request_env login_request
  | OpFindUser request_env uuid
  | OpInsertCart request_env "string list" req_cart uuid ctx
  | OpFindCart request_env find_cart_by_id
  | OpFindCarts request_env uuid
  | OpRemoveCartItem request_env remove_cart_item
  | OpRemoveCart request_env remove_cart
  | OpCheckoutCart request_env ctx jwt_token checkout_cart
  | OpBatch batch_env chans "create_order list"

fun shop_step :: "'s cache_ops \<Rightarrow> peers \<Rightarrow> crypto \<Rightarrow> shop_op \<Rightarrow> 's shop_state \<Rightarrow> 's shop_state" where
  "shop_step ops ps cr (OpInsertProduct env param) st = fst (ProductService_InsertProduct ops env param st)"
| "shop_step ops ps cr (OpFindProduct env i) st = fst (ProductService_FindProductById ops env i st)"
| "shop_step ops ps cr (OpUpdateProduct env i param) st = fst (ProductService_UpdateProduct ops env i param st)"
| "shop_step ops ps cr (OpRemoveProduct env i) st = fst (ProductService_RemoveProduct ops env i st)"
| "shop_step ops ps cr (OpRegister env param) st = fst (UserService_Register ops cr env param st)"
| "shop_step ops ps cr (OpLogin env param) st = fst (UserService_Login ops cr env param st)"
| "shop_step ops ps cr (OpFindUser env i) st = fst (UserService_FindUserById ops env i st)"
| "shop_step ops ps cr (OpInsertCart env ks param u c) st = fst (CartService_InsertCart ops ps env ks param u c st)"
| "shop_step ops ps cr (OpFindCart env param) st = fst (CartService_FindCartById ops env param st)"
| "shop_step ops ps cr (OpFindCarts env u) st = fst (CartService_FindCartByUserId ops env u st)"
| "shop_step ops ps cr (OpRemoveCartItem env param) st = fst (CartService_RemoveCartItem ops env param st)"
| "shop_step ops ps cr (OpRemoveCart env param) st = fst (CartService_RemoveCart ops env param st)"
| "shop_step ops ps cr (OpCheckoutCart env c jwt param) st = fst (CartService_CheckoutCart ops ps env c jwt param st)"
| "shop_step ops ps cr (OpBatch env cs params) st = st\<lparr>ss_db := fst (BatchCreateOrder env (ss_db st) cs params)\<rparr>"

definition shop_run :: "'s cache_ops \<Rightarrow> peers \<Rightarrow> crypto \<Rightarrow> shop_op list \<Rightarrow> 's shop_state \<Rightarrow> 's shop_state" where
  "shop_run ops ps cr h st = foldl (\<lambda>st x. shop_step ops ps cr x st) st h"

lemma shop_run_invariant:
  assumes "I st" and "\<And>st x. x \<in> set h \<Longrightarrow> I st \<Longrightarrow> I (shop_step ops ps cr x st)"
  shows "I (shop_run ops ps cr h st)"
  using assms
proof (induction h arbitrary: st)
  case Nil
  then show ?case by (simp add: shop_run_def)
next
  case (Cons x h)
  then have "I (shop_run ops ps cr h (shop_step ops ps cr x st))" by simp
  then show ?case by (simp add: shop_run_def)
qed

section \<open>The database of a history\<close>

lemma BatchCreateOrder_cases:
  "fst (BatchCreateOrder env db cs params) = db \<or>
   (\<exists>bd res. batch_decide env db params = Ret (Inr bd) \<and>
      batch_write env bd db = Inr (fst (BatchCreateOrder env db cs params), res))"
  by (auto simp: BatchCreateOrder_def split: outcome.split sum.split)

lemma CheckoutCart_states:
  "fst (CartService_CheckoutCart ops ps env c jwt param st) \<in>
    {st, fst (CartService_FindCartById ops env \<lparr>fcbi_ID = cc_CartId param, fcbi_UserId = cc_UserId param\<rparr> st),
     fst (CartService_RemoveCart ops (shift_env 1 env) \<lparr>rmc_ID = cc_CartId param, rmc_UserId = cc_UserId param\<rparr>
       (fst (CartService_FindCartById ops env \<lparr>fcbi_ID = cc_CartId param, fcbi_UserId = cc_UserId param\<rparr> st)))}"
proof -
  let ?f = "CartService_FindCartById ops env \<lparr>fcbi_ID = cc_CartId param, fcbi_UserId = cc_UserId param\<rparr> st"
  let ?rm = "CartService_RemoveCart ops (shift_env 1 env)
      \<lparr>rmc_ID = cc_CartId param, rmc_UserId = cc_UserId param\<rparr> (fst ?f)"
  show ?thesis
    by (cases ?f; cases ?rm)
      (auto simp: CartService_CheckoutCart_def split: outcome.split sum.split)
qed

lemma CheckoutCart_db:
  "\<exists>st1 env' param'. ss_db st1 = ss_db st \<and>
    (fst (CartService_CheckoutCart ops ps env c jwt param st) = st1 \<or>
     fst (CartService_CheckoutCart ops ps env c jwt param st) = fst (CartService_RemoveCart ops env' param' st1))"
  using CheckoutCart_states [of ops ps env c jwt param st] FindCartById_db by blast

text \<open>The transactions the services run: nothing else ever changes the database.\<close>

inductive db_tx :: "database \<Rightarrow> database \<Rightarrow> bool" where
  tx_none: "db_tx db db"
| tx_insert_product: "InsertProduct i now db
      \<lparr>ipp_Name = n, ipp_Price = numeric_of_decimal d, ipp_Quantity = q\<rparr> = Inr (db', p) \<Longrightarrow> db_tx db db'"
| tx_update_product: "UpdateProduct now db
      \<lparr>upp_Name = n, upp_Price = numeric_of_decimal d, upp_Quantity = q, upp_ID = i\<rparr> = Inr (db', p) \<Longrightarrow> db_tx db db'"
| tx_delete_product: "DeleteProduct db i = Inr (db', p) \<Longrightarrow> db_tx db db'"
| tx_insert_user: "InsertUser i db
      \<lparr>iup_Username = n, iup_Email = m, iup_Password = h, iup_CreatedAt = timestamptz_of_time t,
       iup_UpdatedAt = timestamptz_of_time t\<rparr> = Inr (db', u) \<Longrightarrow> db_tx db db'"
| tx_insert_cart: "insert_cart_tx env ks param uid db = Inr (db', i, res) \<Longrightarrow> db_tx db db'"
| tx_delete_cart: "DeleteCartByIdAndUserId db darg = Inr (db', c) \<Longrightarrow> db_tx db db'"
| tx_delete_cart_item: "DeleteCartItemFromCartsById db iarg = Inr (db', ci) \<Longrightarrow> db_tx db db'"
| tx_batch: "batch_decide benv db params = Ret (Inr bd) \<Longrightarrow> batch_write benv bd db = Inr (db', bres) \<Longrightarrow>
    db_tx db db'"

lemma db_tx_ok: "db_tx db db' \<Longrightarrow> db_ok db \<Longrightarrow> db_ok db'"
  by (induction rule: db_tx.induct)
    (blast intro: InsertProduct_ok UpdateProduct_ok DeleteProduct_ok InsertUser_ok insert_cart_tx_ok
      DeleteCartByIdAndUserId_ok DeleteCartItemFromCartsById_ok batch_write_ok)+

lemma InsertProduct_tx: "db_tx (ss_db st) (ss_db (fst (ProductService_InsertProduct ops env param st)))"
  by (auto simp: ProductService_InsertProduct_def intro: db_tx.intros split: sum.split prod.split option.split)

lemma FindProduct_tx: "db_tx (ss_db st) (ss_db (fst (ProductService_FindProductById ops env i st)))"
  by (auto simp: ProductService_FindProductById_def intro: tx_none split: sum.split option.split)

lemma UpdateProduct_tx: "db_tx (ss_db st) (ss_db (fst (ProductService_UpdateProduct ops env i param st)))"
  by (auto simp: ProductService_UpdateProduct_def intro: db_tx.intros split: sum.split prod.split option.split)

lemma RemoveProduct_tx: "db_tx (ss_db st) (ss_db (fst (ProductService_RemoveProduct ops env i st)))"
  by (auto simp: ProductService_RemoveProduct_def intro: db_tx.intros split: sum.split prod.split option.split)

lemma Register_tx: "db_tx (ss_db st) (ss_db (fst (UserService_Register ops cr env rparam st)))"
  by (auto simp: UserService_Register_def intro: db_tx.intros split: sum.split prod.split option.split)

lemma Login_db [simp]: "ss_db (fst (UserService_Login ops cr env lparam st)) = ss_db st"
  by (simp add: UserService_Login_def split: sum.split prod.split option.split)

lemma FindUser_db [simp]: "ss_db (fst (UserService_FindUserById ops env i st)) = ss_db st"
  by (simp add: UserService_FindUserById_def split: sum.split prod.split option.split)

lemma FindCarts_db [simp]: "ss_db (fst (CartService_FindCartByUserId ops env u st)) = ss_db st"
  by (simp add: CartService_FindCartByUserId_def split: sum.split prod.split option.split)

lemma InsertCart_tx: "db_tx (ss_db st) (ss_db (fst (CartService_InsertCart ops ps env ks cparam u c st)))"
proof -
  obtain st' out where s: "CartService_InsertCart ops ps env ks cparam u c st = (st', out)"
    by (metis surj_pair)
  show ?thesis
  proof (cases "\<exists>res. out = Ret (Inr res)")
    case True
    with s InsertCart_success show ?thesis by (fastforce intro: tx_insert_cart)
  next
    case False
    with s InsertCart_failure [OF s] show ?thesis by (auto intro: tx_none)
  qed
qed

lemma RemoveCartItem_tx: "db_tx (ss_db st) (ss_db (fst (CartService_RemoveCartItem ops env iparam st)))"
  by (auto simp: CartService_RemoveCartItem_def intro: db_tx.intros split: sum.split prod.split option.split)

lemma RemoveCart_tx: "db_tx (ss_db st) (ss_db (fst (CartService_RemoveCart ops env rparam st)))"
proof -
  obtain st1 out where f: "CartService_FindCartById ops env
      \<lparr>fcbi_ID = rmc_ID rparam, fcbi_UserId = rmc_UserId rparam\<rparr> st = (st1, out)"
    by (metis surj_pair)
  then have "ss_db st1 = ss_db st" by (metis FindCartById_db fst_conv)
  with f show ?thesis
    by (auto simp: CartService_RemoveCart_def intro: db_tx.intros
        split: outcome.split sum.split prod.split option.split)
qed

lemma CheckoutCart_tx: "db_tx (ss_db st) (ss_db (fst (CartService_CheckoutCart ops ps env c jwt kparam st)))"
  using CheckoutCart_db [of st ops ps env c jwt kparam] RemoveCart_tx by (metis tx_none)

lemma Batch_tx: "db_tx db (fst (BatchCreateOrder benv db cs params))"
  using BatchCreateOrder_cases [of benv db cs params] by (metis tx_none tx_batch)

text \<open>Every operation is at most one transaction.\<close>

lemma shop_step_tx: "db_tx (ss_db st) (ss_db (shop_step ops ps cr x st))"
  by (cases x) (simp_all add: InsertProduct_tx FindProduct_tx UpdateProduct_tx RemoveProduct_tx Register_tx
      InsertCart_tx RemoveCartItem_tx RemoveCart_tx CheckoutCart_tx Batch_tx tx_none)

section \<open>What no transaction takes away\<close>

definition grows :: "database \<Rightarrow> database \<Rightarrow> bool" where
  "grows db db' \<longleftrightarrow> prefix (db_users db) (db_users db') \<and> prefix (db_orders db) (db_orders db') \<and>
     prefix (db_order_items db) (db_order_items db')"

lemma grows_refl [simp]: "grows db db"
  by (simp add: grows_def)

lemma grows_trans: "grows a b \<Longrightarrow> grows b c \<Longrightarrow> grows a c"
  unfolding grows_def by (meson prefix_order.trans)

lemma db_tx_grows: "db_tx db db' \<Longrightarrow> grows db db'"
proof (induction rule: db_tx.induct)
  case (tx_insert_cart env ks param uid db db' i res)
  from insert_cart_tx_tables [OF this] show ?case by (simp add: grows_def)
next
  case (tx_batch benv db params bd db' bres)
  from batch_write_orders [OF tx_batch(2)] show ?case by (simp add: grows_def)
qed (auto simp: grows_def sql_simps Let_def split: if_splits list.splits)

section \<open>The cache of a history\<close>

text \<open>A key that neither the product service nor the cart service uses.\<close>

definition foreign :: "string \<Rightarrow> bool" where
  "foreign k \<longleftrightarrow> (\<forall>i. k \<noteq> product_key i \<and> k \<noteq> cart_key i \<and> k \<noteq> user_carts_key i \<and>
     k \<noteq> KEY_CARTS @ uuid_String i)"

lemma foreign_login_key: "foreign (login_key e)"
  by (simp add: foreign_def login_key_eq product_key_def cart_key_eq user_carts_key_def KEY_CARTS_def)

lemma user_key_inj [simp]: "user_key i = user_key j \<longleftrightarrow> i = j"
  by (simp add: user_key_eq)

text \<open>The operations of the user service.\<close>

primrec user_op :: "shop_op \<Rightarrow> bool" where
  "user_op (OpInsertProduct env pparam) = False"
| "user_op (OpFindProduct env i) = False"
| "user_op (OpUpdateProduct env i pparam) = False"
| "user_op (OpRemoveProduct env i) = False"
| "user_op (OpRegister env rparam) = True"
| "user_op (OpLogin env lparam) = True"
| "user_op (OpFindUser env i) = True"
| "user_op (OpInsertCart env ks cparam u c) = False"
| "user_op (OpFindCart env fparam) = False"
| "user_op (OpFindCarts env i) = False"
| "user_op (OpRemoveCartItem env iparam) = False"
| "user_op (OpRemoveCart env cart) = False"
| "user_op (OpCheckoutCart env c jwt kparam) = False"
| "user_op (OpBatch benv cs params) = False"

lemma InsertUser_users: "InsertUser i db arg = Inr (db', u) \<Longrightarrow> db_users db' = db_users db @ [u]"
  by (auto simp: sql_simps Let_def split: if_splits)

context cache_store
begin

lemma FindCart_frame:
  "foreign k \<Longrightarrow> cache_hit ops k (ss_cache (fst (CartService_FindCartById ops env fparam st))) =
     cache_hit ops k (ss_cache st)"
  by (auto simp: CartService_FindCartById_def foreign_def split: sum.split prod.split option.split dest: set_other)

lemma RemoveCart_frame:
  assumes "foreign k"
  shows "cache_hit ops k (ss_cache (fst (CartService_RemoveCart ops env cparam st))) = cache_hit ops k (ss_cache st)"
proof -
  obtain st1 out where f: "CartService_FindCartById ops env
      \<lparr>fcbi_ID = rmc_ID cparam, fcbi_UserId = rmc_UserId cparam\<rparr> st = (st1, out)"
    by (metis surj_pair)
  then have "cache_hit ops k (ss_cache st1) = cache_hit ops k (ss_cache st)"
    by (metis FindCart_frame assms fst_conv)
  with f assms show ?thesis
    by (auto simp: CartService_RemoveCart_def foreign_def dest: jsondel_other
        split: outcome.split sum.split prod.split option.split)
qed

lemma CheckoutCart_frame:
  assumes "foreign k"
  shows "cache_hit ops k (ss_cache (fst (CartService_CheckoutCart ops ps env c jwt kparam st))) =
    cache_hit ops k (ss_cache st)"
  using CheckoutCart_states [of ops ps env c jwt kparam st] FindCart_frame [OF assms] RemoveCart_frame [OF assms]
  by auto

lemma set_then_del_other:
  "JSONSet ops k' v s = (e, s1) \<Longrightarrow> JSONDel ops k' s1 = (e', s2) \<Longrightarrow> k \<noteq> k' \<Longrightarrow>
     cache_hit ops k s2 = cache_hit ops k s"
  by (metis set_other jsondel_other)

lemma InsertCart_frame:
  "foreign k \<Longrightarrow> cache_hit ops k (ss_cache (fst (CartService_InsertCart ops ps env ks cparam u c st))) =
     cache_hit ops k (ss_cache st)"
  by (auto simp: CartService_InsertCart_def foreign_def
      split: outcome.split sum.split prod.split option.split
      dest: set_other [where k' = k] set_then_del_other [where k = k])

lemma shop_step_frame:
  assumes "foreign k" and "\<not> user_op x"
  shows "cache_hit ops k (ss_cache (shop_step ops ps cr x st)) = cache_hit ops k (ss_cache st)"
proof (cases x)
  case (OpInsertProduct env pparam)
  with assms(1) show ?thesis
    by (auto simp: ProductService_InsertProduct_def foreign_def dest: set_other
        split: sum.split prod.split option.split)
next
  case (OpFindProduct env i)
  then show ?thesis
    by (auto simp: ProductService_FindProductById_def split: sum.split option.split)
next
  case (OpUpdateProduct env i pparam)
  with assms(1) show ?thesis
    by (auto simp: ProductService_UpdateProduct_def foreign_def dest: set_other
        split: sum.split prod.split option.split)
next
  case (OpRemoveProduct env i)
  with assms(1) show ?thesis
    by (auto simp: ProductService_RemoveProduct_def foreign_def dest: jsondel_other
        split: sum.split prod.split option.split)
next
  case (OpFindCarts env u)
  with assms(1) show ?thesis
    by (auto simp: CartService_FindCartByUserId_def foreign_def dest: set_other
        split: sum.split prod.split option.split)
next
  case (OpRemoveCartItem env iparam)
  with assms(1) show ?thesis
    by (auto simp: CartService_RemoveCartItem_def foreign_def dest: del_other
        split: sum.split prod.split option.split)
qed (use assms in \<open>simp_all add: FindCart_frame RemoveCart_frame CheckoutCart_frame InsertCart_frame\<close>)

lemma shop_step_login_clean:
  assumes "login_clean ops (ss_cache st)"
  shows "login_clean ops (ss_cache (shop_step ops ps cr x st))"
proof (cases "user_op x")
  case True
  with assms show ?thesis
    by (cases x) (simp_all add: Login_clean Register_clean FindUserById_clean)
next
  case False
  with assms show ?thesis by (simp add: login_clean_def shop_step_frame foreign_login_key)
qed

lemma Register_cases:
  "fst (UserService_Register ops cr env rparam st) = st \<or>
   (\<exists>user e narg. InsertUser (qe_newId env 0) (ss_db st) narg =
      Inr (ss_db (fst (UserService_Register ops cr env rparam st)), user) \<and>
    JSONSet ops (user_key (user_ID user)) (user_row_json user) (ss_cache st) =
      (e, ss_cache (fst (UserService_Register ops cr env rparam st))))"
  by (auto simp: UserService_Register_def split: sum.split prod.split)

end

end
