(* ===== verification/CacheTypes.thy ===== *)
theory CacheTypes
  imports Shop
begin

text \<open>
  The types of what is stored: the values in the columns of the tables (\<open>proper_db\<close>) and the JSON under
  the keys of the cache (\<open>cache_typed\<close>). Every transaction keeps the first, every operation of a service
  the second, so whatever a service finds under one of its keys decodes as the type it expects.
\<close>

section \<open>The columns\<close>

definition proper_db :: "database \<Rightarrow> bool" where
  "proper_db db \<longleftrightarrow> (\<forall>u \<in> set (db_users db). finite_user u) \<and> (\<forall>p \<in> set (db_products db). proper_product p) \<and>
     (\<forall>i \<in> set (db_cart_items db). proper_cart_item i) \<and> (\<forall>i \<in> set (db_order_items db). proper_order_item i)"

lemma InsertProduct_proper:
  "InsertProduct i now db arg = Inr (db', p) \<Longrightarrow> proper_numeric (ipp_Price arg) \<Longrightarrow> proper_db db \<Longrightarrow>
     proper_db db' \<and> proper_product p \<and> product_ID p = i"
  by (auto simp: sql_simps Let_def proper_db_def proper_product_def split: if_splits)

lemma UpdateProduct_proper:
  assumes "UpdateProduct now db arg = Inr (db', p)" and "proper_numeric (upp_Price arg)" and "proper_db db"
  shows "proper_db db' \<and> proper_product p \<and> product_ID p = upp_ID arg"
proof -
  from assms(1) obtain p0 ps where p0: "filter (\<lambda>p. product_ID p = upp_ID arg) (db_products db) = p0 # ps"
    by (auto simp: UpdateProduct_def split: list.splits)
  then have "p0 \<in> set (db_products db)" "product_ID p0 = upp_ID arg" by (auto simp: filter_eq_Cons_iff)
  with assms p0 show ?thesis
    by (auto simp: UpdateProduct_def Let_def proper_db_def proper_product_def split: if_splits)
qed

lemma InsertUser_proper:
  "InsertUser i db arg = Inr (db', u) \<Longrightarrow> finite_tz (iup_CreatedAt arg) \<Longrightarrow> finite_tz (iup_UpdatedAt arg) \<Longrightarrow>
     proper_db db \<Longrightarrow> proper_db db' \<and> finite_user u"
  by (auto simp: sql_simps Let_def proper_db_def finite_user_def split: if_splits)

lemma exec_update_proper:
  assumes "exec_update now db q ids = Inr db'" and "proper_db db"
  shows "proper_db db'"
proof -
  from assms(1) obtain rows ubs where db': "db' = db\<lparr>db_products := rows\<rparr>"
    and rows: "traverse (update_row now ids ubs) (db_products db) = Inr rows"
    by (auto simp: exec_update_def split: option.splits)
  have "list_all2 (\<lambda>r r'. proper_product r \<longrightarrow> proper_product r') (db_products db) rows"
    using rows unfolding traverse_Inr_iff
    by (rule list_all2_mono)
      (auto simp: update_row_def proper_product_def Let_def split: if_splits option.splits)
  with assms(2) show ?thesis unfolding db' proper_db_def
    by (auto simp: list_all2_conv_all_nth all_set_conv_all_nth)
qed

lemma batch_write_proper:
  assumes "batch_write env bd db = Inr (db', res)" and "proper_db db"
  shows "proper_db db'"
proof -
  from batch_write_Inr [OF assms(1)] obtain db1 db2 n2 n3 where
    e: "exec_update (env_now env) db (buildQuery (env_queryKeys env) (bd_mapMergedOrderItem bd))
      (bd_productIds bd) = Inr db1" and
    i: "InsertOrders db1 (prepareOrderArgs env (bd_mapOrder bd)) = Inr (db2, n2)"
    "InsertOrderItem db2 (prepareOrderItemArgs env (bd_mapMergedOrderItem bd)) = Inr (db', n3)"
    by blast
  have "proper_order_item (order_item_of_params a)"
    if "a \<in> set (prepareOrderItemArgs env (bd_mapMergedOrderItem bd))" for a
    using that by (auto simp: prepareOrderItemArgs_def item_row_of_def [symmetric])
  with i exec_update_proper [OF e assms(2)] show ?thesis
    by (auto simp: sql_simps Let_def proper_db_def split: if_splits)
qed

lemma cart_rows_proper: "r \<in> set (cart_rows env i ks items) \<Longrightarrow> proper_cart_item r"
  by (auto simp: cart_rows_def cart_item_args_def cart_item_of_params_def proper_cart_item_def)

lemma db_tx_proper: "db_tx db db' \<Longrightarrow> proper_db db \<Longrightarrow> proper_db db'"
proof (induction rule: db_tx.induct)
  case tx_insert_product
  with InsertProduct_proper show ?case by fastforce
next
  case tx_update_product
  with UpdateProduct_proper show ?case by fastforce
next
  case tx_insert_user
  with InsertUser_proper show ?case by fastforce
next
  case (tx_insert_cart env ks param uid db db' i res)
  from insert_cart_tx_tables [OF tx_insert_cart(1)] tx_insert_cart(2) show ?case
    by (auto simp: proper_db_def dest: cart_rows_proper)
next
  case tx_batch
  with batch_write_proper show ?case by blast
qed (auto simp: proper_db_def sql_simps split: if_splits list.splits)

section \<open>The keys\<close>

lemmas key_texts = product_key_def user_key_eq cart_key_eq user_carts_key_def login_key_eq KEY_CARTS_def

lemma keys_apart [simp]:
  "product_key i \<noteq> user_key j" "product_key i \<noteq> cart_key j" "product_key i \<noteq> user_carts_key j"
  "product_key i \<noteq> login_key m" "user_key i \<noteq> product_key j" "user_key i \<noteq> cart_key j"
  "user_key i \<noteq> user_carts_key j" "cart_key i \<noteq> product_key j" "cart_key i \<noteq> user_key j"
  "cart_key i \<noteq> login_key m" "user_carts_key i \<noteq> product_key j" "user_carts_key i \<noteq> user_key j"
  "user_carts_key i \<noteq> login_key m"
  by (simp_all add: key_texts)

lemma cart_keys_apart [simp]: "cart_key i \<noteq> user_carts_key j" "user_carts_key j \<noteq> cart_key i"
proof -
  have "length (cart_key i) \<noteq> length (user_carts_key j)" by (simp add: key_texts)
  then show "cart_key i \<noteq> user_carts_key j" "user_carts_key j \<noteq> cart_key i" by metis+
qed

section \<open>The cache\<close>

text \<open>What may stand under a key: under a product's key that product, under a user's the row the table has,
  under a cart's the cart; only where a cart's identifier is a user's too could the lookup with swapped
  arguments have left a row. The login keys hold no JSON.\<close>

definition typed_entry :: "database \<Rightarrow> string \<Rightarrow> json \<Rightarrow> bool" where
  "typed_entry db k v \<longleftrightarrow>
     (\<forall>i. k = product_key i \<longrightarrow> (\<exists>p. proper_product p \<and> product_ID p = i \<and> v = product_row_json p)) \<and>
     (\<forall>i. k = user_key i \<longrightarrow> (\<exists>u \<in> set (db_users db). user_ID u = i \<and> v = user_row_json u)) \<and>
     (\<forall>i. k = cart_key i \<longrightarrow> (\<exists>c. sc_ID c = i \<and> v = res_cart_json c) \<or> i \<in> user_ID ` set (db_users db)) \<and>
     (\<forall>i. k = user_carts_key i \<longrightarrow> (\<exists>rows. v = JArr (map cart_row_json rows))) \<and>
     (\<forall>m. k \<noteq> login_key m)"

lemma typed_product [intro]: "proper_product p \<Longrightarrow> product_ID p = i \<Longrightarrow> typed_entry db (product_key i) (product_row_json p)"
  by (auto simp: typed_entry_def)

lemma typed_user [intro]: "u \<in> set (db_users db) \<Longrightarrow> user_ID u = i \<Longrightarrow> typed_entry db (user_key i) (user_row_json u)"
  by (auto simp: typed_entry_def)

lemma typed_cart [intro]: "sc_ID c = i \<Longrightarrow> typed_entry db (cart_key i) (res_cart_json c)"
  by (auto simp: typed_entry_def)

lemma typed_cart_row [intro]: "i \<in> user_ID ` set (db_users db) \<Longrightarrow> typed_entry db (cart_key i) v"
  by (simp add: typed_entry_def)

lemma typed_carts [intro]: "typed_entry db (user_carts_key i) (JArr (map cart_row_json rows))"
  by (auto simp: typed_entry_def)

lemma typed_entry_grows: "grows db db' \<Longrightarrow> typed_entry db k v \<Longrightarrow> typed_entry db' k v"
  using set_mono_prefix [of "db_users db" "db_users db'"] unfolding typed_entry_def grows_def by blast

definition cache_typed :: "'s cache_ops \<Rightarrow> database \<Rightarrow> 's \<Rightarrow> bool" where
  "cache_typed ops db s \<longleftrightarrow> (\<forall>k v. cache_hit ops k s = Some v \<longrightarrow> typed_entry db k v)"

lemma cache_typed_grows: "grows db db' \<Longrightarrow> cache_typed ops db s \<Longrightarrow> cache_typed ops db' s"
  by (simp add: cache_typed_def typed_entry_grows)

context cache_store
begin

lemma typed_set:
  "JSONSet ops k v s = (e, s') \<Longrightarrow> cache_typed ops db s \<Longrightarrow> typed_entry db k v \<Longrightarrow> cache_typed ops db s'"
  unfolding cache_typed_def using set_hits by blast

lemma typed_sets:
  "JSONSet ops (product_key (product_ID p)) (product_row_json p) s = (e, s') \<Longrightarrow> proper_product p \<Longrightarrow>
     cache_typed ops db s \<Longrightarrow> cache_typed ops db s'"
  "JSONSet ops (user_key (user_ID u)) (user_row_json u) s = (e, s') \<Longrightarrow> u \<in> set (db_users db) \<Longrightarrow>
     cache_typed ops db s \<Longrightarrow> cache_typed ops db s'"
  "JSONSet ops (cart_key (sc_ID c)) (res_cart_json c) s = (e, s') \<Longrightarrow>
     cache_typed ops db s \<Longrightarrow> cache_typed ops db s'"
  "JSONSet ops (cart_key i) v s = (e, s') \<Longrightarrow> i \<in> user_ID ` set (db_users db) \<Longrightarrow>
     cache_typed ops db s \<Longrightarrow> cache_typed ops db s'"
  "JSONSet ops (user_carts_key i) (JArr (map cart_row_json rows)) s = (e, s') \<Longrightarrow>
     cache_typed ops db s \<Longrightarrow> cache_typed ops db s'"
  by (erule typed_set; blast)+

lemma typed_jsondel: "JSONDel ops k s = (e, s') \<Longrightarrow> cache_typed ops db s \<Longrightarrow> cache_typed ops db s'"
  unfolding cache_typed_def using jsondel_hits by blast

lemma typed_del: "Del ops k s = (e, s') \<Longrightarrow> cache_typed ops db s \<Longrightarrow> cache_typed ops db s'"
  unfolding cache_typed_def using del_hits by blast

lemma typed_setex: "SetEx ops k t s = (e, s') \<Longrightarrow> cache_typed ops db s \<Longrightarrow> cache_typed ops db s'"
  unfolding cache_typed_def using setex_hits by blast

text \<open>One operation after the other: the cache is looked at against any later database.\<close>

lemma InsertProduct_typed:
  assumes "cache_typed ops db (ss_cache st)" and "proper_db (ss_db st)"
  shows "cache_typed ops db (ss_cache (fst (ProductService_InsertProduct ops env param st)))"
  using assms
  by (auto simp: ProductService_InsertProduct_def split: sum.split prod.split option.split
      dest!: InsertProduct_proper dest: typed_sets(1))

lemma UpdateProduct_typed:
  assumes "cache_typed ops db (ss_cache st)" and "proper_db (ss_db st)"
  shows "cache_typed ops db (ss_cache (fst (ProductService_UpdateProduct ops env i param st)))"
  using assms
  by (auto simp: ProductService_UpdateProduct_def split: sum.split prod.split option.split
      dest!: UpdateProduct_proper dest: typed_sets(1))

lemma RemoveProduct_typed:
  assumes "cache_typed ops db (ss_cache st)"
  shows "cache_typed ops db (ss_cache (fst (ProductService_RemoveProduct ops env i st)))"
  using assms
  by (auto simp: ProductService_RemoveProduct_def split: sum.split prod.split option.split dest: typed_jsondel)

lemma Register_typed:
  assumes "cache_typed ops (ss_db st) (ss_cache st)"
  shows "cache_typed ops (ss_db (fst (UserService_Register ops cr env param st)))
    (ss_cache (fst (UserService_Register ops cr env param st)))"
proof -
  let ?st' = "fst (UserService_Register ops cr env param st)"
  have t: "cache_typed ops (ss_db ?st') (ss_cache st)"
    by (rule cache_typed_grows [OF db_tx_grows [OF Register_tx] assms])
  consider "ss_cache ?st' = ss_cache st" | user e narg where
      "InsertUser (qe_newId env 0) (ss_db st) narg = Inr (ss_db ?st', user)"
      "JSONSet ops (user_key (user_ID user)) (user_row_json user) (ss_cache st) = (e, ss_cache ?st')"
    using Register_cases [of cr env param st] by auto
  then show ?thesis
  proof cases
    case 1
    with t show ?thesis by simp
  next
    case (2 user e narg)
    from InsertUser_users [OF 2(1)] have "user \<in> set (db_users (ss_db ?st'))" by simp
    with typed_sets(2) [OF 2(2)] t show ?thesis by blast
  qed
qed

lemma Login_typed:
  assumes "cache_typed ops db (ss_cache st)"
  shows "cache_typed ops db (ss_cache (fst (UserService_Login ops cr env param st)))"
  using assms
  by (auto simp: UserService_Login_def split: sum.split prod.split option.split dest: typed_setex)

lemma FindUser_typed:
  assumes "cache_typed ops (ss_db st) (ss_cache st)"
  shows "cache_typed ops (ss_db st) (ss_cache (fst (UserService_FindUserById ops env i st)))"
  using assms
  by (auto simp: UserService_FindUserById_def FindById_def split: sum.split prod.split option.split
      dest!: one_row_filter dest: typed_sets(2))

lemma FindCart_typed:
  assumes "cache_typed ops db (ss_cache st)" and "grows (ss_db st) db"
  shows "cache_typed ops db (ss_cache (fst (CartService_FindCartById ops env param st)))"
proof -
  have "fcbi_ID param \<in> user_ID ` set (db_users db)"
    if "FindCartById (ss_db st) \<lparr>fcp_ID = fcbi_ID param, fcp_ID_2 = j\<rparr> = Inr row" for j row
    using that assms(2) set_mono_prefix [of "db_users (ss_db st)" "db_users db"]
    by (auto simp: FindCartById_def grows_def one_row_Inr_iff map_eq_Cons_conv filter_eq_Cons_iff)
  with assms(1) show ?thesis
    by (auto simp: CartService_FindCartById_def split: sum.split prod.split option.split dest: typed_sets(4))
qed

lemma FindCarts_typed:
  assumes "cache_typed ops db (ss_cache st)"
  shows "cache_typed ops db (ss_cache (fst (CartService_FindCartByUserId ops env u st)))"
  using assms
  by (auto simp: CartService_FindCartByUserId_def split: sum.split prod.split option.split dest: typed_sets(5))

lemma InsertCart_typed:
  assumes "cache_typed ops db (ss_cache st)"
  shows "cache_typed ops db (ss_cache (fst (CartService_InsertCart ops ps env ks param u c st)))"
  using assms
  by (auto simp: CartService_InsertCart_def split: outcome.split sum.split prod.split option.split
      dest!: insert_cart_tx_response dest: typed_sets(3) typed_jsondel)

lemma RemoveCartItem_typed:
  assumes "cache_typed ops db (ss_cache st)"
  shows "cache_typed ops db (ss_cache (fst (CartService_RemoveCartItem ops env param st)))"
  using assms
  by (auto simp: CartService_RemoveCartItem_def split: sum.split prod.split option.split dest: typed_del)

lemma RemoveCart_typed:
  assumes "cache_typed ops db (ss_cache st)" and "grows (ss_db st) db"
  shows "cache_typed ops db (ss_cache (fst (CartService_RemoveCart ops env param st)))"
proof -
  obtain st1 out where f: "CartService_FindCartById ops env
      \<lparr>fcbi_ID = rmc_ID param, fcbi_UserId = rmc_UserId param\<rparr> st = (st1, out)"
    by (metis surj_pair)
  with FindCart_typed [OF assms] have "cache_typed ops db (ss_cache st1)" by (metis fst_conv)
  with f show ?thesis
    by (auto simp: CartService_RemoveCart_def dest: typed_jsondel
        split: outcome.split sum.split prod.split option.split)
qed

lemma CheckoutCart_typed:
  assumes "cache_typed ops db (ss_cache st)" and "grows (ss_db st) db"
  shows "cache_typed ops db (ss_cache (fst (CartService_CheckoutCart ops ps env c jwt param st)))"
proof -
  let ?f = "fst (CartService_FindCartById ops env \<lparr>fcbi_ID = cc_CartId param, fcbi_UserId = cc_UserId param\<rparr> st)"
  have "cache_typed ops db (ss_cache ?f)" "grows (ss_db ?f) db" using assms FindCart_typed by auto
  with RemoveCart_typed assms(1) CheckoutCart_states [of ops ps env c jwt param st] show ?thesis by fastforce
qed

lemma shop_step_typed:
  assumes "cache_typed ops (ss_db st) (ss_cache st)" and "proper_db (ss_db st)"
  shows "cache_typed ops (ss_db (shop_step ops ps cr x st)) (ss_cache (shop_step ops ps cr x st))"
proof -
  have g: "grows (ss_db st) (ss_db (shop_step ops ps cr x st))" by (rule db_tx_grows [OF shop_step_tx])
  note t = cache_typed_grows [OF g assms(1)]
  show ?thesis
  proof (cases x)
    case (OpFindProduct env i)
    with assms(1) show ?thesis by (auto simp: ProductService_FindProductById_def split: sum.split option.split)
  qed (use t g assms in \<open>simp_all add: InsertProduct_typed UpdateProduct_typed RemoveProduct_typed Register_typed
      Login_typed FindUser_typed InsertCart_typed FindCart_typed FindCarts_typed RemoveCartItem_typed RemoveCart_typed
      CheckoutCart_typed\<close>)
qed

end

section \<open>Reading\<close>

lemma typed_hit: "cache_typed ops db s \<Longrightarrow> cache_hit ops k s = Some v \<Longrightarrow> typed_entry db k v"
  by (simp add: cache_typed_def)

lemma typed_product_read:
  assumes "cache_typed ops db (ss_cache st)" and "cache_hit ops (product_key i) (ss_cache st) \<noteq> None"
  shows "\<exists>p. sp_ID p = i \<and> ProductService_FindProductById ops env i st = (st, Ret (Inr p))"
proof -
  from assms obtain p where "cache_hit ops (product_key i) (ss_cache st) = Some (product_row_json p)"
    "proper_product p" "product_ID p = i"
    using typed_hit unfolding typed_entry_def by (metis option.exhaust)
  then show ?thesis
    by (simp add: ProductService_FindProductById_def product_codec.dec_enc res_product_of_row_def)
qed

lemma typed_product_returns:
  assumes "proper_db (ss_db st)" and "cache_typed ops db (ss_cache st)"
  shows "\<exists>r. ProductService_FindProductById ops env i st = (st, Ret r)"
proof (cases "cache_hit ops (product_key i) (ss_cache st)")
  case None
  have "\<exists>r. Product_Response p = Ret r" if "FindProductById (ss_db st) i = Inr p" for p
    using that assms(1) by (intro Product_Response_not_nil)
      (auto simp: FindProductById_def proper_db_def proper_product_def proper_numeric_def dest!: one_row_filter)
  with None show ?thesis
    by (auto simp: ProductService_FindProductById_def db_call_def split: option.split sum.split)
next
  case (Some v)
  with typed_product_read [OF assms(2), of i env] show ?thesis by blast
qed

lemma typed_user_found:
  assumes "proper_db (ss_db st) \<and> cache_typed ops (ss_db st) (ss_cache st)"
    and "UserService_FindUserById ops env i st = (st', Ret (Inr user))"
  shows "user \<in> set (db_users (ss_db st)) \<and> user_ID user = i"
proof (cases "cache_hit ops (user_key i) (ss_cache st)")
  case None
  with assms(2) show ?thesis
    by (auto simp: UserService_FindUserById_def FindById_def
        split: sum.splits prod.splits option.splits dest!: one_row_filter)
next
  case (Some v)
  with assms(1) obtain u where u: "u \<in> set (db_users (ss_db st))" "user_ID u = i" "v = user_row_json u"
    using typed_hit unfolding typed_entry_def by metis
  with assms(1) have "decode_user_row v = Inr u" by (simp add: user_codec.dec_enc proper_db_def)
  with Some u assms(2) show ?thesis by (simp add: UserService_FindUserById_def)
qed

lemma typed_user_read:
  assumes "proper_db (ss_db st)" and "cache_typed ops (ss_db st) (ss_cache st)"
    and "cache_hit ops (user_key i) (ss_cache st) \<noteq> None"
  shows "\<exists>u. user_ID u = i \<and> UserService_FindUserById ops env i st = (st, Ret (Inr u))"
proof -
  from assms(2,3) obtain u where "cache_hit ops (user_key i) (ss_cache st) = Some (user_row_json u)"
    "u \<in> set (db_users (ss_db st))" "user_ID u = i"
    using typed_hit unfolding typed_entry_def by (metis option.exhaust)
  with assms(1) show ?thesis by (simp add: UserService_FindUserById_def user_codec.dec_enc proper_db_def)
qed

lemma typed_cart_read:
  assumes "cache_typed ops db (ss_cache st)" and "cache_hit ops (cart_key i) (ss_cache st) \<noteq> None"
    and "i \<notin> user_ID ` set (db_users db)"
  shows "\<exists>c. sc_ID c = i \<and>
    CartService_FindCartById ops env \<lparr>fcbi_ID = i, fcbi_UserId = u\<rparr> st = (st, Ret (Inr c))"
proof -
  from assms obtain c where "cache_hit ops (cart_key i) (ss_cache st) = Some (res_cart_json c)" "sc_ID c = i"
    using typed_hit unfolding typed_entry_def by (metis option.exhaust)
  then show ?thesis by (simp add: CartService_FindCartById_def cart_codec.dec_enc plain_cart_def)
qed

end
