(* ===== verification/Router.thy ===== *)
theory Router
  imports Http
begin

text \<open>
  The router of the services (gorilla/mux, vendored): routes with their matchers, subrouters with
  inherited matchers and middlewares, and how a request finds its handler (\<open>mux.go\<close>, \<open>route.go\<close>,
  \<open>regexp.go\<close>). A variable of a template stands for a non-empty run without a slash.
\<close>

section \<open>Templates\<close>

datatype part = Raw string | PVar string

text \<open>The parts of a template without nested braces (\<open>newRouteRegexp\<close>).\<close>

fun template_parts :: "nat \<Rightarrow> string \<Rightarrow> part list" where
  "template_parts 0 s = []"
| "template_parts (Suc n) s =
     (if s = [] then []
      else let raw = takeWhile (\<lambda>c. c \<noteq> CHR ''{'') s; rest = dropWhile (\<lambda>c. c \<noteq> CHR ''{'') s in
        if rest = [] then [Raw raw]
        else Raw raw # PVar (takeWhile (\<lambda>c. c \<noteq> CHR ''}'') (tl rest)) #
               template_parts n (tl (dropWhile (\<lambda>c. c \<noteq> CHR ''}'') (tl rest))))"

definition parse_template :: "string \<Rightarrow> part list" where
  "parse_template s = template_parts (Suc (length s)) s"

primrec strip_raw :: "string \<Rightarrow> string \<Rightarrow> string option" where
  "strip_raw [] s = Some s"
| "strip_raw (c # p) s = (case s of [] \<Rightarrow> None | d # r \<Rightarrow> if c = d then strip_raw p r else None)"

text \<open>Unfolded only on a subject that is known.\<close>

lemma strip_raw_eval [simp]:
  "strip_raw (c # p) [] = None"
  "strip_raw (c # p) (d # r) = (if c = d then strip_raw p r else None)"
  by simp_all

declare strip_raw.simps(2) [simp del]

text \<open>The anchored pattern: the variables it binds, or no match.\<close>

fun match_parts :: "part list \<Rightarrow> string \<Rightarrow> (string \<times> string) list option" where
  "match_parts [] s = (if s = [] then Some [] else None)"
| "match_parts (Raw r # ps) s = Option.bind (strip_raw r s) (match_parts ps)"
| "match_parts (PVar n # ps) s =
     (let v = takeWhile (\<lambda>c. c \<noteq> CHR ''/'') s in
      if v = [] then None
      else map_option (Cons (n, v)) (match_parts ps (dropWhile (\<lambda>c. c \<noteq> CHR ''/'') s)))"

section \<open>Routes\<close>

datatype match_err = ErrMethodMismatch | ErrNotFound

datatype middleware = MwTrace | MwLogging | MwRecoverPanic | MwAuth

datatype 'e matcher =
    MPrefix string
  | MPath string
  | MMethods "string list"
  | MRouter "'e route list" "middleware list"
and 'e route = Route "'e matcher list" "'e option"

text \<open>The \<open>RouteMatch\<close> a request carries through the routes; a handler with its middlewares, outermost first.\<close>

record 'e route_match =
  rm_err :: "match_err option"
  rm_handler :: "(middleware list \<times> 'e) option"
  rm_vars :: "(string \<times> string) list"

definition no_match :: "'e route_match" where
  "no_match = \<lparr>rm_err = None, rm_handler = None, rm_vars = []\<rparr>"

primrec matcher_is_methods :: "'e matcher \<Rightarrow> bool" where
  "matcher_is_methods (MPrefix p) = False"
| "matcher_is_methods (MPath t) = False"
| "matcher_is_methods (MMethods ms) = True"
| "matcher_is_methods (MRouter rs mws) = False"

primrec matcher_template :: "'e matcher \<Rightarrow> part list option" where
  "matcher_template (MPrefix p) = Some []"
| "matcher_template (MPath t) = Some (parse_template t)"
| "matcher_template (MMethods ms) = None"
| "matcher_template (MRouter rs mws) = None"

text \<open>\<open>r.regexp.path\<close> is the last path or prefix matcher; \<open>setMatch\<close> stores its variables.\<close>

definition route_vars :: "'e matcher list \<Rightarrow> string \<Rightarrow> (string \<times> string) list" where
  "route_vars ms path =
     (case List.map_filter matcher_template ms of
        [] \<Rightarrow> []
      | ts \<Rightarrow> (case match_parts (last ts) path of None \<Rightarrow> [] | Some vs \<Rightarrow> vs))"

text \<open>The end of \<open>Route.Match\<close>, after its matchers.\<close>

definition route_end :: "'e matcher list \<Rightarrow> 'e option \<Rightarrow> string \<Rightarrow> match_err option \<Rightarrow> 'e route_match \<Rightarrow>
    bool \<times> 'e route_match" where
  "route_end ms handler path matchErr m =
     (if matchErr \<noteq> None then (False, m\<lparr>rm_err := matchErr\<rparr>)
      else let m1 = (if rm_err m = Some ErrMethodMismatch \<and> handler \<noteq> None
                     then m\<lparr>rm_err := None, rm_handler := map_option (Pair []) handler\<rparr> else m);
               m2 = (if rm_handler m1 = None then m1\<lparr>rm_handler := map_option (Pair []) handler\<rparr> else m1)
           in (True, m2\<lparr>rm_vars := rm_vars m2 @ route_vars ms path\<rparr>))"

fun match_matcher :: "string \<Rightarrow> string \<Rightarrow> 'e matcher \<Rightarrow> 'e route_match \<Rightarrow> bool \<times> 'e route_match"
  and match_matchers :: "string \<Rightarrow> string \<Rightarrow> 'e matcher list \<Rightarrow> match_err option \<Rightarrow> 'e route_match \<Rightarrow>
    (match_err option \<times> 'e route_match) + 'e route_match"
  and match_route :: "string \<Rightarrow> string \<Rightarrow> 'e route \<Rightarrow> 'e route_match \<Rightarrow> bool \<times> 'e route_match"
  and match_routes :: "string \<Rightarrow> string \<Rightarrow> 'e route list \<Rightarrow> middleware list \<Rightarrow> 'e route_match \<Rightarrow>
    bool \<times> 'e route_match" where
  "match_matcher meth path (MPrefix p) m = (strip_raw p path \<noteq> None, m)"
| "match_matcher meth path (MPath t) m = (match_parts (parse_template t) path \<noteq> None, m)"
| "match_matcher meth path (MMethods ms) m = (meth \<in> set ms, m)"
| "match_matcher meth path (MRouter rs mws) m = match_routes meth path rs mws m"
| "match_matchers meth path [] matchErr m = Inl (matchErr, m)"
| "match_matchers meth path (x # xs) matchErr m =
     (case match_matcher meth path x m of
        (True, m') \<Rightarrow> match_matchers meth path xs matchErr
           (if rm_err m' = Some ErrMethodMismatch then m'\<lparr>rm_err := None\<rparr> else m')
      | (False, m') \<Rightarrow>
          if matcher_is_methods x then match_matchers meth path xs (Some ErrMethodMismatch) m'
          else Inr (if rm_err m' = Some ErrNotFound then m'\<lparr>rm_err := None\<rparr> else m'))"
| "match_route meth path (Route ms handler) m =
     (case match_matchers meth path ms None m of
        Inr m' \<Rightarrow> (False, m')
      | Inl (matchErr, m') \<Rightarrow> route_end ms handler path matchErr m')"
| "match_routes meth path [] mws m =
     (if rm_err m = Some ErrMethodMismatch then (False, m) else (False, m\<lparr>rm_err := Some ErrNotFound\<rparr>))"
| "match_routes meth path (r # rs) mws m =
     (case match_route meth path r m of
        (True, m') \<Rightarrow>
          (True, if rm_err m' = None
                 then m'\<lparr>rm_handler := map_option (\<lambda>(ws, e). (mws @ ws, e)) (rm_handler m')\<rparr> else m')
      | (False, m') \<Rightarrow> match_routes meth path rs mws m')"

section \<open>Serving\<close>

text \<open>\<open>clean\<close> is \<open>cleanPath\<close>: a path it changes is redirected before any route is tried.\<close>

datatype 'e served = Redirected | NotFound | MethodNotAllowed | Served "middleware list" 'e "(string \<times> string) list"

definition serve :: "(string \<Rightarrow> string) \<Rightarrow> 'e route list \<Rightarrow> string \<Rightarrow> string \<Rightarrow> 'e served" where
  "serve clean routes meth path =
     (if clean path \<noteq> path then Redirected
      else let (ok, m) = match_routes meth path routes [] no_match in
        case (if ok then rm_handler m else None) of
          Some (mws, e) \<Rightarrow> Served mws e (rm_vars m)
        | None \<Rightarrow> if rm_err m = Some ErrMethodMismatch then MethodNotAllowed else NotFound)"

text \<open>
  \<open>PathPrefix(p).Subrouter()\<close> and \<open>HandleFunc(t, h).Methods(...)\<close>: a route of a subrouter starts with
  the matchers it inherits.
\<close>

definition HandleFunc :: "'e matcher list \<Rightarrow> string \<Rightarrow> string \<Rightarrow> 'e \<Rightarrow> string list \<Rightarrow> 'e route" where
  "HandleFunc inherited prefix tpl e methods =
     Route (inherited @ [MPath (prefix @ tpl), MMethods methods]) (Some e)"

definition Subrouter :: "'e matcher list \<Rightarrow> 'e route list \<Rightarrow> middleware list \<Rightarrow> 'e route" where
  "Subrouter inherited routes mws = Route (inherited @ [MRouter routes mws]) None"

section \<open>Middlewares\<close>

text \<open>Tracing does nothing to a request the model keeps.\<close>

primrec apply_middleware :: "(string \<Rightarrow> go_error + jwt_token) \<Rightarrow> string \<Rightarrow> middleware \<Rightarrow> 's handler \<Rightarrow> 's handler" where
  "apply_middleware parse newId MwTrace next1 = next1"
| "apply_middleware parse newId MwLogging next1 = Logging newId next1"
| "apply_middleware parse newId MwRecoverPanic next1 = RecoverPanic next1"
| "apply_middleware parse newId MwAuth next1 = Auth parse next1"

definition apply_middlewares ::
    "(string \<Rightarrow> go_error + jwt_token) \<Rightarrow> string \<Rightarrow> middleware list \<Rightarrow> 's handler \<Rightarrow> 's handler" where
  "apply_middlewares parse newId mws h = foldr (apply_middleware parse newId) mws h"

definition protected_chain :: "middleware list" where
  "protected_chain = [MwTrace, MwLogging, MwRecoverPanic, MwAuth]"

definition public_chain :: "middleware list" where
  "public_chain = [MwTrace, MwLogging, MwRecoverPanic]"

lemma apply_protected [simp]:
  "apply_middlewares parse newId protected_chain h = protected1 parse newId h"
  by (simp add: apply_middlewares_def protected_chain_def protected1_def)

lemma apply_public [simp]: "apply_middlewares parse newId public_chain h = public1 newId h"
  by (simp add: apply_middlewares_def public_chain_def public1_def)

lemma apply_none [simp]: "apply_middlewares parse newId [] h = h"
  by (simp add: apply_middlewares_def)

end
