(* ===== verification/Routes.thy ===== *)
theory Routes
  imports Router OrderController
begin

text \<open>
  The route tables of the four services (\<open>Attach...Controller\<close> of each controller and the routers the
  commands make) and what they serve: which handler, behind which middlewares, for which request.
\<close>

section \<open>Tables\<close>

datatype endpoint =
    Metrics
  | GetProducts | InsertProductE | FindProductByIdE | RemoveProductE | UpdateProductE
  | InsertCartE | CheckoutCartE | FindCartByIdE | RemoveCartItemE
  | FindOrdersE | FindOrderByIdE | CheckoutE
  | LoginE | RegisterE | FindUserByIdE

definition metrics_route :: "endpoint route" where
  "metrics_route = Route [MPath ''/metrics''] (Some Metrics)"

definition cart_metrics_route :: "endpoint route" where
  "cart_metrics_route = Route [MPath ''/metrics'', MMethods [''GET'']] (Some Metrics)"

definition AttachProductController :: "endpoint route list" where
  "AttachProductController =
     (let p = ''/products''; router = [MPrefix p]; postRouter = [MPrefix p, MMethods [''POST'']] in
      [Subrouter router
         [HandleFunc router p [] GetProducts [''GET''],
          HandleFunc router p ''/{productId}'' FindProductByIdE [''GET''],
          HandleFunc router p ''/{productId}'' RemoveProductE [''DELETE''],
          HandleFunc router p ''/{productId}'' UpdateProductE [''PUT'']]
         protected_chain,
       Subrouter postRouter [HandleFunc postRouter p [] InsertProductE [''POST'']] []])"

definition AttachCartController :: "endpoint route list" where
  "AttachCartController =
     (let p = ''/carts''; router = [MPrefix p] in
      [Subrouter router
         [HandleFunc router p [] InsertCartE [''POST''],
          HandleFunc router p ''/{cartId}/checkout'' CheckoutCartE [''POST''],
          HandleFunc router p ''/{cartId}'' FindCartByIdE [''GET''],
          HandleFunc router p ''/{cartId}/{cartItemId}'' RemoveCartItemE [''DELETE'']]
         protected_chain])"

definition AttachOrderController :: "endpoint route list" where
  "AttachOrderController =
     (let p = ''/orders''; router = [MPrefix p] in
      [Subrouter router
         [HandleFunc router p [] FindOrdersE [''GET''],
          HandleFunc router p ''/{orderId}'' FindOrderByIdE [''GET''],
          HandleFunc router p ''/checkout'' CheckoutE [''POST'']]
         protected_chain])"

definition AttachUserController :: "endpoint route list" where
  "AttachUserController =
     (let p = ''/users''; router = [MPrefix p] in
      [Subrouter router
         [HandleFunc router p ''/login'' LoginE [''POST''],
          HandleFunc router p ''/register'' RegisterE [''POST''],
          HandleFunc router p ''/{userId}'' FindUserByIdE [''GET'']]
         public_chain])"

definition product_routes :: "endpoint route list" where
  "product_routes = metrics_route # AttachProductController"

definition cart_routes :: "endpoint route list" where
  "cart_routes = cart_metrics_route # AttachCartController"

definition order_routes :: "endpoint route list" where
  "order_routes = metrics_route # AttachOrderController"

definition user_routes :: "endpoint route list" where
  "user_routes = metrics_route # AttachUserController"

lemmas route_tables = product_routes_def cart_routes_def order_routes_def user_routes_def
  AttachProductController_def AttachCartController_def AttachOrderController_def AttachUserController_def
  metrics_route_def cart_metrics_route_def HandleFunc_def Subrouter_def Let_def

lemma parts_eval:
  "parse_template ''/metrics'' = [Raw ''/metrics'']"
  "parse_template ''/products'' = [Raw ''/products'']"
  "parse_template ''/products/{productId}'' = [Raw ''/products/'', PVar ''productId'']"
  "parse_template ''/carts'' = [Raw ''/carts'']"
  "parse_template ''/carts/{cartId}'' = [Raw ''/carts/'', PVar ''cartId'']"
  "parse_template ''/carts/{cartId}/checkout'' = [Raw ''/carts/'', PVar ''cartId'', Raw ''/checkout'']"
  "parse_template ''/carts/{cartId}/{cartItemId}'' =
     [Raw ''/carts/'', PVar ''cartId'', Raw ''/'', PVar ''cartItemId'']"
  "parse_template ''/orders'' = [Raw ''/orders'']"
  "parse_template ''/orders/{orderId}'' = [Raw ''/orders/'', PVar ''orderId'']"
  "parse_template ''/orders/checkout'' = [Raw ''/orders/checkout'']"
  "parse_template ''/users/login'' = [Raw ''/users/login'']"
  "parse_template ''/users/register'' = [Raw ''/users/register'']"
  "parse_template ''/users/{userId}'' = [Raw ''/users/'', PVar ''userId'']"
  by (simp_all add: parse_template_def Let_def)

section \<open>What the tables serve\<close>

lemma strip_raw_Some: "strip_raw p s = Some t \<longleftrightarrow> s = p @ t"
  by (induction p arbitrary: s) (auto simp: strip_raw.simps(2) split: list.splits)

lemma strip_raw_self [simp]: "strip_raw p (p @ t) = Some t"
  by (simp add: strip_raw_Some)

lemma strip_raw_same [simp]: "strip_raw r r = Some []"
  using strip_raw_self [of r "[]"] by simp

lemma match_Raw [simp]: "match_parts [Raw r] s = (if s = r then Some [] else None)"
  by (cases "strip_raw r s") (auto simp: match_parts.simps(2) strip_raw_Some)

declare match_parts.simps(2) [simp del]

text \<open>One variable after a prefix: a last segment that is not empty.\<close>

definition last_segment :: "string \<Rightarrow> string \<Rightarrow> string option" where
  "last_segment p s = Option.bind (strip_raw p s) (\<lambda>v. if v = [] \<or> CHR ''/'' \<in> set v then None else Some v)"

lemma takeWhile_no_slash:
  "CHR ''/'' \<notin> set v \<Longrightarrow> takeWhile (\<lambda>c. c \<noteq> CHR ''/'') v = v"
  "CHR ''/'' \<notin> set v \<Longrightarrow> dropWhile (\<lambda>c. c \<noteq> CHR ''/'') v = []"
  by (auto simp: takeWhile_eq_all_conv dropWhile_eq_Nil_conv)

lemma match_last: "match_parts [Raw p, PVar n] s = map_option (\<lambda>v. [(n, v)]) (last_segment p s)"
proof (cases "strip_raw p s")
  case (Some v)
  have "dropWhile (\<lambda>c. c \<noteq> CHR ''/'') v \<noteq> []" if "CHR ''/'' \<in> set v"
    using that by (auto simp: dropWhile_eq_Nil_conv)
  with Some show ?thesis by (auto simp: match_parts.simps(2) last_segment_def Let_def takeWhile_no_slash)
qed (simp add: match_parts.simps(2) last_segment_def)

lemma last_segment_Some: "last_segment p s = Some v \<longleftrightarrow> s = p @ v \<and> v \<noteq> [] \<and> CHR ''/'' \<notin> set v"
  by (auto simp: last_segment_def strip_raw_Some bind_eq_Some_conv)

lemmas route_simps = serve_def no_match_def route_end_def route_vars_def map_filter_simps parts_eval match_last

text \<open>One route of a subrouter, and one with a method of its own.\<close>

definition forget :: "match_err \<Rightarrow> 'e route_match \<Rightarrow> 'e route_match" where
  "forget x m = (if rm_err m = Some x then m\<lparr>rm_err := None\<rparr> else m)"

lemma forget_eval [simp]:
  "forget x \<lparr>rm_err = None, rm_handler = h, rm_vars = vs\<rparr> = \<lparr>rm_err = None, rm_handler = h, rm_vars = vs\<rparr>"
  "forget x \<lparr>rm_err = Some x, rm_handler = h, rm_vars = vs\<rparr> = \<lparr>rm_err = None, rm_handler = h, rm_vars = vs\<rparr>"
  "x \<noteq> y \<Longrightarrow> forget x \<lparr>rm_err = Some y, rm_handler = h, rm_vars = vs\<rparr> =
     \<lparr>rm_err = Some y, rm_handler = h, rm_vars = vs\<rparr>"
  by (simp_all add: forget_def)

definition found :: "'e \<Rightarrow> (string \<times> string) list \<Rightarrow> 'e route_match \<Rightarrow> 'e route_match" where
  "found e vs m = m\<lparr>rm_handler := (case rm_handler m of None \<Rightarrow> Some ([], e) | Some h \<Rightarrow> Some h),
     rm_vars := rm_vars m @ vs\<rparr>"

lemma found_eval [simp]:
  "found e vs \<lparr>rm_err = x, rm_handler = None, rm_vars = []\<rparr> =
     \<lparr>rm_err = x, rm_handler = Some ([], e), rm_vars = vs\<rparr>"
  by (simp add: found_def)

lemma match_HandleFunc:
  "match_route meth path (HandleFunc [MPrefix p] p t e ms) m =
     (if strip_raw p path = None then (False, forget ErrNotFound m)
      else case match_parts (parse_template (p @ t)) path of
          None \<Rightarrow> (False, forget ErrNotFound (forget ErrMethodMismatch m))
        | Some vs \<Rightarrow>
            if meth \<in> set ms then (True, found e vs (forget ErrMethodMismatch m))
            else (False, (forget ErrMethodMismatch m)\<lparr>rm_err := Some ErrMethodMismatch\<rparr>))"
  by (auto simp: HandleFunc_def forget_def found_def route_end_def route_vars_def map_filter_simps
      split: option.splits)

lemma match_HandleFunc_method:
  "match_route meth path (HandleFunc [MPrefix p, MMethods [k]] p t e [k]) m =
     (if strip_raw p path = None then (False, forget ErrNotFound m)
      else case match_parts (parse_template (p @ t)) path of
          None \<Rightarrow> (False, forget ErrNotFound (forget ErrMethodMismatch m))
        | Some vs \<Rightarrow>
            if meth = k then (True, found e vs (forget ErrMethodMismatch m))
            else (False, (forget ErrMethodMismatch m)\<lparr>rm_err := Some ErrMethodMismatch\<rparr>))"
  by (cases "meth = k") (auto simp: HandleFunc_def forget_def found_def route_end_def route_vars_def map_filter_simps
      split: option.splits)

lemma route_vars_subrouter [simp]:
  "route_vars [MPrefix p, MRouter rs mws] path = []"
  "route_vars [MPrefix p, MMethods ms, MRouter rs mws] path = []"
  by (simp_all add: route_vars_def map_filter_simps)

lemma match_Subrouter:
  "match_route meth path (Subrouter [MPrefix p] rs mws) m =
     (if strip_raw p path = None then (False, forget ErrNotFound m)
      else case match_routes meth path rs mws (forget ErrMethodMismatch m) of
          (True, m') \<Rightarrow> (True, forget ErrMethodMismatch m')
        | (False, m') \<Rightarrow> (False, forget ErrNotFound m'))"
proof (cases "match_routes meth path rs mws (forget ErrMethodMismatch m)")
  case (Pair ok m')
  then show ?thesis
    by (cases m') (auto simp: Subrouter_def forget_def route_end_def Let_def split: bool.split)
qed

lemma match_Subrouter_method:
  "match_route meth path (Subrouter [MPrefix p, MMethods [k]] rs mws) m =
     (if strip_raw p path = None then (False, forget ErrNotFound m)
      else case match_routes meth path rs mws (forget ErrMethodMismatch m) of
          (True, m') \<Rightarrow> (if meth = k then (True, forget ErrMethodMismatch m')
                          else (False, (forget ErrMethodMismatch m')\<lparr>rm_err := Some ErrMethodMismatch\<rparr>))
        | (False, m') \<Rightarrow> (False, forget ErrNotFound m'))"
proof (cases "match_routes meth path rs mws (forget ErrMethodMismatch m)")
  case (Pair ok m')
  then show ?thesis
    by (cases m'; cases "meth = k") (auto simp: Subrouter_def forget_def route_end_def Let_def split: bool.split)
qed

lemma match_metrics [simp]:
  "match_route meth path metrics_route \<lparr>rm_err = None, rm_handler = None, rm_vars = []\<rparr> =
    (if path = ''/metrics'' then (True, \<lparr>rm_err = None, rm_handler = Some ([], Metrics), rm_vars = []\<rparr>)
     else (False, \<lparr>rm_err = None, rm_handler = None, rm_vars = []\<rparr>))"
  by (simp add: metrics_route_def parts_eval route_end_def route_vars_def map_filter_simps)

lemma match_cart_metrics [simp]:
  "match_route meth path cart_metrics_route \<lparr>rm_err = None, rm_handler = None, rm_vars = []\<rparr> =
    (if path = ''/metrics'' then
       (if meth = ''GET'' then (True, \<lparr>rm_err = None, rm_handler = Some ([], Metrics), rm_vars = []\<rparr>)
        else (False, \<lparr>rm_err = Some ErrMethodMismatch, rm_handler = None, rm_vars = []\<rparr>))
     else (False, \<lparr>rm_err = None, rm_handler = None, rm_vars = []\<rparr>))"
  by (simp add: cart_metrics_route_def parts_eval route_end_def route_vars_def map_filter_simps)

lemmas serve_simps = serve_def no_match_def match_last parts_eval match_HandleFunc match_HandleFunc_method
  match_Subrouter match_Subrouter_method Let_def

lemma product_routes_serve:
  assumes "clean path = path"
  shows "serve clean product_routes meth path =
    (if path = ''/metrics'' then Served [] Metrics []
     else if path = ''/products'' then
       (if meth = ''GET'' then Served protected_chain GetProducts []
        else if meth = ''POST'' then Served [] InsertProductE [] else MethodNotAllowed)
     else case last_segment ''/products/'' path of
         None \<Rightarrow> NotFound
       | Some v \<Rightarrow>
           (if meth = ''GET'' then Served protected_chain FindProductByIdE [(''productId'', v)]
            else if meth = ''DELETE'' then Served protected_chain RemoveProductE [(''productId'', v)]
            else if meth = ''PUT'' then Served protected_chain UpdateProductE [(''productId'', v)]
            else NotFound))"
proof (cases "last_segment ''/products/'' path")
  case None
  show ?thesis
  proof (cases "path = ''/products''")
    case True
    with assms None show ?thesis
      by (cases "meth = ''GET''"; cases "meth = ''POST''")
        (simp_all add: serve_simps product_routes_def AttachProductController_def)
  next
    case False
    with assms None show ?thesis
      by (cases "path = ''/metrics''"; cases "strip_raw ''/products'' path")
        (simp_all add: serve_simps product_routes_def AttachProductController_def)
  qed
next
  case (Some v)
  then have p: "path = ''/products/'' @ v" "v \<noteq> []" by (simp_all add: last_segment_Some)
  with assms Some show ?thesis
    by (cases "meth = ''GET''"; cases "meth = ''DELETE''"; cases "meth = ''PUT''")
      (simp_all add: serve_simps product_routes_def AttachProductController_def)
qed

lemma order_routes_serve:
  assumes "clean path = path"
  shows "serve clean order_routes meth path =
    (if path = ''/metrics'' then Served [] Metrics []
     else if path = ''/orders'' then
       (if meth = ''GET'' then Served protected_chain FindOrdersE [] else NotFound)
     else case last_segment ''/orders/'' path of
         None \<Rightarrow> NotFound
       | Some v \<Rightarrow>
           (if meth = ''GET'' then Served protected_chain FindOrderByIdE [(''orderId'', v)]
            else if v = ''checkout'' then
              (if meth = ''POST'' then Served protected_chain CheckoutE [] else MethodNotAllowed)
            else NotFound))"
proof (cases "last_segment ''/orders/'' path")
  case None
  then have "path \<noteq> ''/orders/checkout''" by (auto simp: last_segment_def)
  with assms None show ?thesis
    by (cases "path = ''/orders''"; cases "path = ''/metrics''"; cases "strip_raw ''/orders'' path";
        cases "meth = ''GET''")
      (simp_all add: serve_simps order_routes_def AttachOrderController_def)
next
  case (Some v)
  then have p: "path = ''/orders/'' @ v" "v \<noteq> []" by (simp_all add: last_segment_Some)
  with assms Some show ?thesis
    by (cases "meth = ''GET''"; cases "meth = ''POST''"; cases "v = ''checkout''")
      (simp_all add: serve_simps order_routes_def AttachOrderController_def)
qed

lemma user_routes_serve:
  assumes "clean path = path"
  shows "serve clean user_routes meth path =
    (if path = ''/metrics'' then Served [] Metrics []
     else case last_segment ''/users/'' path of
         None \<Rightarrow> NotFound
       | Some v \<Rightarrow>
           (if meth = ''GET'' then Served public_chain FindUserByIdE [(''userId'', v)]
            else if v = ''login'' \<and> meth = ''POST'' then Served public_chain LoginE []
            else if v = ''register'' \<and> meth = ''POST'' then Served public_chain RegisterE []
            else MethodNotAllowed))"
proof (cases "last_segment ''/users/'' path")
  case None
  then have "path \<noteq> ''/users/login''" "path \<noteq> ''/users/register''" by (auto simp: last_segment_def)
  with assms None show ?thesis
    by (cases "path = ''/metrics''"; cases "strip_raw ''/users'' path"; cases "meth = ''GET''")
      (simp_all add: serve_simps user_routes_def AttachUserController_def)
next
  case (Some v)
  then have p: "path = ''/users/'' @ v" "v \<noteq> []" by (simp_all add: last_segment_Some)
  with assms Some show ?thesis
    by (cases "meth = ''GET''"; cases "meth = ''POST''"; cases "v = ''login''"; cases "v = ''register''")
      (simp_all add: serve_simps user_routes_def AttachUserController_def)
qed

text \<open>The templates of the carts bind one or two segments; their matches stay as they are.\<close>

definition checkout_vars :: "string \<Rightarrow> (string \<times> string) list option" where
  "checkout_vars path = match_parts (parse_template ''/carts/{cartId}/checkout'') path"

definition cart_item_vars :: "string \<Rightarrow> (string \<times> string) list option" where
  "cart_item_vars path = match_parts (parse_template ''/carts/{cartId}/{cartItemId}'') path"

lemma cart_vars_fold:
  "match_parts [Raw ''/carts/'', PVar ''cartId'', Raw ''/checkout''] path = checkout_vars path"
  "match_parts [Raw ''/carts/'', PVar ''cartId'', Raw ''/'', PVar ''cartItemId''] path = cart_item_vars path"
  by (simp_all only: checkout_vars_def cart_item_vars_def parts_eval)

lemma cart_routes_served:
  assumes "serve clean cart_routes meth path = Served mws e vs"
  shows "e = Metrics \<and> mws = [] \<or>
    mws = protected_chain \<and>
    (e = InsertCartE \<and> path = ''/carts'' \<and> meth = ''POST'' \<or>
     e = CheckoutCartE \<and> checkout_vars path = Some vs \<and> meth = ''POST'' \<or>
     e = FindCartByIdE \<and> last_segment ''/carts/'' path \<noteq> None \<and> meth = ''GET'' \<or>
     e = RemoveCartItemE \<and> cart_item_vars path = Some vs \<and> meth = ''DELETE'')"
proof (cases "path = ''/metrics''")
  case True
  with assms show ?thesis
    by (cases "meth = ''GET''")
      (simp_all add: serve_simps cart_vars_fold cart_routes_def AttachCartController_def split: if_splits)
next
  case False
  show ?thesis
  proof (cases "strip_raw ''/carts'' path")
    case None
    with False assms show ?thesis
      by (simp add: serve_simps cart_routes_def AttachCartController_def split: if_splits)
  next
    case (Some x)
    have cp: "clean path = path" using assms by (auto simp: serve_def split: if_splits)
    from False assms Some show ?thesis
      by (simp add: cp serve_simps cart_vars_fold cart_routes_def AttachCartController_def
          split: if_splits option.splits)
  qed
qed

end
