(* ===== verification/Services.thy ===== *)
theory Services
  imports Routes
begin

text \<open>
  The services as they are reached: a method and a path find a handler through the route table, the
  handler runs behind its middlewares with the variables of the path. The state of the order
  service is its worker: a checkout puts its request into the queue.
\<close>

section \<open>Handlers\<close>

definition product_handler :: "'s cache_ops \<Rightarrow> req_product validator \<Rightarrow> request_env \<Rightarrow> endpoint \<Rightarrow> 's shop_state handler" where
  "product_handler ops validate env e = (case e of
     GetProducts \<Rightarrow> ProductController_GetProducts env
   | InsertProductE \<Rightarrow> ProductController_InsertProduct ops validate env
   | FindProductByIdE \<Rightarrow> ProductController_FindProductById ops env
   | RemoveProductE \<Rightarrow> ProductController_RemoveProduct ops validate env
   | UpdateProductE \<Rightarrow> ProductController_UpdateProduct ops validate env
   | _ \<Rightarrow> (\<lambda>c r st. (st, Ret None)))"

definition cart_handler :: "'s cache_ops \<Rightarrow> peers \<Rightarrow> req_cart validator \<Rightarrow> request_env \<Rightarrow> string list \<Rightarrow>
    endpoint \<Rightarrow> 's shop_state handler" where
  "cart_handler ops ps validate env ks e = (case e of
     InsertCartE \<Rightarrow> CartController_InsertCart ops ps validate env ks
   | CheckoutCartE \<Rightarrow> CartController_CheckoutCart ops ps env
   | FindCartByIdE \<Rightarrow> CartController_FindCartById ops env
   | RemoveCartItemE \<Rightarrow> CartController_RemoveCartItem ops env
   | _ \<Rightarrow> (\<lambda>c r st. (st, Ret None)))"

definition user_handler :: "'s cache_ops \<Rightarrow> crypto \<Rightarrow> (json \<Rightarrow> string) \<Rightarrow> login_request validator \<Rightarrow>
    register_request validator \<Rightarrow> request_env \<Rightarrow> endpoint \<Rightarrow> 's shop_state handler" where
  "user_handler ops cr text lvalidate rvalidate env e = (case e of
     LoginE \<Rightarrow> UserController_Login ops cr text lvalidate env
   | RegisterE \<Rightarrow> UserController_Register ops cr rvalidate env
   | FindUserByIdE \<Rightarrow> UserController_FindUserById ops env
   | _ \<Rightarrow> (\<lambda>c r st. (st, Ret None)))"

definition order_handler :: "go_error option \<Rightarrow> go_error option \<Rightarrow> create_order validator \<Rightarrow> checkout_wait \<Rightarrow>
    endpoint \<Rightarrow> worker handler" where
  "order_handler fault1 fault2 validate wait e = (case e of
     FindOrdersE \<Rightarrow> (\<lambda>c r w. (w, OrderController_FindOrders fault1 c r (w_db w)))
   | FindOrderByIdE \<Rightarrow> (\<lambda>c r w. (w, OrderController_FindOrderById fault1 fault2 c r (w_db w)))
   | CheckoutE \<Rightarrow> (\<lambda>c r w.
       case OrderController_Checkout validate c r wait of
         (None, out) \<Rightarrow> (w, out)
       | (Some o1, out) \<Rightarrow> (enqueue o1 w, out))
   | _ \<Rightarrow> (\<lambda>c r w. (w, Ret None)))"

section \<open>A request to a service\<close>

text \<open>The status the router answers by itself, or the outcome of the handler.\<close>

definition run_service :: "(string \<Rightarrow> string) \<Rightarrow> endpoint route list \<Rightarrow> (endpoint \<Rightarrow> 's handler) \<Rightarrow>
    (string \<Rightarrow> go_error + jwt_token) \<Rightarrow> string \<Rightarrow> string \<Rightarrow> string \<Rightarrow> ctx \<Rightarrow> http_request \<Rightarrow> 's \<Rightarrow>
    's \<times> (nat + reply)" where
  "run_service clean routes h parse newId meth path c r s =
     (case serve clean routes meth path of
        Redirected \<Rightarrow> (s, Inl 301)
      | NotFound \<Rightarrow> (s, Inl 404)
      | MethodNotAllowed \<Rightarrow> (s, Inl 405)
      | Served mws e vs \<Rightarrow>
          (case apply_middlewares parse newId mws (h e) c
                  (r\<lparr>rq_vars := map_of vs, rq_pathValues := Map.empty\<rparr>) s of
             (s', out) \<Rightarrow> (s', Inr out)))"

definition no_valid_token :: "(string \<Rightarrow> go_error + jwt_token) \<Rightarrow> http_request \<Rightarrow> bool" where
  "no_valid_token parse r \<longleftrightarrow>
     (\<forall>t. bearer_token (rq_Authorization r) = Some t \<longrightarrow> (\<exists>e. VerifyToken parse t = Inl e))"

lemma protected_no_token:
  assumes "no_valid_token parse r"
  shows "fst (protected1 parse newId next1 c r s) = s"
  using protected_cases [of r parse newId next1 c s] assms by (auto simp: no_valid_token_def)

lemma run_service_served:
  assumes "serve clean routes meth path = Served mws e vs"
  shows "run_service clean routes h parse newId meth path c r s =
    (fst (apply_middlewares parse newId mws (h e) c (r\<lparr>rq_vars := map_of vs, rq_pathValues := Map.empty\<rparr>) s),
     Inr (snd (apply_middlewares parse newId mws (h e) c
       (r\<lparr>rq_vars := map_of vs, rq_pathValues := Map.empty\<rparr>) s)))"
  using assms by (simp add: run_service_def split: prod.split)

lemma run_service_not_served:
  assumes "\<And>mws e vs. serve clean routes meth path \<noteq> Served mws e vs"
  shows "fst (run_service clean routes h parse newId meth path c r s) = s"
  using assms by (simp add: run_service_def split: served.split)

text \<open>A table whose handlers are protected, or do nothing.\<close>

lemma run_service_no_token:
  assumes "no_valid_token parse r"
    and "\<And>mws e vs. serve clean routes meth path = Served mws e vs \<Longrightarrow> mws = protected_chain \<or> mws = [] \<and> e = Metrics"
    and "\<And>c r s. fst (h Metrics c r s) = s"
  shows "fst (run_service clean routes h parse newId meth path c r s) = s"
proof (cases "serve clean routes meth path")
  case (Served mws e vs)
  have "no_valid_token parse (r\<lparr>rq_vars := map_of vs, rq_pathValues := Map.empty\<rparr>)"
    using assms(1) by (simp add: no_valid_token_def)
  with assms(2) [OF Served] assms(3) show ?thesis
    by (auto simp: run_service_served [OF Served] protected_no_token)
qed (simp_all add: run_service_def)

lemma order_served_protected:
  assumes "serve clean order_routes meth path = Served mws e vs"
  shows "mws = protected_chain \<or> mws = [] \<and> e = Metrics"
proof (cases "clean path = path")
  case True
  from assms show ?thesis
    unfolding order_routes_serve [of clean, OF True] by (auto split: if_splits option.splits)
next
  case False
  with assms show ?thesis by (simp add: serve_def)
qed

lemma cart_served_protected:
  "serve clean cart_routes meth path = Served mws e vs \<Longrightarrow> mws = protected_chain \<or> mws = [] \<and> e = Metrics"
  using cart_routes_served by blast

section \<open>The product service\<close>

lemma protected_state:
  assumes "\<And>c s. fst (next1 c r s) = s"
  shows "fst (protected1 parse newId next1 c r s) = s"
  using protected_cases [of r parse newId next1 c s] assms by metis

lemma product_reads:
  "fst (ProductController_GetProducts env c r st) = st"
  "fst (ProductController_FindProductById ops env c r st) = st"
  by (auto simp: ProductController_GetProducts_def ProductController_FindProductById_def answer_def
      ProductService_GetProducts_def ProductService_FindProductById_def split: sum.split option.split)

lemma product_writes_parse:
  assumes "via_gorilla r"
  shows "fst (ProductController_RemoveProduct ops validate env c r st) = st"
    and "fst (ProductController_UpdateProduct ops validate env c r st) = st"
  using assms
  by (simp_all add: ProductController_RemoveProduct_def ProductController_UpdateProduct_def via_gorilla_def
      map_get_def uuid_Parse_def)

end
