(* ===== verification/ShopClaims.thy ===== *)
theory ShopClaims
  imports OrderClaims CacheTypes Services
begin

text \<open>
  The properties of the product and the user service, of the order endpoints and of the
  middlewares all of them share.
\<close>

section \<open>The middlewares\<close>

definition web_ctx :: ctx where
  "web_ctx = \<lparr>ctx_requestId = Some ''r1'', ctx_jwt = None\<rparr>"

definition web_request :: http_request where
  "web_request = \<lparr>rq_requestId = [], rq_Authorization = [], rq_vars = Map.empty,
     rq_pathValues = Map.empty, rq_query = Map.empty, rq_body = Inr JNull\<rparr>"

section \<open>Products\<close>


definition web_env :: request_env where
  "web_env = \<lparr>qe_fault = (\<lambda>n. None), qe_newId = (\<lambda>n. uid (50 + of_nat n)), qe_now = 9\<rparr>"

definition web_state :: "redis shop_state" where
  "web_state = \<lparr>ss_db = shop_db, ss_cache = \<lparr>rd_keys = Map.empty, rd_down = False\<rparr>\<rparr>"

definition new_price :: req_product where
  "new_price = \<lparr>rp_Name = ''lamp'', rp_Price = \<lparr>dec_value = Some 999, dec_exp = -2\<rparr>, rp_Quantity = 3\<rparr>"



text \<open>C27: an order does not touch the cache of the product service: after a batch that took some of a
  product that was cached, the service still answers, and not with the stock that is left.\<close>

theorem product_cache_goes_stale:
  assumes "cache_hit ops (product_key i) cache = Some (product_row_json row)" and "proper_product row"
    and "product_Quantity row = stock_of db i" and "db_ok db" and "env_enumerates benv params"
    and "BatchCreateOrder benv db cs params = (db', Ret (cs', Inr res))"
    and "total_quantity (kept db params i) \<noteq> 0"
  shows "\<exists>p. ProductService_FindProductById ops env i \<lparr>ss_db = db', ss_cache = cache\<rparr> =
      (\<lparr>ss_db = db', ss_cache = cache\<rparr>, Ret (Inr p)) \<and> sp_Quantity p \<noteq> stock_of db' i"
proof -
  from assms(6) obtain bd where
    "batch_decide benv db params = Ret (Inr bd)" "batch_write benv bd db = Inr (db', res)"
    by (auto simp: BatchCreateOrder_def split: if_splits outcome.splits sum.splits)
  from stock_of_write [OF this assms(4,5), of i] assms(7) have "stock_of db' i \<noteq> stock_of db i"
    by simp
  with assms(1-3) show ?thesis
    by (simp add: ProductService_FindProductById_def product_codec.dec_enc res_product_of_row_def)
qed

lemma lamp_cached:
  "cache_hit redis_ops (product_key (uid 2))
     \<lparr>rd_keys = [product_key (uid 2) \<mapsto> RJson (product_row_json (shop_product 1))], rd_down = False\<rparr> =
   Some (product_row_json (shop_product 1))"
  by (simp add: redis_hit)

lemma lamp_proper: "proper_product (shop_product 1)"
  by (simp add: proper_product_def shop_product_def numeric_of_decimal_def proper_numeric_def
      finite_tz_def timestamptz_of_time_def)

theorem product_cache_goes_stale_witness:
  "\<exists>db' p st. ss_db st = db' \<and> fst (BatchCreateOrder two_env shop_db fresh_chans two_orders) = db' \<and>
     ProductService_FindProductById redis_ops web_env (uid 2) st = (st, Ret (Inr p)) \<and>
     sp_Quantity p \<noteq> stock_of db' (uid 2)"
proof -
  obtain db' res cs' where b:
    "BatchCreateOrder two_env shop_db fresh_chans two_orders = (db', Ret (cs', Inr res))"
    using two_orders_commit by blast
  have q: "product_Quantity (shop_product 1) = stock_of shop_db (uid 2)"
    by (simp add: stock_of_def shop_db_def shop_product_def)
  have k: "total_quantity (kept shop_db two_orders (uid 2)) \<noteq> 0"
    by (simp add: kept_two total_quantity_def shop_item_def)
  from product_cache_goes_stale [OF lamp_cached lamp_proper q shop_db_ok two_env_enumerates b k, of web_env]
  show ?thesis using b by (metis fst_conv shop_state.select_convs(1))
qed

lemma post_products: "clean ''/products'' = ''/products'' \<Longrightarrow>
    serve clean product_routes ''POST'' ''/products'' = Served [] InsertProductE []"
  by (simp add: product_routes_serve)

lemma post_changes_products:
  assumes "fst (run_service clean product_routes (product_handler ops validate env) parse newId meth path c r st) \<noteq> st"
  shows "meth = ''POST'' \<and> path = ''/products''"
proof -
  from assms obtain mws e vs where s: "serve clean product_routes meth path = Served mws e vs"
    using run_service_not_served by metis
  then have cp: "clean path = path" by (auto simp: serve_def split: if_splits)
  let ?r = "r\<lparr>rq_vars := map_of vs, rq_pathValues := Map.empty\<rparr>"
  have g: "via_gorilla ?r" by (simp add: via_gorilla_def)
  have changed: "fst (apply_middlewares parse newId mws (product_handler ops validate env e) c ?r st) \<noteq> st"
    using assms by (simp add: run_service_served [OF s])
  have same: "fst (protected1 parse newId next1 c ?r st) = st"
    if "\<And>c st. fst (next1 c ?r st) = st" for next1
    using that by (rule protected_state)
  have "e = InsertProductE"
  proof (rule ccontr)
    assume "e \<noteq> InsertProductE"
    with s have "mws = protected_chain \<and> e \<in> {GetProducts, FindProductByIdE, RemoveProductE, UpdateProductE} \<or>
        mws = [] \<and> e = Metrics"
      unfolding product_routes_serve [of clean, OF cp] by (auto split: if_splits option.splits)
    with changed same show False
      by (auto simp: product_handler_def product_reads product_writes_parse [OF g])
  qed
  with s show ?thesis
    unfolding product_routes_serve [of clean, OF cp] by (auto split: if_splits option.splits)
qed

lemma InsertProduct_not_blocked: "snd (ProductService_InsertProduct ops env param st) \<noteq> Blocked"
  by (auto simp: ProductService_InsertProduct_def Product_Response_def decimal_NewFromBigInt_def
      split: sum.split prod.split option.split)

lemma and_then_Panic: "m \<noteq> Blocked \<Longrightarrow> \<exists>k. and_then m (\<lambda>r. Panic p) = Panic k"
  by (cases m) auto

lemma insert_product_panics:
  assumes "ctx_requestId c = None"
  shows "(\<exists>m. snd (ProductController_InsertProduct ops validate env c r st) = Panic m) \<and>
    (\<forall>param. decode_body decode_req_product r = Inr param \<and> validate param = None \<longrightarrow>
      fst (ProductController_InsertProduct ops validate env c r st) =
      fst (ProductService_InsertProduct ops env param st))"
  using assms
  by (auto simp: ProductController_InsertProduct_def with_body_def answer_def reply_without_id
      intro!: and_then_Panic InsertProduct_not_blocked split: sum.split option.split)

definition new_lamp_body :: json where
  "new_lamp_body = JObj [(''name'', JStr ''desk''),
     (''price'', decimal_json \<lparr>dec_value = Some 999, dec_exp = -2\<rparr>), (''quantity'', JNum 3 0)]"

lemma new_lamp_decoded: "\<exists>d. decode_body decode_req_product (web_request\<lparr>rq_body := Inr new_lamp_body\<rparr>) =
    Inr \<lparr>rp_Name = ''desk'', rp_Price = d, rp_Quantity = 3\<rparr>"
  by (simp add: decode_body_def new_lamp_body_def json_field_def)

lemma new_lamp_inserted: "\<exists>row. db_products (ss_db (fst (ProductService_InsertProduct redis_ops web_env
    \<lparr>rp_Name = ''desk'', rp_Price = d, rp_Quantity = 3\<rparr> web_state))) = [shop_product 1, row]"
  by (simp add: ProductService_InsertProduct_def db_call_def FindProductByName_def one_row_def
      InsertProduct_def Let_def web_env_def web_state_def shop_db_def shop_product_def redis_set
      numeric_of_decimal_def)

definition web_parse :: "string \<Rightarrow> go_error + jwt_token" where
  "web_parse t = Inl (ErrNew ''token is malformed'')"

abbreviation post_a_product :: "(string \<Rightarrow> go_error + jwt_token) \<Rightarrow> ctx \<Rightarrow> http_request \<Rightarrow> redis shop_state \<times> (nat + reply)" where
  "post_a_product parse c r \<equiv> run_service (\<lambda>p. p) product_routes (product_handler redis_ops (\<lambda>b. None) web_env)
     parse ''n'' ''POST'' ''/products'' c r web_state"

text \<open>C28: of all requests to the product service, only \<open>POST /products\<close> ever changes its database or its
  cache, whatever token comes with the others: the handlers that remove and update a product ask
  \<open>r.PathValue\<close>, which the router never fills. And the route of \<open>POST /products\<close> has no middleware, so its
  requests carry no identifier: nobody has to log in, the handler dies in its reply whatever the request is,
  and a product it inserted before stays.\<close>

theorem only_post_changes_products:
  assumes "ctx_requestId c = None" and "clean ''/products'' = ''/products''"
    and "run_service clean product_routes (product_handler ops validate env) parse newId meth path c r st = (st', rep)"
  shows "(st' \<noteq> st \<longrightarrow> meth = ''POST'' \<and> path = ''/products'') \<and>
    (meth = ''POST'' \<and> path = ''/products'' \<longrightarrow> (\<exists>m. rep = Inr (Panic m)) \<and>
      (\<forall>param. decode_body decode_req_product r = Inr param \<and> validate param = None \<longrightarrow>
        st' = fst (ProductService_InsertProduct ops env param st)))"
proof (intro conjI impI)
  assume "st' \<noteq> st"
  with assms(3) post_changes_products show "meth = ''POST''" "path = ''/products''" by (metis fst_conv)+
next
  assume "meth = ''POST'' \<and> path = ''/products''"
  with assms(3) have run: "run_service clean product_routes (product_handler ops validate env) parse newId
      ''POST'' ''/products'' c r st = (st', rep)" by simp
  have d: "decode_body dec (r\<lparr>rq_vars := vs, rq_pathValues := ps\<rparr>) = decode_body dec r"
    for vs ps :: "string \<Rightarrow> string option" and dec :: "json \<Rightarrow> go_error + req_product"
    by (simp add: decode_body_def)
  note served = run_service_served [of clean, OF post_products, OF assms(2)]
  from insert_product_panics [OF assms(1), of ops validate env "r\<lparr>rq_vars := map_of [], rq_pathValues := Map.empty\<rparr>" st]
    run show "\<exists>m. rep = Inr (Panic m)"
    "\<forall>param. decode_body decode_req_product r = Inr param \<and> validate param = None \<longrightarrow>
      st' = fst (ProductService_InsertProduct ops env param st)"
    by (auto simp: served product_handler_def d)
qed

theorem only_post_changes_products_witness:
  "\<exists>st' m row. post_a_product web_parse (web_ctx\<lparr>ctx_requestId := None\<rparr>)
      (web_request\<lparr>rq_body := Inr new_lamp_body\<rparr>) = (st', Inr (Panic m)) \<and>
    db_products (ss_db st') = [shop_product 1, row]"
proof -
  obtain st' rep where r: "post_a_product web_parse (web_ctx\<lparr>ctx_requestId := None\<rparr>)
      (web_request\<lparr>rq_body := Inr new_lamp_body\<rparr>) = (st', rep)" by (metis surj_pair)
  from only_post_changes_products [OF _ _ r] new_lamp_decoded new_lamp_inserted r show ?thesis by fastforce
qed

section \<open>The width of a stock\<close>

text \<open>C29: the quantity of a new product is a 64-bit \<open>int\<close> in the request and an \<open>int32\<close> in the statement, and
  nothing checks it: what is stored is the remainder that 32 bits leave, which is the number requested exactly
  when that is in the range of an \<open>integer\<close> column. A quantity of 2147483648 puts a stock below zero into the
  table, which is what the guarantees of the order service assume never to be the case.\<close>

theorem new_stock_is_truncated:
  assumes "ss_db (fst (ProductService_InsertProduct ops env param st)) \<noteq> ss_db st"
  shows "\<exists>row. db_products (ss_db (fst (ProductService_InsertProduct ops env param st))) =
      db_products (ss_db st) @ [row] \<and> product_Name row = rp_Name param \<and>
    sint (product_Quantity row) = (sint (rp_Quantity param) + 2 ^ 31) mod 2 ^ 32 - 2 ^ 31 \<and>
    (sint (product_Quantity row) = sint (rp_Quantity param) \<longleftrightarrow> int4_range (sint (rp_Quantity param)))"
  proof (rule InsertProduct_appends [OF assms])
  fix row
  assume "db_products (ss_db (fst (ProductService_InsertProduct ops env param st))) = db_products (ss_db st) @ [row]"
    and "product_Name row = rp_Name param" and "product_Quantity row = int32_of_int (rp_Quantity param)"
  with sint_int32_of_int [of "rp_Quantity param"] int32_of_int_exact [of "rp_Quantity param"] show ?thesis
    by (intro exI [of _ row]) simp
qed

theorem new_stock_is_truncated_witness:
  "\<exists>row. db_products (ss_db (fst (ProductService_InsertProduct redis_ops web_env
      \<lparr>rp_Name = ''desk'', rp_Price = shop_price, rp_Quantity = 2147483648\<rparr> web_state))) = [shop_product 1, row] \<and>
     sint (product_Quantity row) = - 2147483648"
proof -
  let ?param = "\<lparr>rp_Name = ''desk'', rp_Price = shop_price, rp_Quantity = 2147483648\<rparr>"
  have "db_products (ss_db (fst (ProductService_InsertProduct redis_ops web_env ?param web_state))) \<noteq>
      db_products (ss_db web_state)"
    by (simp add: ProductService_InsertProduct_def db_call_def FindProductByName_def one_row_def
        InsertProduct_def Let_def web_env_def web_state_def shop_db_def shop_product_def redis_set
        numeric_of_decimal_def)
  then have "ss_db (fst (ProductService_InsertProduct redis_ops web_env ?param web_state)) \<noteq> ss_db web_state"
    by metis
  from new_stock_is_truncated [OF this] show ?thesis by (auto simp: web_state_def shop_db_def)
qed

section \<open>Users\<close>

definition web_crypto :: crypto where
  "web_crypto = \<lparr>CompareHashAndPassword = (\<lambda>h p. if h = ''hash'' \<and> p = ''secret'' then None
       else Some (ErrNew ''crypto/bcrypt: hashedPassword is not the hash of the given password'')),
     GenerateFromPassword = (\<lambda>p. Inr ''hash''), SignedString = (\<lambda>cl. Inr (''jwt:'' @ cl_Subject cl))\<rparr>"

text \<open>C30: after any history of the shop that started with no JSON value under a login key, a login
  succeeds only for a registered e-mail address and a password that \<open>bcrypt\<close> accepts for its row,
  and the token it returns was signed for that row in this call.\<close>

theorem login_needs_the_password:
  assumes "cache_store ops" and "login_clean ops (ss_cache st0)"
    and "UserService_Login ops cr env param (shop_run ops ps cr h st0) = (st', Ret (Inr tok))"
  shows "\<exists>user t. user \<in> set (db_users (ss_db (shop_run ops ps cr h st0))) \<and>
    user_Email user = lr_Email param \<and>
    CompareHashAndPassword cr (user_Password user) (lr_Password param) = None \<and>
    SignedString cr (login_claims user (qe_now env) (qe_newId env 0)) = Inr t \<and> tok = Signed t"
proof (rule Login_checks_password [OF assms(3)])
  show "login_clean ops (ss_cache (shop_run ops ps cr h st0))"
    by (rule shop_run_invariant [where I = "\<lambda>st. login_clean ops (ss_cache st)", OF assms(2)])
      (rule cache_store.shop_step_login_clean [OF assms(1)])
qed

definition web_peers :: peers where
  "web_peers = \<lparr>find_user = (\<lambda>u. Inr 200), checkout_order = (\<lambda>t o1. Inr (201, Inr ''ok''))\<rparr>"

definition ana_login :: login_request where
  "ana_login = \<lparr>lr_Email = ''ana@shop'', lr_Password = ''secret''\<rparr>"

lemma web_FindByEmail: "FindByEmail shop_db ''ana@shop'' = Inr shop_user"
  by (simp add: FindByEmail_def one_row_def shop_db_def shop_user_def)

lemma web_login: "\<exists>st'. UserService_Login redis_ops web_crypto web_env ana_login web_state =
    (st', Ret (Inr (Signed (''jwt:'' @ uuid_String (uid 1)))))"
  by (simp add: UserService_Login_def db_call_def web_env_def web_state_def web_crypto_def redis_hit
      redis_setex login_claims_def ana_login_def web_FindByEmail) (simp add: shop_user_def)

lemma web_clean: "login_clean redis_ops (ss_cache web_state)"
  by (simp add: login_clean_def redis_hit web_state_def)

theorem login_needs_the_password_witness:
  "\<exists>user. user \<in> set (db_users shop_db) \<and> user_Email user = ''ana@shop'' \<and>
     CompareHashAndPassword web_crypto (user_Password user) ''secret'' = None"
proof -
  obtain st' where l: "UserService_Login redis_ops web_crypto web_env ana_login
      (shop_run redis_ops web_peers web_crypto [] web_state) = (st', Ret (Inr (Signed (''jwt:'' @ uuid_String (uid 1)))))"
    using web_login by (auto simp: shop_run_def)
  from login_needs_the_password [OF redis_cache.cache_store_axioms web_clean l] show ?thesis
    by (auto simp: shop_run_def web_state_def ana_login_def)
qed

text \<open>A registration that succeeds, with the look-up of the address having answered, adds exactly
  one user with the address, the name and the hash of the password; the address was new.\<close>

lemma register_adds_one_user:
  assumes "UserService_Register ops cr env param st = (st', Ret (Inr user))" and "qe_fault env 0 = None"
  shows "rr_Email param \<notin> user_Email ` set (db_users (ss_db st)) \<and>
    db_users (ss_db st') = db_users (ss_db st) @ [user] \<and> user_Email user = rr_Email param \<and>
    user_Username user = rr_Username param \<and>
    GenerateFromPassword cr (rr_Password param) = Inr (user_Password user)"
  using Register_success [OF assms] .

section \<open>The shop as a whole\<close>

text \<open>Every history of the operations, the unserved ones too, keeps the schema, the users, the orders and the
  order items.\<close>

lemma histories_keep_the_books:
  assumes "db_ok (ss_db st0)"
  shows "db_ok (ss_db (shop_run ops ps cr h st0)) \<and> grows (ss_db st0) (ss_db (shop_run ops ps cr h st0))"
  by (rule shop_run_invariant [where I = "\<lambda>st. db_ok (ss_db st) \<and> grows (ss_db st0) (ss_db st)"])
    (use assms in \<open>auto intro: db_tx_ok [OF shop_step_tx] grows_trans [OF _ db_tx_grows [OF shop_step_tx]]\<close>)

lemma shop_run_grows: "grows (ss_db st0) (ss_db (shop_run ops ps cr h st0))"
  by (rule shop_run_invariant [where I = "\<lambda>st. grows (ss_db st0) (ss_db st)"])
    (auto intro: grows_trans [OF _ db_tx_grows [OF shop_step_tx]])

lemma web_typed: "proper_db (ss_db web_state)" "cache_typed redis_ops (ss_db web_state) (ss_cache web_state)"
  using lamp_proper
  by (simp_all add: web_state_def proper_db_def shop_db_def shop_user_def finite_user_def cache_typed_def redis_hit)

lemma history_typed:
  assumes "cache_store ops" and "proper_db (ss_db st0)" and "cache_typed ops (ss_db st0) (ss_cache st0)"
  shows "proper_db (ss_db (shop_run ops ps cr h st0)) \<and>
    cache_typed ops (ss_db (shop_run ops ps cr h st0)) (ss_cache (shop_run ops ps cr h st0))"
  by (rule shop_run_invariant [where I = "\<lambda>st. proper_db (ss_db st) \<and> cache_typed ops (ss_db st) (ss_cache st)"])
    (use assms in \<open>auto intro: db_tx_proper [OF shop_step_tx] cache_store.shop_step_typed\<close>)

text \<open>C19: what is stored keeps its type in every history that starts with typed tables and a typed cache, be it
  empty: prices stay numbers and instants finite in every row, and whatever a service finds in the cache under
  the key of a product, of a user or of a cart decodes as that product, user or cart. No cached read fails,
  and reading a product never panics.\<close>

theorem stored_values_keep_their_types:
  assumes "cache_store ops" and "proper_db (ss_db st0)" and "cache_typed ops (ss_db st0) (ss_cache st0)"
    and "st = shop_run ops ps cr h st0"
  shows "proper_db (ss_db st) \<and>
    (\<forall>i. cache_hit ops (product_key i) (ss_cache st) \<noteq> None \<longrightarrow>
      (\<exists>p. sp_ID p = i \<and> ProductService_FindProductById ops env i st = (st, Ret (Inr p)))) \<and>
    (\<forall>i. cache_hit ops (user_key i) (ss_cache st) \<noteq> None \<longrightarrow>
      (\<exists>u. user_ID u = i \<and> UserService_FindUserById ops env i st = (st, Ret (Inr u)))) \<and>
    (\<forall>i u. cache_hit ops (cart_key i) (ss_cache st) \<noteq> None \<and> i \<notin> user_ID ` set (db_users (ss_db st)) \<longrightarrow>
      (\<exists>c. sc_ID c = i \<and>
        CartService_FindCartById ops env \<lparr>fcbi_ID = i, fcbi_UserId = u\<rparr> st = (st, Ret (Inr c)))) \<and>
    (\<forall>i. \<exists>r. ProductService_FindProductById ops env i st = (st, Ret r))"
proof -
  have t: "proper_db (ss_db st)" "cache_typed ops (ss_db st) (ss_cache st)"
    using history_typed [OF assms(1-3)] assms(4) by auto
  show ?thesis
    using t(1) typed_product_read [OF t(2)] typed_user_read [OF t] typed_cart_read [OF t(2)]
      typed_product_returns [OF t]
    by blast
qed

theorem stored_values_keep_their_types_witness:
  "\<exists>p. sp_ID p = uid 2 \<and>
     ProductService_FindProductById redis_ops web_env (uid 2)
       (shop_run redis_ops web_peers web_crypto [OpUpdateProduct web_env (uid 2) new_price] web_state) =
     (shop_run redis_ops web_peers web_crypto [OpUpdateProduct web_env (uid 2) new_price] web_state, Ret (Inr p))"
proof -
  let ?st = "shop_run redis_ops web_peers web_crypto [OpUpdateProduct web_env (uid 2) new_price] web_state"
  have "cache_hit redis_ops (product_key (uid 2)) (ss_cache ?st) \<noteq> None"
    by (simp add: shop_run_def ProductService_UpdateProduct_def db_call_def UpdateProduct_def Let_def web_env_def
        web_state_def new_price_def numeric_of_decimal_def redis_set redis_hit shop_defs
        split: option.split redis_value.split)
  with stored_values_keep_their_types [OF redis_cache.cache_store_axioms web_typed refl] show ?thesis by blast
qed

text \<open>Users are answered coherently in every history that starts with typed tables and a typed cache, be it
  empty: who \<open>FindUserById\<close> returns is the row the database has for that identifier, hit or miss.\<close>

lemma found_users_are_the_rows:
  assumes "cache_store ops" and "proper_db (ss_db st0)" and "cache_typed ops (ss_db st0) (ss_cache st0)"
    and "UserService_FindUserById ops env i (shop_run ops ps cr h st0) = (st', Ret (Inr user))"
  shows "user \<in> set (db_users (ss_db (shop_run ops ps cr h st0))) \<and> user_ID user = i"
  using typed_user_found assms(4) history_typed [OF assms(1-3)] by blast




section \<open>The order endpoints\<close>

text \<open>\<open>Checkout\<close> queues the order its body holds, in the name of the user the body names, whoever
  the token belongs to.\<close>

lemma checkout_trusts_the_body:
  assumes "UserIdFromJwtToken c = Ret (Inr u)" and "rq_body r = Inr (create_order_json o1)"
    and "validate (plain_order o1) = None" and "\<forall>e. wait \<noteq> QueueTimeout e"
  shows "fst (OrderController_Checkout validate c r wait) = Some (plain_order o1) \<and>
    co_UserId (plain_order o1) = co_UserId o1"
  using assms create_order_codec.dec_enc [of o1]
  by (cases wait) (simp_all add: OrderController_Checkout_def decode_body_def)

text \<open>Two endpoints answer 400 to whatever they are asked: the one that finds an order by its
  identifier hands the service no user, so only orders of the nil user match, and the one that removes a
  cart item asks \<open>r.PathValue\<close>, which the router of the program never fills.\<close>

lemma dead_endpoints:
  assumes "uuid_Nil \<notin> user_ID ` set (db_users db)" and "uuid_Parse (map_get (rq_vars r1) ''orderId'') = Inr i"
    and "via_gorilla r2" and "ctx_requestId c = Some n"
  shows "(\<exists>msg. OrderController_FindOrderById fault1 fault2 c r1 db = reply c (failed 400 msg)) \<and>
    (\<exists>msg. CartController_RemoveCartItem ops env c r2 st = (st, reply c (failed 400 msg)))"
proof
  have "\<exists>e. OrderService_FindOrderById fault1 fault2 db \<lparr>fobi_UserId = uuid_Nil, fobi_OrderId = i\<rparr> = Ret (Inl e)"
    using assms(1)
    by (auto simp: OrderService_FindOrderById_def FindOrderById_def one_row_def split: option.split)
  with assms(2) show "\<exists>msg. OrderController_FindOrderById fault1 fault2 c r1 db = reply c (failed 400 msg)"
    by (auto simp: OrderController_FindOrderById_def)
  have "map_get (rq_pathValues r2) ''cartId'' = []"
    using assms(3) by (simp add: via_gorilla_def map_get_def)
  with assms(4) show "\<exists>msg. CartController_RemoveCartItem ops env c r2 st = (st, reply c (failed 400 msg))"
    by (auto simp: CartController_RemoveCartItem_def uuid_Parse_def Let_def)
qed

text \<open>The orders of checked-out carts, as they arrive over the wire, form batches that the order
  service always answers: no panic, no request that blocks the others.\<close>

lemma cart_orders_are_always_answered:
  assumes "distinct (map sc_ID carts)" and "carts \<noteq> []"
    and "list_all2 (\<lambda>cart o1. decode_create_order (create_order_json (Cart_Order cart)) =
      Inr (o1\<lparr>co_ResultChannel := None\<rparr>)) carts params"
    and "channels_ready params cs"
  shows "\<exists>cs' r. snd (BatchCreateOrder env db cs params) = Ret (cs', r)"
proof -
  have sel: "co_ID o1 = sc_ID cart \<and> (\<forall>it \<in> set (co_OrderItems o1). roi_OrderID it = sc_ID cart)"
    if "decode_create_order (create_order_json (Cart_Order cart)) = Inr (o1\<lparr>co_ResultChannel := None\<rparr>)"
    for cart o1
  proof -
    from that cart_order_arrives [of cart] have "o1\<lparr>co_ResultChannel := None\<rparr> = plain_order (Cart_Order cart)"
      by simp
    from arg_cong [OF this, of co_ID] arg_cong [OF this, of co_OrderItems] show ?thesis
      by (auto simp: Cart_Order_def cart_item_to_order_item_def)
  qed
  from assms(3) have "map co_ID params = map sc_ID carts"
    by (induction rule: list_all2_induct) (use sel in auto)
  moreover have "\<forall>it \<in> set (co_OrderItems o1). roi_OrderID it = co_ID o1" if "o1 \<in> set params" for o1
    using assms(3) that sel by (induction rule: list_all2_induct) auto
  ultimately have "batch_wf params" using assms(1) by (simp add: batch_wf_def)
  then show ?thesis
    using BatchCreateOrder_returns [OF _ assms(4), of env db] by (metis surj_pair snd_conv)
qed

end
