(* ===== verification/System.thy ===== *)
theory System
  imports Services Shop
begin

text \<open>
  The running system: the four services side by side on one database and one cache, with the worker
  of the order service. A step is a request to a service, by method and path, or a step of the
  worker. Requests come through the routers only, so what no route leads to is never run.
\<close>

section \<open>Requests\<close>

text \<open>What the services are configured with: the cache, the libraries and the validators.\<close>

record 's site =
  si_ops :: "'s cache_ops"
  si_crypto :: crypto
  si_clean :: "string \<Rightarrow> string"
  si_parse :: "string \<Rightarrow> go_error + jwt_token"
  si_text :: "json \<Rightarrow> string"
  si_product :: "req_product validator"
  si_cart :: "req_cart validator"
  si_login :: "login_request validator"
  si_register :: "register_request validator"
  si_checkout :: "create_order validator"

text \<open>A request, with what it meets while it is handled: failures, fresh identifiers, the peers' answers,
  and for a checkout what the handler waits for.\<close>

record visit =
  vi_meth :: string
  vi_path :: string
  vi_request :: http_request
  vi_newId :: string
  vi_env :: request_env
  vi_peers :: peers
  vi_keys :: "string list"
  vi_fault1 :: "go_error option"
  vi_fault2 :: "go_error option"
  vi_wait :: checkout_wait

datatype part = AtProducts | AtCarts | AtUsers | AtOrders

text \<open>The worker's record has the database; the cache is beside it.\<close>

record 's system =
  sys_worker :: worker
  sys_cache :: 's

definition sys_db :: "'s system \<Rightarrow> database" where
  "sys_db s = w_db (sys_worker s)"

definition shop_of :: "'s system \<Rightarrow> 's shop_state" where
  "shop_of s = \<lparr>ss_db = sys_db s, ss_cache = sys_cache s\<rparr>"

definition put_shop :: "'s shop_state \<Rightarrow> 's system \<Rightarrow> 's system" where
  "put_shop st s = s\<lparr>sys_worker := (sys_worker s)\<lparr>w_db := ss_db st\<rparr>, sys_cache := ss_cache st\<rparr>"

definition on_shop :: "('s shop_state \<Rightarrow> 's shop_state \<times> 'r) \<Rightarrow> 's system \<Rightarrow> 's system \<times> 'r" where
  "on_shop f s = (put_shop (fst (f (shop_of s))) s, snd (f (shop_of s)))"

definition on_worker :: "(worker \<Rightarrow> worker \<times> 'r) \<Rightarrow> 's system \<Rightarrow> 's system \<times> 'r" where
  "on_worker f s = (s\<lparr>sys_worker := fst (f (sys_worker s))\<rparr>, snd (f (sys_worker s)))"

text \<open>The context of a request is empty until the middlewares fill it.\<close>

definition background :: ctx where
  "background = \<lparr>ctx_requestId = None, ctx_jwt = None\<rparr>"

definition ask :: "'s site \<Rightarrow> visit \<Rightarrow> endpoint route list \<Rightarrow> (endpoint \<Rightarrow> 't handler) \<Rightarrow> 't \<Rightarrow> 't \<times> (nat + reply)" where
  "ask site v routes h =
     run_service (si_clean site) routes h (si_parse site) (vi_newId v) (vi_meth v) (vi_path v) background (vi_request v)"

fun visit_part :: "'s site \<Rightarrow> part \<Rightarrow> visit \<Rightarrow> 's system \<Rightarrow> 's system \<times> (nat + reply)" where
  "visit_part site AtProducts v =
     on_shop (ask site v product_routes (product_handler (si_ops site) (si_product site) (vi_env v)))"
| "visit_part site AtCarts v =
     on_shop (ask site v cart_routes (cart_handler (si_ops site) (vi_peers v) (si_cart site) (vi_env v) (vi_keys v)))"
| "visit_part site AtUsers v =
     on_shop (ask site v user_routes (user_handler (si_ops site) (si_crypto site) (si_text site) (si_login site)
       (si_register site) (vi_env v)))"
| "visit_part site AtOrders v =
     on_worker (ask site v order_routes (order_handler (vi_fault1 v) (vi_fault2 v) (si_checkout site) (vi_wait v)))"

section \<open>Steps\<close>

text \<open>A request to the order service is served while its process lives; a checkout goes past its first
  \<open>select\<close> only when there is room in the queue. The worker's own steps put nothing into the queue.\<close>

inductive system_step :: "'s site \<Rightarrow> (part \<times> visit) list \<Rightarrow> 's system \<Rightarrow> 's system \<Rightarrow> bool" for site where
  step_visit: "p \<noteq> AtOrders \<Longrightarrow> system_step site [(p, v)] s (fst (visit_part site p v s))"
| step_visit_orders: "\<not> crashed (sys_worker s) \<Longrightarrow>
    length (w_queue (sys_worker s)) < queue_capacity \<or> (\<exists>e. vi_wait v = QueueTimeout e) \<Longrightarrow>
    system_step site [(AtOrders, v)] s (fst (visit_part site AtOrders v s))"
| step_worker: "worker_step (sys_worker s) w \<Longrightarrow> w_next w = w_next (sys_worker s) \<Longrightarrow>
    system_step site [] s (s\<lparr>sys_worker := w\<rparr>)"

definition system_start :: "database \<Rightarrow> 's \<Rightarrow> 's system" where
  "system_start db cache = \<lparr>sys_worker = worker_start db, sys_cache = cache\<rparr>"

text \<open>The runs of the system, with the requests they served.\<close>

inductive system_run :: "'s site \<Rightarrow> 's system \<Rightarrow> (part \<times> visit) list \<Rightarrow> 's system \<Rightarrow> bool" for site s0 where
  run_none: "system_run site s0 [] s0"
| run_more: "system_run site s0 h s \<Longrightarrow> system_step site vs s s' \<Longrightarrow> system_run site s0 (h @ vs) s'"

inductive_cases system_stepE: "system_step site vs s s'"

lemma system_run_invariant:
  assumes "system_run site s0 h s" and "I s0"
    and "\<And>vs s s'. I s \<Longrightarrow> system_step site vs s s' \<Longrightarrow> I s'"
  shows "I s"
  using assms(1) by (induction rule: system_run.induct) (auto intro: assms(2,3))

lemma put_shop_sel [simp]:
  "shop_of (put_shop st s) = st" "sys_db (put_shop st s) = ss_db st"
  "worker_inv (sys_worker (put_shop st s)) = worker_inv (sys_worker s)"
  "crashed (sys_worker (put_shop st s)) = crashed (sys_worker s)"
  "pending (sys_worker (put_shop st s)) = pending (sys_worker s)"
  by (simp_all add: shop_of_def put_shop_def sys_db_def worker_inv_def channels_inv_def unanswered_def poisoned_def
      pending_def crashed_def)

lemma shop_of_sel [simp]: "ss_db (shop_of s) = sys_db s" "ss_cache (shop_of s) = sys_cache s"
  by (simp_all add: shop_of_def)

lemma put_shop_same [simp]: "put_shop (shop_of s) s = s"
  by (simp add: put_shop_def shop_of_def sys_db_def)

section \<open>A request runs one operation\<close>

text \<open>The operations some request leads to. No route reaches the update and the removal of a product, the
  removal of a cart item or the list of a user's carts.\<close>

primrec served_op :: "'s site \<Rightarrow> shop_op \<Rightarrow> bool" where
  "served_op site (OpInsertProduct env pparam) = (si_product site pparam = None)"
| "served_op site (OpFindProduct env i) = True"
| "served_op site (OpUpdateProduct env i pparam) = False"
| "served_op site (OpRemoveProduct env i) = False"
| "served_op site (OpRegister env rparam) = True"
| "served_op site (OpLogin env lparam) = (si_login site lparam = None)"
| "served_op site (OpFindUser env i) = True"
| "served_op site (OpInsertCart env ks cparam u c) = (si_cart site cparam = None)"
| "served_op site (OpFindCart env fparam) = True"
| "served_op site (OpFindCarts env i) = False"
| "served_op site (OpRemoveCartItem env iparam) = False"
| "served_op site (OpRemoveCart env cart) = False"
| "served_op site (OpCheckoutCart env c jwt kparam) = True"
| "served_op site (OpBatch benv cs params) = False"

text \<open>Whatever the middlewares, the state is left or the handler runs on it once.\<close>

lemma apply_middlewares_state:
  "fst (apply_middlewares parse newId mws h c r s) = s \<or>
   (\<exists>c'. fst (apply_middlewares parse newId mws h c r s) = fst (h c' r s))"
proof (induction mws arbitrary: c)
  case Nil
  then show ?case by (auto simp: apply_middlewares_def)
next
  case (Cons m mws)
  let ?h = "foldr (apply_middleware parse newId) mws h"
  have "(\<exists>c'. fst (apply_middleware parse newId m ?h c r s) = fst (?h c' r s)) \<or>
      fst (apply_middleware parse newId m ?h c r s) = s"
    using Auth_cases [of r parse ?h c s] by (cases m) (auto simp: Logging_def)
  with Cons show ?case unfolding apply_middlewares_def by (metis comp_apply foldr_Cons)
qed

lemma ask_state:
  obtains (same) "fst (ask site v routes h s) = s"
  | (handled) e c mws vs where "serve (si_clean site) routes (vi_meth v) (vi_path v) = Served mws e vs"
      "fst (ask site v routes h s) =
        fst (h e c ((vi_request v)\<lparr>rq_vars := map_of vs, rq_pathValues := Map.empty\<rparr>) s)"
proof (cases "serve (si_clean site) routes (vi_meth v) (vi_path v)")
  case (Served mws e vs)
  with apply_middlewares_state that show ?thesis
    unfolding ask_def run_service_served [OF Served] by (metis fst_conv)
qed (use that(1) in \<open>simp_all add: ask_def run_service_def\<close>)

end
