(* ===== verification/SystemLaws.thy ===== *)
theory SystemLaws
  imports System
begin

text \<open>
  What a step of the running system does: a request to the products, carts or users is at most one
  operation of \<open>Shop\<close>, a request to the orders puts at most its own body into the queue, and what every
  run keeps follows from the laws of the operations and of the worker.
\<close>

section \<open>A request is at most one operation\<close>

definition one_op :: "'s site \<Rightarrow> visit \<Rightarrow> 's shop_state \<Rightarrow> 's shop_state \<Rightarrow> bool" where
  "one_op site v st st' \<longleftrightarrow> st' = st \<or>
     (\<exists>x. served_op site x \<and> st' = shop_step (si_ops site) (vi_peers v) (si_crypto site) x st)"

lemma one_op_same [simp]: "one_op site v st st"
  by (simp add: one_op_def)

lemma one_op_intro:
  "served_op site x \<Longrightarrow> st' = shop_step (si_ops site) (vi_peers v) (si_crypto site) x st \<Longrightarrow> one_op site v st st'"
  by (auto simp: one_op_def)

lemma one_op_with_body:
  "(\<And>b. validate b = None \<Longrightarrow> one_op site v st (fst (k b))) \<Longrightarrow> one_op site v st (fst (with_body dec validate c r st k))"
  by (auto simp: with_body_def split: sum.split option.split)

lemma one_op_with_user:
  "(\<And>u. one_op site v st (fst (k u))) \<Longrightarrow> one_op site v st (fst (with_user c st k))"
  by (auto simp: with_user_def split: outcome.split sum.split)

lemma answer_state [simp]: "fst (answer p bad good) = fst p"
  by (simp add: answer_def)

lemma product_one_op:
  assumes "via_gorilla r"
  shows "one_op site v st (fst (product_handler (si_ops site) (si_product site) env e c r st))"
proof -
  have "one_op site v st (fst (ProductController_InsertProduct (si_ops site) (si_product site) env c r st))"
    unfolding ProductController_InsertProduct_def
    by (rule one_op_with_body, rule one_op_intro [of _ "OpInsertProduct env _"]) simp_all
  then show ?thesis
    by (cases e) (simp_all add: product_handler_def product_reads product_writes_parse [OF assms])
qed

lemma cart_one_op:
  assumes "via_gorilla r"
  shows "one_op site v st (fst (cart_handler (si_ops site) (vi_peers v) (si_cart site) env ks e c r st))"
proof -
  have "one_op site v st (fst (CartController_InsertCart (si_ops site) (vi_peers v) (si_cart site) env ks c r st))"
    unfolding CartController_InsertCart_def
    by (rule one_op_with_body, rule one_op_with_user, rule one_op_intro [of _ "OpInsertCart env ks _ _ c"]) simp_all
  moreover have "one_op site v st (fst (CartController_FindCartById (si_ops site) env c r st))"
    unfolding CartController_FindCartById_def Let_def
    by (auto split: sum.split intro!: one_op_with_user intro: one_op_intro [of _ "OpFindCart env _"])
  moreover have "one_op site v st (fst (CartController_CheckoutCart (si_ops site) (vi_peers v) env c r st))"
    unfolding CartController_CheckoutCart_def Let_def
    using one_op_intro [of site "OpCheckoutCart env c _ _"]
    by (auto split: sum.split outcome.split intro!: one_op_with_user)
  moreover have "fst (CartController_RemoveCartItem (si_ops site) env c r st) = st"
    using assms by (simp add: CartController_RemoveCartItem_def via_gorilla_def map_get_def uuid_Parse_def)
  ultimately show ?thesis by (cases e) (simp_all add: cart_handler_def)
qed

lemma user_one_op:
  "one_op site v st (fst (user_handler (si_ops site) (si_crypto site) (si_text site) (si_login site)
     (si_register site) env e c r st))"
proof -
  have "one_op site v st (fst (UserController_Login (si_ops site) (si_crypto site) (si_text site) (si_login site) env c r st))"
    unfolding UserController_Login_def Let_def
    by (rule one_op_with_body, rule one_op_intro [of _ "OpLogin env _"]) simp_all
  moreover have "one_op site v st (fst (UserController_Register (si_ops site) (si_crypto site) (si_register site) env c r st))"
    unfolding UserController_Register_def
    by (auto split: sum.split intro: one_op_intro [of _ "OpRegister env _"])
  moreover have "one_op site v st (fst (UserController_FindUserById (si_ops site) env c r st))"
    unfolding UserController_FindUserById_def
    by (auto split: sum.split option.split intro: one_op_intro [of _ "OpFindUser env _"])
  ultimately show ?thesis by (cases e) (simp_all add: user_handler_def)
qed

lemma ask_one_op:
  assumes "\<And>e c vs. one_op site v st (fst (h e c ((vi_request v)\<lparr>rq_vars := map_of vs, rq_pathValues := Map.empty\<rparr>) st))"
  shows "one_op site v st (fst (ask site v routes h st))"
  using ask_state [of site v routes h st] assms one_op_same by metis

lemma visit_one_op:
  assumes "p \<noteq> AtOrders"
  shows "one_op site v (shop_of s) (shop_of (fst (visit_part site p v s)))"
proof -
  have g: "via_gorilla ((vi_request v)\<lparr>rq_vars := vs, rq_pathValues := Map.empty\<rparr>)" for vs
    by (simp add: via_gorilla_def)
  show ?thesis
    using assms by (cases p) (simp_all add: on_shop_def ask_one_op product_one_op [OF g] cart_one_op [OF g] user_one_op)
qed

lemma visit_worker:
  assumes "p \<noteq> AtOrders"
  obtains st where "fst (visit_part site p v s) = put_shop st s"
  using assms that by (cases p) (auto simp: on_shop_def)

section \<open>A request to the orders queues at most its own body\<close>

text \<open>What a request must be to put the order \<open>o1\<close> into the queue.\<close>

definition asks_for :: "'s site \<Rightarrow> part \<times> visit \<Rightarrow> create_order \<Rightarrow> bool" where
  "asks_for site pv o1 \<longleftrightarrow> fst pv = AtOrders \<and> vi_meth (snd pv) = ''POST'' \<and> vi_path (snd pv) = ''/orders/checkout'' \<and>
     (\<exists>t jwt. bearer_token (rq_Authorization (vi_request (snd pv))) = Some t \<and> VerifyToken (si_parse site) t = Inr jwt) \<and>
     decode_body decode_create_order (vi_request (snd pv)) = Inr o1 \<and> si_checkout site o1 = None"

lemma decode_body_vars [simp]:
  "decode_body dec (r\<lparr>rq_vars := vs, rq_pathValues := ws\<rparr>) = decode_body dec r"
  by (simp add: decode_body_def)

lemma Checkout_queues:
  "fst (OrderController_Checkout validate c r wait) = None \<or>
   (\<exists>o1. fst (OrderController_Checkout validate c r wait) = Some o1 \<and> decode_body decode_create_order r = Inr o1 \<and>
     validate o1 = None \<and> (\<forall>err. wait \<noteq> QueueTimeout err))"
  by (simp add: OrderController_Checkout_def split: outcome.split sum.split option.split checkout_wait.split)

lemma order_handler_state:
  obtains (same) "fst (order_handler f1 f2 validate wait e c r w) = w"
  | (queued) o1 where "e = CheckoutE" "decode_body decode_create_order r = Inr o1" "validate o1 = None"
      "\<forall>err. wait \<noteq> QueueTimeout err" "fst (order_handler f1 f2 validate wait e c r w) = enqueue o1 w"
proof (cases "e = CheckoutE")
  case True
  obtain q out where "OrderController_Checkout validate c r wait = (q, out)" by (metis surj_pair)
  with True that Checkout_queues [of validate c r wait] show ?thesis
    by (auto simp: order_handler_def)
next
  case False
  with that(1) show ?thesis by (cases e) (simp_all add: order_handler_def)
qed

lemma protected_chain_eq: "apply_middlewares parse newId protected_chain h = protected1 parse newId h"
  by (simp add: apply_middlewares_def protected_chain_def protected1_def)

lemma checkout_served:
  assumes "serve clean order_routes meth path = Served mws CheckoutE vs"
  shows "mws = protected_chain \<and> meth = ''POST'' \<and> path = ''/orders/checkout''"
proof -
  have cp: "clean path = path" using assms by (auto simp: serve_def split: if_splits)
  from assms show ?thesis
    unfolding order_routes_serve [of clean, OF cp]
    by (auto simp: last_segment_Some split: if_splits option.splits)
qed

lemma visit_orders:
  obtains (same) "sys_worker (fst (visit_part site AtOrders v s)) = sys_worker s"
  | (queued) o1 where "asks_for site (AtOrders, v) o1" "\<forall>err. vi_wait v \<noteq> QueueTimeout err"
      "sys_worker (fst (visit_part site AtOrders v s)) = enqueue o1 (sys_worker s)"
proof (cases "serve (si_clean site) order_routes (vi_meth v) (vi_path v)")
  case (Served mws e vs)
  let ?h = "order_handler (vi_fault1 v) (vi_fault2 v) (si_checkout site) (vi_wait v)"
  let ?r = "(vi_request v)\<lparr>rq_vars := map_of vs, rq_pathValues := Map.empty\<rparr>"
  have w: "sys_worker (fst (visit_part site AtOrders v s)) =
      fst (apply_middlewares (si_parse site) (vi_newId v) mws (?h e) background ?r (sys_worker s))"
    by (simp add: on_worker_def ask_def run_service_served [OF Served])
  show ?thesis
  proof (cases "e = CheckoutE")
    case True
    with checkout_served Served have m: "mws = protected_chain" "vi_meth v = ''POST''" "vi_path v = ''/orders/checkout''"
      by blast+
    from protected_cases [of ?r "si_parse site" "vi_newId v" "?h e" background "sys_worker s"] show ?thesis
    proof (elim disjE exE conjE)
      fix t jwt c'
      assume t: "bearer_token (rq_Authorization ?r) = Some t" "VerifyToken (si_parse site) t = Inr jwt"
        and h: "fst (protected1 (si_parse site) (vi_newId v) (?h e) background ?r (sys_worker s)) = fst (?h e c' ?r (sys_worker s))"
      show ?thesis
        by (rule order_handler_state [of "vi_fault1 v" "vi_fault2 v" "si_checkout site" "vi_wait v" e c' ?r "sys_worker s"])
          (use that w h t m in \<open>auto simp: protected_chain_eq asks_for_def\<close>)
    qed (use that(1) w m in \<open>simp add: protected_chain_eq\<close>)
  next
    case False
    then have "fst (?h e c ?r (sys_worker s)) = sys_worker s" for c
      using order_handler_state [of "vi_fault1 v" "vi_fault2 v" "si_checkout site" "vi_wait v" e c ?r "sys_worker s"] by metis
    with w apply_middlewares_state that(1) show ?thesis by metis
  qed
qed (use that(1) in \<open>simp_all add: on_worker_def ask_def run_service_def\<close>)

lemma on_worker_cache [simp]: "sys_cache (fst (on_worker f s)) = sys_cache s"
  by (simp add: on_worker_def)

section \<open>The tables\<close>

definition same_books :: "database \<Rightarrow> database \<Rightarrow> bool" where
  "same_books db db' \<longleftrightarrow> db_products db' = db_products db \<and> db_orders db' = db_orders db \<and>
     db_order_items db' = db_order_items db"

lemma same_books_refl [simp]: "same_books db db"
  by (simp add: same_books_def)

lemma RemoveCart_books:
  "same_books (ss_db st) (ss_db (fst (CartService_RemoveCart ops env rparam st)))"
proof -
  obtain st1 out where f: "CartService_FindCartById ops env
      \<lparr>fcbi_ID = rmc_ID rparam, fcbi_UserId = rmc_UserId rparam\<rparr> st = (st1, out)"
    by (metis surj_pair)
  then have "ss_db st1 = ss_db st" by (metis FindCartById_db fst_conv)
  with f show ?thesis
    by (auto simp: CartService_RemoveCart_def same_books_def sql_simps
        split: outcome.split sum.split prod.split option.split list.splits)
qed

lemma InsertCart_books:
  "same_books (ss_db st) (ss_db (fst (CartService_InsertCart ops ps env ks cparam u c st)))"
proof -
  obtain st' out where s: "CartService_InsertCart ops ps env ks cparam u c st = (st', out)" by (metis surj_pair)
  then show ?thesis
    using InsertCart_success [of ops ps env ks cparam u c st st'] InsertCart_failure [OF s] insert_cart_tx_tables
    by (cases "\<exists>res. out = Ret (Inr res)") (fastforce simp: same_books_def)+
qed

lemma CheckoutCart_books:
  "same_books (ss_db st) (ss_db (fst (CartService_CheckoutCart ops ps env c jwt kparam st)))"
proof -
  obtain st1 env' param' where "ss_db st1 = ss_db st"
    "fst (CartService_CheckoutCart ops ps env c jwt kparam st) = st1 \<or>
     fst (CartService_CheckoutCart ops ps env c jwt kparam st) = fst (CartService_RemoveCart ops env' param' st1)"
    using CheckoutCart_db by blast
  then show ?thesis using RemoveCart_books [of st1 ops env' param'] by auto
qed

lemma Register_books: "same_books (ss_db st) (ss_db (fst (UserService_Register ops cr env rparam st)))"
  by (auto simp: UserService_Register_def same_books_def sql_simps Let_def
      split: sum.split prod.split option.split if_splits)

lemma FindProduct_books: "same_books (ss_db st) (ss_db (fst (ProductService_FindProductById ops env i st)))"
  by (simp add: ProductService_FindProductById_def split: sum.split option.split)

text \<open>The requests to the other services leave the orders, and the products but for an insertion.\<close>

lemma served_op_books:
  assumes "served_op site x" and "\<not> (\<exists>env pparam. x = OpInsertProduct env pparam)"
  shows "same_books (ss_db st) (ss_db (shop_step ops ps cr x st))"
  using assms
  by (cases x)
    (simp_all add: InsertCart_books CheckoutCart_books Register_books FindProduct_books FindCartById_db)

lemma inserted_product:
  "db_orders (ss_db (fst (ProductService_InsertProduct ops env pparam st))) = db_orders (ss_db st) \<and>
   db_order_items (ss_db (fst (ProductService_InsertProduct ops env pparam st))) = db_order_items (ss_db st)"
  by (auto simp: ProductService_InsertProduct_def sql_simps Let_def split: sum.split prod.split option.split if_splits)

lemma served_op_orders:
  assumes "served_op site x"
  shows "db_orders (ss_db (shop_step ops ps cr x st)) = db_orders (ss_db st)"
    and "db_order_items (ss_db (shop_step ops ps cr x st)) = db_order_items (ss_db st)"
  using served_op_books [OF assms, of st ops ps cr] inserted_product
  by (cases x; force simp: same_books_def)+

text \<open>A validator that accepts only quantities the column holds and a shop can have.\<close>

definition stock_checked :: "'s site \<Rightarrow> bool" where
  "stock_checked site \<longleftrightarrow> (\<forall>pparam. si_product site pparam = None \<longrightarrow>
     0 \<le> sint (rp_Quantity pparam) \<and> int4_range (sint (rp_Quantity pparam)))"

lemma served_op_stock:
  assumes "served_op site x" and "stock_checked site" and "stock_nonneg (ss_db st)"
  shows "stock_nonneg (ss_db (shop_step ops ps cr x st))"
proof (cases "\<exists>env pparam. x = OpInsertProduct env pparam")
  case True
  then obtain env pparam where x: "x = OpInsertProduct env pparam" by blast
  show ?thesis
  proof (cases "ss_db (shop_step ops ps cr x st) = ss_db st")
    case False
    then have c: "ss_db (fst (ProductService_InsertProduct ops env pparam st)) \<noteq> ss_db st" by (simp add: x)
    obtain row where
      row: "db_products (ss_db (fst (ProductService_InsertProduct ops env pparam st))) = db_products (ss_db st) @ [row]"
        "product_Quantity row = int32_of_int (rp_Quantity pparam)"
      by (rule InsertProduct_appends [OF c])
    have "0 \<le> sint (rp_Quantity pparam)" "int4_range (sint (rp_Quantity pparam))"
      using assms(1,2) by (simp_all add: stock_checked_def x)
    with row assms(3) show ?thesis
      by (simp add: stock_nonneg_def x int32_of_int_exact [THEN iffD2])
  qed (use assms(3) in simp)
next
  case False
  with served_op_books [OF assms(1), of st ops ps cr] assms(3) show ?thesis
    by (auto simp: same_books_def stock_nonneg_def)
qed

section \<open>What every step does\<close>

lemma worker_step_tx: "worker_step w w' \<Longrightarrow> db_tx (w_db w) (w_db w')"
  by (elim worker_stepE) (auto simp: tick_db Batch_tx tx_none)

text \<open>A step is a served operation on the shop, a checkout that puts its order into the queue, a step of the
  worker, or it leaves the system as it is.\<close>

lemma system_step_cases:
  assumes "system_step site vs s s'"
  obtains (same) "shop_of s' = shop_of s" "sys_worker s' = sys_worker s"
  | (operation) x and v :: visit where "served_op site x"
      "shop_of s' = shop_step (si_ops site) (vi_peers v) (si_crypto site) x (shop_of s)"
      "s' = put_shop (shop_of s') s"
  | (checkout) v o1 where "vs = [(AtOrders, v)]" "asks_for site (AtOrders, v) o1" "sys_cache s' = sys_cache s"
      "sys_worker s' = enqueue o1 (sys_worker s)" "worker_step (sys_worker s) (sys_worker s')"
  | (worker) "worker_step (sys_worker s) (sys_worker s')" "w_next (sys_worker s') = w_next (sys_worker s)"
      "sys_cache s' = sys_cache s" "vs = []"
  using assms
proof cases
  case (step_visit p v)
  obtain st where st: "s' = put_shop st s" using visit_worker [OF step_visit(3)] step_visit(2) by metis
  then have sh: "shop_of s' = st" by simp
  with visit_one_op [OF step_visit(3), of site v s] step_visit(2) have "one_op site v (shop_of s) st" by simp
  then show ?thesis
    unfolding one_op_def
  proof (elim disjE exE conjE)
    assume "st = shop_of s"
    with st same show ?thesis by simp
  next
    fix x
    assume "served_op site x" "st = shop_step (si_ops site) (vi_peers v) (si_crypto site) x (shop_of s)"
    with st sh show ?thesis by (intro operation [of x v]) simp_all
  qed
next
  case (step_visit_orders v)
  note s' = step_visit_orders(2)
  show ?thesis
  proof (rule visit_orders [of site v s])
    assume "sys_worker (fst (visit_part site AtOrders v s)) = sys_worker s"
    with same s' show ?thesis by (simp add: shop_of_def sys_db_def)
  next
    fix o1
    assume o1: "asks_for site (AtOrders, v) o1" "\<forall>err. vi_wait v \<noteq> QueueTimeout err"
      "sys_worker (fst (visit_part site AtOrders v s)) = enqueue o1 (sys_worker s)"
    moreover from o1(2) step_visit_orders(3,4) have "worker_step (sys_worker s) (enqueue o1 (sys_worker s))"
      by (intro step_enqueue) auto
    ultimately show ?thesis using step_visit_orders(1) s' by (intro checkout) simp_all
  qed
next
  case (step_worker w)
  with worker show ?thesis by simp
qed

lemma system_step_tx: "system_step site vs s s' \<Longrightarrow> db_tx (sys_db s) (sys_db s')"
proof (erule system_step_cases)
  fix x v
  assume "shop_of s' = shop_step (si_ops site) (vi_peers v) (si_crypto site) x (shop_of s)"
  with shop_step_tx [of "shop_of s" "si_ops site" "vi_peers v" "si_crypto site" x] show ?thesis
    by (metis shop_of_sel(1))
qed (auto simp: sys_db_def shop_of_def tx_none intro: worker_step_tx)

lemma system_step_worker_inv:
  assumes "system_step site vs s s'" and "worker_inv (sys_worker s)"
  shows "worker_inv (sys_worker s')"
  using assms(1)
proof (cases rule: system_step_cases)
  case (operation x v)
  with assms(2) show ?thesis by (metis put_shop_sel(3))
qed (use assms(2) worker_inv_step in auto)

lemma system_step_stock:
  assumes "system_step site vs s s'" and "stock_checked site" and "db_ok (sys_db s)" and "stock_nonneg (sys_db s)"
  shows "stock_nonneg (sys_db s')"
  using assms(1)
proof (cases rule: system_step_cases)
  case same
  with assms(4) show ?thesis by (simp add: sys_db_def)
next
  case (operation x v)
  with served_op_stock [OF operation(1) assms(2), of "shop_of s"] assms(4) show ?thesis
    by (metis shop_of_sel(1))
qed (use worker_step_stock assms(3,4) in \<open>auto simp: sys_db_def\<close>)

section \<open>Where the orders come from\<close>

text \<open>The rows a batch writes are orders and items of its requests.\<close>

lemma batch_rows_requested:
  assumes "batch_decide env db params = Ret (Inr bd)" and "batch_write env bd db = Inr (db', res)"
    and "db_ok db" and "env_enumerates env params"
  shows "r \<in> set (db_orders db') \<Longrightarrow> r \<in> set (db_orders db) \<or>
      (\<exists>o1 \<in> set params. order_ID r = co_ID o1 \<and> order_UserID r = co_UserId o1)"
    and "i \<in> set (db_order_items db') \<Longrightarrow> i \<in> set (db_order_items db) \<or>
      (\<exists>o1 \<in> set params. \<exists>it \<in> set (co_OrderItems o1). oitem_ID i = roi_ID it \<and> oitem_OrderID i = roi_OrderID it \<and>
        oitem_ProductID i = roi_ProductID it \<and> oitem_Quantity i = roi_Quantity it)"
proof -
  note rows = batch_write_orders [OF assms(2)]
  note e = decision_env(3) [OF assms(1,3,4)]
  show "r \<in> set (db_orders db) \<or> (\<exists>o1 \<in> set params. order_ID r = co_ID o1 \<and> order_UserID r = co_UserId o1)"
    if "r \<in> set (db_orders db')"
  proof (cases "r \<in> set (db_orders db)")
    case False
    with that rows(1) have "r \<in> set (map order_of_params (prepareOrderArgs env (bd_mapOrder bd)))" by simp
    then obtain k o2 where r: "bd_mapOrder bd k = Some o2" "order_ID r = co_ID o2" "order_UserID r = co_UserId o2"
      by (force simp: prepareOrderArgs_def set_go_range_enumerates [OF e] order_of_params_def)
    have "dom (bd_mapOrder bd) = dom (ms_mapOrder (mergeOrderItems params))"
      using batch_decide_Inr [OF assms(1)] by (intro same_orders_dom checkDecreaseQuantity_same_orders) auto
    with r(1) obtain i where k: "k = uuid_String i" by (auto simp: mergeOrderItems_mapOrder_dom)
    with decision_mapOrder [OF assms(1), of i] r(1) obtain o1 where o1: "first_order params i = Some o1" "shrunk o1 o2"
      by (auto simp: option_rel_Some2)
    from first_order_wf [OF o1(1)] have "o1 \<in> set params" by blast
    with r(2,3) shrunk_ID [OF o1(2)] show ?thesis by metis
  qed simp
  show "i \<in> set (db_order_items db) \<or>
      (\<exists>o1 \<in> set params. \<exists>it \<in> set (co_OrderItems o1). oitem_ID i = roi_ID it \<and> oitem_OrderID i = roi_OrderID it \<and>
        oitem_ProductID i = roi_ProductID it \<and> oitem_Quantity i = roi_Quantity it)"
    if "i \<in> set (db_order_items db')"
  proof (cases "i \<in> set (db_order_items db)")
    case False
    with that rows(2) have "i \<in> set (inserted_items env bd)" by (simp add: inserted_items_def)
    then obtain it p where it: "it \<in> set (kept db params p)" "i = item_row_of env it"
      unfolding set_inserted_items [OF assms(1,3,4)] by blast
    with kept_subset [of it db params p] obtain o1 where "o1 \<in> set params" "it \<in> set (co_OrderItems o1)"
      by (auto simp: batch_items_def)
    with it(2) show ?thesis by (metis item_row_of_sel)
  qed simp
qed

text \<open>An order on its way was asked for, but for the channel of its result.\<close>

definition asked :: "'s site \<Rightarrow> (part \<times> visit) list \<Rightarrow> (create_order \<Rightarrow> bool) \<Rightarrow> bool" where
  "asked site h P \<longleftrightarrow> (\<exists>pv \<in> set h. \<exists>o1. asks_for site pv o1 \<and> P o1)"

lemma asked_append [simp]: "asked site (h @ h') P \<longleftrightarrow> asked site h P \<or> asked site h' P"
  by (auto simp: asked_def)

lemma asked_mono: "asked site h P \<Longrightarrow> (\<And>o1. P o1 \<Longrightarrow> Q o1) \<Longrightarrow> asked site h Q"
  by (auto simp: asked_def)

abbreviation same_request :: "create_order \<Rightarrow> create_order \<Rightarrow> bool" where
  "same_request o1 o2 \<equiv> o1\<lparr>co_ResultChannel := None\<rparr> = o2\<lparr>co_ResultChannel := None\<rparr>"

definition order_row_for :: "order_row \<Rightarrow> create_order \<Rightarrow> bool" where
  "order_row_for r o1 \<longleftrightarrow> order_ID r = co_ID o1 \<and> order_UserID r = co_UserId o1"

definition item_row_for :: "order_item_row \<Rightarrow> create_order \<Rightarrow> bool" where
  "item_row_for i o1 \<longleftrightarrow> (\<exists>it \<in> set (co_OrderItems o1). oitem_ID i = roi_ID it \<and> oitem_OrderID i = roi_OrderID it \<and>
     oitem_ProductID i = roi_ProductID it \<and> oitem_Quantity i = roi_Quantity it)"

definition traced :: "'s site \<Rightarrow> database \<Rightarrow> (part \<times> visit) list \<Rightarrow> 's system \<Rightarrow> bool" where
  "traced site db0 h s \<longleftrightarrow>
     (\<forall>o1 \<in> set (pending (sys_worker s)). asked site h (same_request o1)) \<and>
     (\<forall>r \<in> set (db_orders (sys_db s)). r \<in> set (db_orders db0) \<or> asked site h (order_row_for r)) \<and>
     (\<forall>i \<in> set (db_order_items (sys_db s)). i \<in> set (db_order_items db0) \<or> asked site h (item_row_for i))"

lemma same_request_rows:
  assumes "same_request o1 o2"
  shows "order_row_for r o1 = order_row_for r o2" and "item_row_for i o1 = item_row_for i o2"
  using assms by (cases o1; cases o2; simp add: order_row_for_def item_row_for_def)+

lemma traced_more: "traced site db0 h s \<Longrightarrow> traced site db0 (h @ h') s"
  by (auto simp: traced_def)

lemma tick_traced:
  assumes "traced site db0 h s" and "env_enumerates env (w_batch (sys_worker s))" and "db_ok (sys_db s)"
  shows "traced site db0 h (s\<lparr>sys_worker := tick env (sys_worker s)\<rparr>)"
proof -
  let ?w = "sys_worker s"
  have sub: "set (pending (tick env ?w)) \<subseteq> set (pending ?w)"
    by (auto simp: pending_def tick_def split: prod.splits outcome.splits sum.splits if_splits)
  have batch: "asked site h (same_request o1)" if "o1 \<in> set (w_batch ?w)" for o1
    using assms(1) that by (simp add: traced_def pending_def)
  obtain db' out where b: "BatchCreateOrder env (w_db ?w) (w_chans ?w) (w_batch ?w) = (db', out)" by (metis surj_pair)
  have rows: "\<forall>r \<in> set (db_orders db'). r \<in> set (db_orders (w_db ?w)) \<or> asked site h (order_row_for r)"
    "\<forall>i \<in> set (db_order_items db'). i \<in> set (db_order_items (w_db ?w)) \<or> asked site h (item_row_for i)"
    if c: "batch_decide env (w_db ?w) (w_batch ?w) = Ret (Inr bd)" "batch_write env bd (w_db ?w) = Inr (db', res)" for bd res
  proof -
    have ok: "db_ok (w_db ?w)" using assms(3) by (simp add: sys_db_def)
    have "asked site h (order_row_for r)" if "o1 \<in> set (w_batch ?w)" "order_row_for r o1" for o1 r
      by (rule asked_mono [OF batch [OF that(1)]]) (use that(2) same_request_rows(1) in blast)
    with batch_rows_requested(1) [OF c ok assms(2)]
    show "\<forall>r \<in> set (db_orders db'). r \<in> set (db_orders (w_db ?w)) \<or> asked site h (order_row_for r)"
      unfolding order_row_for_def by blast
    have "asked site h (item_row_for i)" if "o1 \<in> set (w_batch ?w)" "item_row_for i o1" for o1 i
      by (rule asked_mono [OF batch [OF that(1)]]) (use that(2) same_request_rows(2) in blast)
    with batch_rows_requested(2) [OF c ok assms(2)]
    show "\<forall>i \<in> set (db_order_items db'). i \<in> set (db_order_items (w_db ?w)) \<or> asked site h (item_row_for i)"
      unfolding item_row_for_def by blast
  qed
  from b have "db' = w_db ?w \<or> (\<exists>bd res. batch_decide env (w_db ?w) (w_batch ?w) = Ret (Inr bd) \<and>
      batch_write env bd (w_db ?w) = Inr (db', res))"
    by (rule BatchCreateOrder_db) auto
  then have "\<forall>r \<in> set (db_orders db'). r \<in> set (db_orders db0) \<or> asked site h (order_row_for r)"
    "\<forall>i \<in> set (db_order_items db'). i \<in> set (db_order_items db0) \<or> asked site h (item_row_for i)"
    using rows assms(1) unfolding traced_def sys_db_def by metis+
  with b assms(1) sub show ?thesis
    unfolding traced_def sys_db_def by (auto simp: tick_db)
qed

lemma system_step_traced:
  assumes "system_step site vs s s'" and "traced site db0 h s" and "db_ok (sys_db s)"
  shows "traced site db0 (h @ vs) s'"
  using assms(1)
proof (cases rule: system_step_cases)
  case same
  with assms(2) show ?thesis by (auto simp: traced_def sys_db_def)
next
  case (operation x v)
  from assms(2) have "traced site db0 h s'"
    using served_op_orders [OF operation(1), of "si_ops site" "vi_peers v" "si_crypto site" "shop_of s"]
      operation(2) put_shop_sel(5) [of "shop_of s'" s] operation(3)
    unfolding traced_def by (metis shop_of_sel(1))
  then show ?thesis by (rule traced_more)
next
  case (checkout v o1)
  then have "asked site vs (same_request (o1\<lparr>co_ResultChannel := n\<rparr>))" for n
    by (auto simp: asked_def intro: exI [of _ o1])
  with checkout(4) assms(2) show ?thesis by (auto simp: traced_def sys_db_def)
next
  case worker
  from worker(1) show ?thesis
  proof cases
    case (step_tick env)
    have "s' = s\<lparr>sys_worker := tick env (sys_worker s)\<rparr>" using step_tick(1) worker(3) by (cases s'; cases s) simp
    with tick_traced [OF assms(2) step_tick(3) assms(3)] show ?thesis by (simp add: traced_more)
  next
    case (step_enqueue param)
    with worker(2) show ?thesis by (simp add: enqueue_def)
  next
    case step_receive
    with assms(2) worker(4) show ?thesis by (simp add: traced_def sys_db_def)
  qed (use assms(2) worker(4) in \<open>auto simp: traced_def sys_db_def pending_def take_result_def\<close>)
qed

section \<open>Requests while a batch is on its way\<close>

text \<open>One request that was served, and the batch whose reads met the tables \<open>db\<close> and whose writes met \<open>db2\<close>.\<close>

definition served :: "'s site \<Rightarrow> 's shop_state \<Rightarrow> 's shop_state \<Rightarrow> bool" where
  "served site st st' \<longleftrightarrow> (\<exists>x ps. served_op site x \<and> st' = shop_step (si_ops site) ps (si_crypto site) x st)"

definition batch_across :: "batch_env \<Rightarrow> database \<Rightarrow> database \<Rightarrow> chans \<Rightarrow> create_order list \<Rightarrow>
    database \<times> (chans \<times> (go_error + (string \<rightharpoonup> res_order))) outcome" where
  "batch_across env db db2 cs params =
     (if params = [] then (db2, Ret (cs, Inl (ErrNew ''no order received'')))
      else case batch_decide env db params of
        Panic m \<Rightarrow> (db2, Panic m)
      | Blocked \<Rightarrow> (db2, Blocked)
      | Ret (Inl err) \<Rightarrow> (db2, and_then (returnOrderError params err cs) (\<lambda>cs'. Ret (cs', Inl err)))
      | Ret (Inr bd) \<Rightarrow>
          (case batch_write env bd db2 of
             Inl err \<Rightarrow> (db2, and_then (returnOrderError params err cs) (\<lambda>cs'. Ret (cs', Inl err)))
           | Inr (db', res) \<Rightarrow>
               (db', and_then (returnOrderResult params res cs) (\<lambda>cs'. Ret (cs', Inr res)))))"

lemma batch_across_same: "batch_across env db db cs params = BatchCreateOrder env db cs params"
  by (simp add: batch_across_def BatchCreateOrder_def)

lemma served_products:
  assumes "served site st st'"
  shows "prefix (db_products (ss_db st)) (db_products (ss_db st'))"
proof -
  from assms obtain x ps where x: "served_op site x" "st' = shop_step (si_ops site) ps (si_crypto site) x st"
    by (auto simp: served_def)
  show ?thesis
  proof (cases "\<exists>env pparam. x = OpInsertProduct env pparam")
    case True
    then obtain env pparam where st': "st' = fst (ProductService_InsertProduct (si_ops site) env pparam st)"
      using x(2) by auto
    show ?thesis
    proof (cases "ss_db st' = ss_db st")
      case False
      then have "ss_db (fst (ProductService_InsertProduct (si_ops site) env pparam st)) \<noteq> ss_db st" by (simp add: st')
      then obtain row where
        "db_products (ss_db (fst (ProductService_InsertProduct (si_ops site) env pparam st))) = db_products (ss_db st) @ [row]"
        by (rule InsertProduct_appends)
      then show ?thesis by (simp add: st')
    qed simp
  next
    case False
    from served_op_books [OF x(1) this, of st "si_ops site" ps "si_crypto site"] x(2) show ?thesis
      by (simp add: same_books_def)
  qed
qed

lemma served_products_steps:
  "(served site)\<^sup>*\<^sup>* st st' \<Longrightarrow> prefix (db_products (ss_db st)) (db_products (ss_db st'))"
  by (induction rule: rtranclp_induct) (auto dest: served_products intro: prefix_order.trans)

lemma batch_decide_more_products:
  assumes "prefix (db_products db) (db_products db2)"
    and "\<forall>r \<in> set (db_products db2). r \<in> set (db_products db) \<or> product_ID r \<notin> roi_ProductID ` set (batch_items params)"
    and "distinct (db_products db2)"
  shows "batch_decide env db2 params = batch_decide env db params"
proof -
  from assms(1) obtain new where new: "db_products db2 = db_products db @ new" by (auto simp: prefix_def)
  with assms(2,3) have "\<forall>r \<in> set new. product_ID r \<notin> roi_ProductID ` set (batch_items params)" by auto
  then have f: "FindProductsByIds db2 (ms_productIds (mergeOrderItems params)) =
      FindProductsByIds db (ms_productIds (mergeOrderItems params))"
    by (simp add: FindProductsByIds_def new merge_productIds filter_empty_conv)
  show ?thesis unfolding batch_decide_def Let_def f by (rule refl)
qed

end
