(* ===== verification/SystemClaims.thy ===== *)
theory SystemClaims
  imports SystemLaws ShopClaims
begin

text \<open>
  The properties of the running system: what every step is, what every run keeps, and where its orders
  come from. The instance is the small shop, with a token of a user who is not the one who orders.
\<close>

section \<open>A visitor of the small shop\<close>

definition web_site :: "redis site" where
  "web_site = \<lparr>si_ops = redis_ops, si_crypto = web_crypto, si_clean = (\<lambda>p. p),
     si_parse = (\<lambda>t. Inr \<lparr>jwt_Raw = t, jwt_Subject = uuid_String (uid 9), jwt_Valid = True\<rparr>),
     si_text = (\<lambda>j. []),
     si_product = (\<lambda>b. if 0 \<le> sint (rp_Quantity b) \<and> int4_range (sint (rp_Quantity b)) then None
       else Some (ErrNew ''quantity'')),
     si_cart = (\<lambda>b. None), si_login = (\<lambda>b. None), si_register = (\<lambda>b. None), si_checkout = (\<lambda>b. None)\<rparr>"

definition web_visit :: "string \<Rightarrow> string \<Rightarrow> json \<Rightarrow> visit" where
  "web_visit meth path body = \<lparr>vi_meth = meth, vi_path = path,
     vi_request = web_request\<lparr>rq_Authorization := ''Bearer t'', rq_body := Inr body\<rparr>,
     vi_newId = ''n'', vi_env = web_env, vi_peers = web_peers, vi_keys = [], vi_fault1 = None, vi_fault2 = None,
     vi_wait = ResultTimeout redis_down\<rparr>"

definition web_system :: "redis system" where
  "web_system = system_start shop_db \<lparr>rd_keys = Map.empty, rd_down = False\<rparr>"

lemma web_system_sel [simp]:
  "sys_worker web_system = worker_start shop_db" "sys_db web_system = shop_db" "shop_of web_system = web_state"
  by (simp_all add: web_system_def system_start_def sys_db_def shop_of_def web_state_def worker_start_def)

abbreviation post_lamp :: visit where
  "post_lamp \<equiv> web_visit ''POST'' ''/products'' new_lamp_body"

lemma stock_checked_web: "stock_checked web_site"
  by (simp add: stock_checked_def web_site_def)

lemma lamp_posted:
  "\<exists>row. db_products (sys_db (fst (visit_part web_site AtProducts post_lamp web_system))) = [shop_product 1, row]"
proof -
  have "db_products (ss_db (fst (ask web_site post_lamp product_routes
      (product_handler redis_ops (si_product web_site) web_env) web_state))) =
    db_products (ss_db (fst (ProductController_InsertProduct redis_ops (si_product web_site) web_env background
      (web_request\<lparr>rq_Authorization := ''Bearer t'', rq_body := Inr new_lamp_body, rq_vars := Map.empty,
        rq_pathValues := Map.empty\<rparr>) web_state)))"
    by (simp add: ask_def run_service_served [OF post_products] web_site_def web_visit_def product_handler_def
        apply_middlewares_def)
  moreover obtain d where "decode_body decode_req_product (web_request\<lparr>rq_Authorization := ''Bearer t'',
      rq_body := Inr new_lamp_body, rq_vars := Map.empty, rq_pathValues := Map.empty\<rparr>) =
    Inr \<lparr>rp_Name = ''desk'', rp_Price = d, rp_Quantity = 3\<rparr>"
    using new_lamp_decoded by (auto simp: decode_body_def)
  ultimately show ?thesis
    using new_lamp_inserted [of d]
    by (simp add: on_shop_def ProductController_InsertProduct_def with_body_def web_site_def web_visit_def int4_range_def)
qed

section \<open>Steps\<close>

text \<open>C33: whatever step the running system takes, with whatever request to whatever path of whatever service:
  the database is taken through at most one of the listed transactions, and database and cache together
  through at most one operation of a service or one tick of the worker. A failed call leaves no part of
  its work. No request ever runs the update or the removal of a product, the removal of a cart item or
  the list of a user's carts: no operation for which \<open>served_op\<close> is false.\<close>

theorem steps_are_atomic:
  assumes "system_step site vs s s'"
  shows "db_tx (sys_db s) (sys_db s') \<and>
    (shop_of s' = shop_of s \<or>
     (\<exists>x ps. served_op site x \<and> shop_of s' = shop_step (si_ops site) ps (si_crypto site) x (shop_of s)) \<or>
     (\<exists>env. sys_worker s' = tick env (sys_worker s) \<and> sys_cache s' = sys_cache s))"
proof -
  have "shop_of s' = shop_of s \<or>
     (\<exists>x ps. served_op site x \<and> shop_of s' = shop_step (si_ops site) ps (si_crypto site) x (shop_of s)) \<or>
     (\<exists>env. sys_worker s' = tick env (sys_worker s) \<and> sys_cache s' = sys_cache s)"
    using assms
  proof (cases rule: system_step_cases)
    case worker
    from worker(1) show ?thesis by cases (use worker(3) in \<open>auto simp: shop_of_def sys_db_def\<close>)
  qed (auto simp: shop_of_def sys_db_def)
  with system_step_tx [OF assms] show ?thesis by blast
qed

theorem steps_are_atomic_witness:
  "db_tx shop_db (sys_db (fst (visit_part web_site AtProducts post_lamp web_system)))"
  using steps_are_atomic [OF step_visit [of AtProducts web_site post_lamp web_system]] by simp

section \<open>Runs\<close>

text \<open>C34: every run of the system, from a database that satisfies the schema, with whatever requests to the four
  services and whatever steps of the worker between them: the schema holds, no registered user, no order
  and no order item is ever changed or lost, and every result channel handed out belongs to a request on
  its way or is answered and closed. And when the validator of the products accepts only quantities that
  are no less than 0 and fit the column, no stock is ever below zero.\<close>

theorem runs_keep_the_books:
  assumes "system_run site (system_start db0 cache0) h s" and "db_ok db0"
  shows "db_ok (sys_db s) \<and> grows db0 (sys_db s) \<and>
    (\<forall>n < w_next (sys_worker s). (\<exists>o1 \<in> set (pending (sys_worker s)). co_ResultChannel o1 = Some n) \<or>
      ch_closed (w_chans (sys_worker s) n)) \<and>
    (stock_checked site \<and> stock_nonneg db0 \<longrightarrow> stock_nonneg (sys_db s))"
proof -
  let ?I = "\<lambda>s. db_ok (sys_db s) \<and> grows db0 (sys_db s) \<and> worker_inv (sys_worker s) \<and>
    (stock_checked site \<and> stock_nonneg db0 \<longrightarrow> stock_nonneg (sys_db s))"
  have "?I s"
  proof (rule system_run_invariant [where I = ?I, OF assms(1)])
    show "?I (system_start db0 cache0)"
      using assms(2) by (simp add: system_start_def sys_db_def worker_inv_start) (simp add: worker_start_def)
  next
    fix vs s s'
    assume "?I s" and s: "system_step site vs s s'"
    with system_step_tx [OF s] system_step_worker_inv [OF s] system_step_stock [OF s] show "?I s'"
      by (auto intro: db_tx_ok grows_trans [OF _ db_tx_grows])
  qed
  then show ?thesis unfolding worker_inv_def channels_inv_def by (metis imageE)
qed

theorem runs_keep_the_books_witness:
  "\<exists>row. db_products (sys_db (fst (visit_part web_site AtProducts post_lamp web_system))) = [shop_product 1, row] \<and>
     0 \<le> sint (product_Quantity row)"
proof -
  have "system_run web_site web_system ([] @ [(AtProducts, post_lamp)])
      (fst (visit_part web_site AtProducts post_lamp web_system))"
    by (rule run_more [OF run_none step_visit]) simp
  from runs_keep_the_books [OF this [unfolded web_system_def] shop_db_ok] stock_checked_web shop_stock
  have "stock_nonneg (sys_db (fst (visit_part web_site AtProducts post_lamp web_system)))"
    by (simp add: web_system_def)
  with lamp_posted show ?thesis by (auto simp: stock_nonneg_def)
qed

text \<open>C37: no order comes from nowhere. After every run, each row of the orders that was not there at the start
  has the identifier and the user of the body of a \<open>POST /orders/checkout\<close> that came with a verified token
  and passed the validator, and each order item is an item of such a body. But that the user is the one of
  the token is nowhere checked: in the small shop, user 9 orders in the name of user 1.\<close>

theorem orders_come_from_checkouts:
  assumes "system_run site (system_start db0 cache0) h s" and "db_ok db0"
  shows "(\<forall>r \<in> set (db_orders (sys_db s)). r \<in> set (db_orders db0) \<or>
      (\<exists>pv \<in> set h. \<exists>o1. asks_for site pv o1 \<and> order_ID r = co_ID o1 \<and> order_UserID r = co_UserId o1)) \<and>
    (\<forall>i \<in> set (db_order_items (sys_db s)). i \<in> set (db_order_items db0) \<or>
      (\<exists>pv \<in> set h. \<exists>o1. asks_for site pv o1 \<and> (\<exists>it \<in> set (co_OrderItems o1). oitem_ID i = roi_ID it \<and>
        oitem_OrderID i = roi_OrderID it \<and> oitem_ProductID i = roi_ProductID it \<and> oitem_Quantity i = roi_Quantity it)))"
proof -
  have "traced site db0 h s \<and> db_ok (sys_db s)"
    using assms(1)
  proof (induction rule: system_run.induct)
    case run_none
    show ?case using assms(2) by (simp add: traced_def system_start_def sys_db_def worker_start_def pending_def)
  next
    case (run_more h s vs s')
    then show ?case using system_step_traced db_tx_ok [OF system_step_tx] by blast
  qed
  then show ?thesis unfolding traced_def asked_def order_row_for_def item_row_for_def by blast
qed

abbreviation checkout_visit :: visit where
  "checkout_visit \<equiv> web_visit ''POST'' ''/orders/checkout'' (create_order_json (shop_order 10 20 2 0))"

definition web_queued :: "redis system" where
  "web_queued = web_system\<lparr>sys_worker := enqueue (shop_order 10 20 2 0) (worker_start shop_db)\<rparr>"

text \<open>The handler of a checkout in the small shop, for any order and whatever it meets at the queue.\<close>

definition web_user_ctx :: ctx where
  "web_user_ctx = \<lparr>ctx_requestId = Some ''n'',
     ctx_jwt = Some \<lparr>jwt_Raw = ''t'', jwt_Subject = uuid_String (uid 9), jwt_Valid = True\<rparr>\<rparr>"

lemma web_ask:
  assumes "\<forall>e. wait \<noteq> QueueTimeout e"
  shows "ask web_site (web_visit ''POST'' ''/orders/checkout'' (create_order_json o1)) order_routes
      (order_handler None None (\<lambda>b. None) wait) w =
    (enqueue (plain_order o1) w, Inr (case wait of Arrived m \<Rightarrow> result_reply web_user_ctx m | QueueTimeout e \<Rightarrow> timeout_reply web_user_ctx e
       | ResultTimeout e \<Rightarrow> timeout_reply web_user_ctx e))"
proof -
  let ?jwt = "\<lparr>jwt_Raw = ''t'', jwt_Subject = uuid_String (uid 9), jwt_Valid = True\<rparr>"
  have s: "serve (\<lambda>p. p) order_routes ''POST'' ''/orders/checkout'' = Served protected_chain CheckoutE []"
    by (simp add: order_routes_serve last_segment_def)
  have a: "Auth (si_parse web_site) next1 c r w = next1 (AttachJwtToken c ?jwt) r w"
    if "rq_Authorization r = ''Bearer t''" for next1 c r and w :: worker
    by (rule Auth_accepts) (simp_all add: that VerifyToken_def web_site_def)
  have c: "AttachJwtToken (AttachRequestIDToContext background ''n'') ?jwt = web_user_ctx"
    by (simp add: web_user_ctx_def background_def AttachJwtToken_def AttachRequestIDToContext_def)
  have h: "order_handler None None (\<lambda>b. None) wait CheckoutE web_user_ctx r w = (enqueue (plain_order o1) w,
      case wait of Arrived m \<Rightarrow> result_reply web_user_ctx m | QueueTimeout e \<Rightarrow> timeout_reply web_user_ctx e
        | ResultTimeout e \<Rightarrow> timeout_reply web_user_ctx e)"
    if "rq_body r = Inr (create_order_json o1)" for r w
    using assms that create_order_codec.dec_enc [of o1]
    by (cases wait) (simp_all add: order_handler_def OrderController_Checkout_def UserIdFromJwtToken_def
        JwtTokenFromContext_def web_user_ctx_def decode_body_def)
  have "\<exists>x. (case wait of Arrived m \<Rightarrow> result_reply web_user_ctx m | QueueTimeout e \<Rightarrow> timeout_reply web_user_ctx e
      | ResultTimeout e \<Rightarrow> timeout_reply web_user_ctx e) = Ret x"
    by (auto simp: timeout_reply_def result_reply_def reply_with_id web_user_ctx_def split: checkout_wait.split option.split)
  then show ?thesis
    using s by (auto simp: ask_def run_service_served web_visit_def web_site_def [THEN arg_cong, of si_clean]
        protected_chain_eq protected1_def Logging_def RecoverPanic_def web_request_def a c h)
qed

lemma web_checkout: "fst (visit_part web_site AtOrders checkout_visit web_system) = web_queued"
proof -
  let ?o = "shop_order 10 20 2 0"
  have "plain_order ?o = ?o\<lparr>co_ResultChannel := None\<rparr>"
    by (simp add: plain_order_def plain_order_item_def shop_order_def shop_item_def shop_price_def plain_decimal_id
        decimal_Coefficient_def)
  then have "enqueue (plain_order ?o) (worker_start shop_db) = enqueue ?o (worker_start shop_db)"
    by (simp add: enqueue_def)
  with web_ask [of "ResultTimeout redis_down" ?o "worker_start shop_db"]
  have "fst (ask web_site checkout_visit order_routes
      (order_handler None None (\<lambda>b. None) (ResultTimeout redis_down)) (worker_start shop_db)) =
    enqueue ?o (worker_start shop_db)" by simp
  then show ?thesis
    by (simp add: on_worker_def web_queued_def) (simp add: web_site_def web_visit_def)
qed

definition web_sold :: "redis system" where
  "web_sold = web_queued\<lparr>sys_worker := tick one_env one_order\<rparr>"

lemma web_sold_run: "system_run web_site web_system [(AtOrders, checkout_visit)] web_sold"
proof -
  have "system_run web_site web_system [(AtOrders, checkout_visit)] web_queued"
    using run_more [OF run_none step_visit_orders [of web_system checkout_visit web_site]]
    by (simp add: web_checkout crashed_def worker_start_def queue_capacity_def del: visit_part.simps)
  then have "system_run web_site web_system [(AtOrders, checkout_visit)] (web_queued\<lparr>sys_worker := one_order\<rparr>)"
    using run_more [OF _ step_worker [OF step_receive]]
    by (fastforce simp: web_queued_def one_order_def worker_start_def enqueue_def)
  from run_more [OF this step_worker [of _ "tick one_env one_order"]] step_tick [OF _ one_order_valid(2)[folded one_order_sel(2)]]
  show ?thesis by (simp add: web_sold_def one_order_sel)
qed

lemma web_sold_order: "\<exists>r \<in> set (db_orders (sys_db web_sold)). order_UserID r = uid 1"
proof -
  have "shelf_of (w_db (tick one_env one_order)) = sell_batch [shop_order 10 20 2 0] (shelf_of shop_db)"
    using retry_sells [OF one_order_valid(1) shop_db_ok shop_stock one_order_valid(2,3)]
    by (simp add: tick_db one_order_sel)
  then have "(uid 10, uid 1) \<in> sh_orders (shelf_of (sys_db web_sold))"
    by (simp add: sys_db_def web_sold_def sell_batch_def sell_def serve_lines_def serve_line_def batch_items_def shelf_of_def
        shop_defs Let_def line_of_item_def)
  then show ?thesis by (auto simp: shelf_of_def)
qed

theorem orders_come_from_checkouts_witness:
  "\<exists>r o1. r \<in> set (db_orders (sys_db web_sold)) \<and> order_UserID r = uid 1 \<and>
     asks_for web_site (AtOrders, checkout_visit) o1 \<and> order_ID r = co_ID o1 \<and> co_UserId o1 = uid 1 \<and>
     si_parse web_site ''t'' = Inr \<lparr>jwt_Raw = ''t'', jwt_Subject = uuid_String (uid 9), jwt_Valid = True\<rparr>"
proof -
  obtain r where r: "r \<in> set (db_orders (sys_db web_sold))" "order_UserID r = uid 1"
    using web_sold_order by blast
  have "db_orders shop_db = []" by (simp add: shop_db_def)
  with orders_come_from_checkouts [OF web_sold_run [unfolded web_system_def] shop_db_ok] r
  obtain o1 where "asks_for web_site (AtOrders, checkout_visit) o1" "order_ID r = co_ID o1" "order_UserID r = co_UserId o1"
    by fastforce
  with r show ?thesis by (auto simp: web_site_def)
qed

section \<open>Requests while a batch is on its way\<close>

text \<open>C38: it does no harm that \<open>BatchCreateOrder\<close> reads the stock without a lock, as long as there is one worker:
  whatever requests the other services serve between its reads and its writes, the outcome is the one of a
  batch that ran after them as a whole, for no request changes or removes a product. The identifiers of
  products that appear in between are new, so the batch does not name them.\<close>

theorem requests_during_a_batch_are_harmless:
  assumes "(served site)\<^sup>*\<^sup>* st st2" and "db_ok (ss_db st)"
    and "\<forall>r \<in> set (db_products (ss_db st2)). r \<in> set (db_products (ss_db st)) \<or>
      product_ID r \<notin> roi_ProductID ` set (batch_items params)"
  shows "batch_across env (ss_db st) (ss_db st2) cs params = BatchCreateOrder env (ss_db st2) cs params"
proof -
  have "db_ok (ss_db st2)"
    using assms(1,2)
    by (induction rule: rtranclp_induct) (auto simp: served_def intro: db_tx_ok [OF shop_step_tx])
  then have "distinct (db_products (ss_db st2))" by (auto simp: db_ok_def distinct_map)
  from batch_decide_more_products [OF served_products_steps [OF assms(1)] assms(3) this] show ?thesis
    by (simp add: batch_across_def BatchCreateOrder_def)
qed

theorem requests_during_a_batch_are_harmless_witness:
  "\<exists>st2 row. served web_site web_state st2 \<and> db_products (ss_db st2) = [shop_product 1, row] \<and>
     batch_across one_env shop_db (ss_db st2) fresh_chans [shop_order 10 20 2 0] =
       BatchCreateOrder one_env (ss_db st2) fresh_chans [shop_order 10 20 2 0]"
proof -
  let ?p = "\<lparr>rp_Name = ''desk'', rp_Price = shop_price, rp_Quantity = 3\<rparr>"
  let ?st2 = "fst (ProductService_InsertProduct redis_ops web_env ?p web_state)"
  have "si_product web_site ?p = None" by (simp add: web_site_def int4_range_def)
  then have s: "served web_site web_state ?st2"
    by (auto simp: served_def web_site_def intro!: exI [of _ "OpInsertProduct web_env ?p"])
  obtain row where row: "db_products (ss_db ?st2) = [shop_product 1, row]"
    using new_lamp_inserted by blast
  have "ss_db ?st2 \<noteq> ss_db web_state"
    using row by (auto simp: web_state_def shop_db_def)
  have "product_ID row = uid 50"
    using row by (auto simp: ProductService_InsertProduct_def db_call_def FindProductByName_def one_row_def
        InsertProduct_def Let_def web_env_def web_state_def shop_db_def shop_product_def redis_set numeric_of_decimal_def)
  with row have "\<forall>r \<in> set (db_products (ss_db ?st2)). r \<in> set (db_products (ss_db web_state)) \<or>
      product_ID r \<notin> roi_ProductID ` set (batch_items [shop_order 10 20 2 0])"
    by (simp add: web_state_def batch_items_def shop_defs)
  from requests_during_a_batch_are_harmless [OF r_into_rtranclp [of "served web_site", OF s] _ this] s row shop_db_ok
  show ?thesis by (auto simp: web_state_def)
qed

end
