(* ===== verification/Checkouts.thy ===== *)
theory Checkouts
  imports SystemLaws
begin

text \<open>
  The handlers of \<open>POST /orders/checkout\<close> while they wait. A handler that got its request into the queue
  stands in its second \<open>select\<close> until a message comes or its time is over; meanwhile the worker goes on
  and the other services write to the same database. The conversation is followed from the
  request to the reply.
\<close>

section \<open>The desk\<close>

text \<open>A handler is known by the number of its result channel. It remembers its request and the order it
  queued; when it has gone on, what its second \<open>select\<close> met.\<close>

datatype talk_state = Waiting visit create_order | Ended visit create_order checkout_wait

record desk =
  dk_worker :: worker
  dk_talks :: "nat \<Rightarrow> talk_state option"

text \<open>Receiving from a channel that is closed and empty gives the zero value, at once.\<close>

definition zero_result :: order_result where
  "zero_result = \<lparr>res_Order = res_order_zero, res_Err = None\<rparr>"

text \<open>The whole handler, behind its route and middlewares, for what its second \<open>select\<close> meets: what it does to
  the worker and what it replies.\<close>

definition talk :: "'s site \<Rightarrow> visit \<Rightarrow> checkout_wait \<Rightarrow> worker \<Rightarrow> worker \<times> (nat + reply)" where
  "talk site v wait = ask site v order_routes (order_handler (vi_fault1 v) (vi_fault2 v) (si_checkout site) wait)"

text \<open>The steps: a request gets into the queue, when the handler gets that far and there is room; a waiting
  handler takes the message, meets a closed channel, or runs out of time, whichever the \<open>select\<close> may choose; the
  worker takes a step of its own; another service, or another handler that only reads, commits a transaction.\<close>

inductive desk_step :: "'s site \<Rightarrow> desk \<Rightarrow> desk \<Rightarrow> bool" for site where
  desk_queue: "fst (talk site v (vi_wait v) (dk_worker d)) = enqueue o1 (dk_worker d) \<Longrightarrow>
    \<not> crashed (dk_worker d) \<Longrightarrow> length (w_queue (dk_worker d)) < queue_capacity \<Longrightarrow>
    desk_step site d (d\<lparr>dk_worker := enqueue o1 (dk_worker d),
      dk_talks := (dk_talks d)(w_next (dk_worker d) \<mapsto> Waiting v o1)\<rparr>)"
| desk_result: "dk_talks d n = Some (Waiting v o1) \<Longrightarrow> \<not> crashed (dk_worker d) \<Longrightarrow>
    ch_buf (w_chans (dk_worker d) n) = m # ms \<Longrightarrow>
    desk_step site d (d\<lparr>dk_worker := take_result n (dk_worker d),
      dk_talks := (dk_talks d)(n \<mapsto> Ended v o1 (Arrived m))\<rparr>)"
| desk_closed: "dk_talks d n = Some (Waiting v o1) \<Longrightarrow> \<not> crashed (dk_worker d) \<Longrightarrow>
    ch_buf (w_chans (dk_worker d) n) = [] \<Longrightarrow> ch_closed (w_chans (dk_worker d) n) \<Longrightarrow>
    desk_step site d (d\<lparr>dk_worker := (dk_worker d)\<lparr>w_waiting := w_waiting (dk_worker d) - {n}\<rparr>,
      dk_talks := (dk_talks d)(n \<mapsto> Ended v o1 (Arrived zero_result))\<rparr>)"
| desk_timeout: "dk_talks d n = Some (Waiting v o1) \<Longrightarrow> \<not> crashed (dk_worker d) \<Longrightarrow>
    desk_step site d (d\<lparr>dk_worker := (dk_worker d)\<lparr>w_waiting := w_waiting (dk_worker d) - {n}\<rparr>,
      dk_talks := (dk_talks d)(n \<mapsto> Ended v o1 (ResultTimeout e))\<rparr>)"
| desk_worker: "worker_step (dk_worker d) w \<Longrightarrow> w_next w = w_next (dk_worker d) \<Longrightarrow>
    w_waiting w = w_waiting (dk_worker d) \<Longrightarrow> desk_step site d (d\<lparr>dk_worker := w\<rparr>)"
| desk_others: "db_tx (w_db (dk_worker d)) db \<Longrightarrow>
    desk_step site d (d\<lparr>dk_worker := (dk_worker d)\<lparr>w_db := db\<rparr>\<rparr>)"

inductive_cases desk_stepE: "desk_step site d d'"

definition desk_start :: "database \<Rightarrow> desk" where
  "desk_start db = \<lparr>dk_worker = worker_start db, dk_talks = Map.empty\<rparr>"

abbreviation desk_run :: "'s site \<Rightarrow> database \<Rightarrow> desk \<Rightarrow> bool" where
  "desk_run site db0 d \<equiv> (desk_step site)\<^sup>*\<^sup>* (desk_start db0) d"

text \<open>A handler that was told success: its reply, for what it met, is a 201.\<close>

definition talk_confirmed :: "'s site \<Rightarrow> visit \<Rightarrow> checkout_wait \<Rightarrow> worker \<Rightarrow> bool" where
  "talk_confirmed site v wait w \<longleftrightarrow> (\<exists>out. snd (talk site v wait w) = Inr out \<and> replied out 201)"

section \<open>A success is one of the worker\<close>

text \<open>An order that is in the table, with an item.\<close>

definition placed :: "database \<Rightarrow> uuid \<Rightarrow> bool" where
  "placed db i \<longleftrightarrow> i \<in> order_ID ` set (db_orders db) \<and> i \<in> oitem_OrderID ` set (db_order_items db)"

lemma placed_grows: "grows db db' \<Longrightarrow> placed db i \<Longrightarrow> placed db' i"
  unfolding grows_def placed_def by (meson image_mono set_mono_prefix subsetD)

lemma GetOrders_distinct: "db_ok db \<Longrightarrow> distinct (map gor_ID (GetOrders db ids))"
proof -
  have "map gor_ID (GetOrders db ids) = map order_ID
      (filter (\<lambda>o1. order_ID o1 \<in> set ids \<and> items_of_order db (order_ID o1) \<noteq> []) (db_orders db))"
    by (simp add: GetOrders_def get_orders_row_of_def)
  moreover assume "db_ok db"
  ultimately show ?thesis by (simp add: db_ok_def distinct_map_filter)
qed

text \<open>A committed batch reports a success only for an order that is in the table.\<close>

lemma success_is_placed:
  assumes "batch_write env bd db = Inr (db', res)" and "db_ok db" and "res_Err (order_result_of res o1) = None"
  shows "placed db' (co_ID o1)"
proof -
  let ?rows = "GetOrders db' (bd_orderIds bd)"
  have res: "res = orderToResponse ?rows (bd_mapOrder bd)" using batch_write_Inr [OF assms(1)] by blast
  have "distinct (map gor_ID ?rows)" by (rule GetOrders_distinct [OF batch_write_ok [OF assms(1,2)]])
  from orderToResponse_at [OF this, of "bd_mapOrder bd" "co_ID o1"] assms(3) obtain r where
    r: "find (\<lambda>r. gor_ID r = co_ID o1) ?rows = Some r"
    by (auto simp: order_result_of_def res split: option.splits)
  then have "r \<in> set ?rows" "gor_ID r = co_ID o1" by (auto simp: find_Some_iff)
  then obtain row where row: "row \<in> set (db_orders db')" "order_ID row = co_ID o1" "items_of_order db' (co_ID o1) \<noteq> []"
    by (auto simp: GetOrders_def get_orders_row_of_def)
  then obtain it where "it \<in> set (items_of_order db' (co_ID o1))" by (cases "items_of_order db' (co_ID o1)") auto
  then have "it \<in> set (db_order_items db')" "oitem_OrderID it = co_ID o1" by (auto simp: items_of_order_def)
  with row show ?thesis unfolding placed_def by (metis image_eqI)
qed

text \<open>What a tick does to a channel: nothing, or it leaves the answer of the call.\<close>

lemma tick_channels:
  assumes "worker_inv w" and "w_status w = Running"
  obtains (same) "w_chans (tick env w) = w_chans w" "pending (tick env w) = pending w"
  | (answers) cs' r where "unanswered w"
      "BatchCreateOrder env (w_db w) (w_chans w) (w_batch w) = (w_db (tick env w), Ret (cs', r))"
      "w_chans (tick env w) = cs'" "w_batch w \<noteq> []"
      "set (pending w) \<subseteq> set (pending (tick env w)) \<union> set (w_batch w)"
      "\<And>o1 n. o1 \<in> set (w_batch w) \<Longrightarrow> co_ResultChannel o1 = Some n \<Longrightarrow> cs' n = answered
        (case r of Inl err \<Rightarrow> \<lparr>res_Order = res_order_zero, res_Err = Some err\<rparr>
         | Inr res \<Rightarrow> order_result_of res o1)"
      "\<And>n. Some n \<notin> co_ResultChannel ` set (w_batch w) \<Longrightarrow> cs' n = w_chans w n"
proof (cases "w_batch w = []")
  case True
  with same show ?thesis by (simp add: tick_def)
next
  case False
  obtain db' out where b: "BatchCreateOrder env (w_db w) (w_chans w) (w_batch w) = (db', out)" by (metis surj_pair)
  show ?thesis
  proof (cases "\<exists>cs' r. out = Ret (cs', r)")
    case no: False
    with False b have "w_chans (tick env w) = w_chans w" "pending (tick env w) = pending w"
      by (cases out; auto simp: tick_def pending_def)+
    with same show ?thesis by blast
  next
    case True
    then obtain cs' r where out: "out = Ret (cs', r)" by blast
    have "w_status (tick env w) = Running" using False b out assms(2) by (cases r) (simp_all add: tick_def)
    with poisoned_tick [of w env] have "\<not> poisoned w" by auto
    with assms have ci: "channels_inv w" and un: "unanswered w" by (auto simp: worker_inv_def)
    note ans = BatchCreateOrder_answers [OF b [unfolded out] False unanswered_ready [OF ci un]]
    have t: "w_chans (tick env w) = cs'" "w_db (tick env w) = db'"
      "set (pending w) \<subseteq> set (pending (tick env w)) \<union> set (w_batch w)"
      using False b out by (cases r; auto simp: tick_def pending_def)+
    show ?thesis
      by (rule answers [OF un _ t(1) False t(3)]) (use b out t(2) ans in auto)
  qed
qed

section \<open>The invariant of the desk\<close>

text \<open>Whoever waits has a request on its way that nobody has answered, or an answer in its channel; a
  success, in the channel or told, is one of an order in the table.\<close>

definition honest :: "database \<Rightarrow> create_order \<Rightarrow> order_result \<Rightarrow> bool" where
  "honest db o1 m \<longleftrightarrow> (res_Err m = None \<longrightarrow> placed db (co_ID o1))"

definition talk_ok :: "worker \<Rightarrow> nat \<Rightarrow> talk_state \<Rightarrow> bool" where
  "talk_ok w n t \<longleftrightarrow> n < w_next w \<and> (case t of
     Waiting v o1 \<Rightarrow>
       w_chans w n = chan_made \<and> (\<exists>o2 \<in> set (pending w). co_ResultChannel o2 = Some n \<and> co_ID o2 = co_ID o1) \<or>
       (\<exists>m. w_chans w n = answered m \<and> honest (w_db w) o1 m)
   | Ended v o1 (Arrived m) \<Rightarrow> honest (w_db w) o1 m
   | Ended v o1 wait \<Rightarrow> \<forall>e. wait \<noteq> QueueTimeout e)"

definition desk_inv :: "'s site \<Rightarrow> desk \<Rightarrow> bool" where
  "desk_inv site d \<longleftrightarrow> worker_inv (dk_worker d) \<and> db_ok (w_db (dk_worker d)) \<and>
     (\<forall>n t. dk_talks d n = Some t \<longrightarrow> talk_ok (dk_worker d) n t) \<and>
     (\<forall>n v o1. dk_talks d n = Some (Waiting v o1) \<longrightarrow> n \<in> w_waiting (dk_worker d))"

lemma honest_grows: "grows db db' \<Longrightarrow> honest db o1 m \<Longrightarrow> honest db' o1 m"
  by (auto simp: honest_def intro: placed_grows)

text \<open>A talk stays in order when the database grows and its own channel is left.\<close>

lemma talk_ok_frame:
  assumes "talk_ok w n t" and "w_next w \<le> w_next w'" and "w_chans w' n = w_chans w n"
    and "set (pending w) \<subseteq> set (pending w')" and "grows (w_db w) (w_db w')"
  shows "talk_ok w' n t"
  using assms honest_grows [OF assms(5)]
  by (auto simp: talk_ok_def split: talk_state.splits checkout_wait.splits)

lemma talk_ok_tick:
  assumes "worker_inv w" and "w_status w = Running" and "db_ok (w_db w)" and "talk_ok w n t"
  shows "talk_ok (tick env w) n t"
proof -
  have g: "grows (w_db w) (w_db (tick env w))"
    by (simp add: tick_db Batch_tx db_tx_grows)
  from assms(1,2) show ?thesis
  proof (cases rule: tick_channels [where env = env])
    case same
    with assms(4) g show ?thesis by (intro talk_ok_frame [OF assms(4)]) simp_all
  next
    case (answers cs' r)
    show ?thesis
    proof (cases "Some n \<in> co_ResultChannel ` set (w_batch w)")
      case False
      then have "cs' n = w_chans w n" by (rule answers(7))
      moreover have "o2 \<in> set (pending (tick env w))"
        if "o2 \<in> set (pending w)" "co_ResultChannel o2 = Some n" for o2
        using that False answers(5) by (metis Un_iff image_eqI subsetD)
      ultimately show ?thesis
        using assms(4) honest_grows [OF g] answers(3)
        by (auto simp: talk_ok_def split: talk_state.splits checkout_wait.splits)
    next
      case True
      then obtain o2 where o2: "o2 \<in> set (w_batch w)" "co_ResultChannel o2 = Some n" by auto
      let ?m = "case r of Inl err \<Rightarrow> \<lparr>res_Order = res_order_zero, res_Err = Some err\<rparr> | Inr res \<Rightarrow> order_result_of res o2"
      have made: "w_chans w n = chan_made"
        using answers(1) o2 by (auto simp: unanswered_def pending_def)
      have ans: "w_chans (tick env w) n = answered ?m" using answers(3,6) o2 by simp
      have h: "honest (w_db (tick env w)) o2 ?m"
      proof (cases r)
        case (Inr res)
        with answers(2,4) obtain bd where "batch_write env bd (w_db w) = Inr (w_db (tick env w), res)"
          by (auto simp: BatchCreateOrder_def split: outcome.splits sum.splits)
        from success_is_placed [OF this assms(3), of o2] Inr show ?thesis by (simp add: honest_def)
      qed (simp add: honest_def)
      have one: "o3 = o2" if "o3 \<in> set (pending w)" "co_ResultChannel o3 = Some n" for o3
      proof -
        have "o2 \<in> set (pending w)" using o2(1) by (simp add: pending_def)
        with that o2(2) assms(1) show ?thesis
          unfolding worker_inv_def channels_inv_def by (metis distinct_map inj_onD)
      qed
      show ?thesis
      proof (cases t)
        case (Waiting v o1)
        with assms(4) made one have "co_ID o2 = co_ID o1"
          by (auto simp: talk_ok_def answered_def chan_made_def)
        with h have "honest (w_db (tick env w)) o1 ?m" by (simp add: honest_def)
        with assms(4) ans Waiting show ?thesis by (auto simp: talk_ok_def)
      next
        case (Ended v o1 wait)
        with assms(4) honest_grows [OF g] show ?thesis by (auto simp: talk_ok_def split: checkout_wait.splits)
      qed
    qed
  qed
qed

lemma desk_inv_step:
  assumes "desk_step site d d'" and "desk_inv site d"
  shows "desk_inv site d'"
proof -
  let ?w = "dk_worker d"
  have inv: "worker_inv ?w" and ok: "db_ok (w_db ?w)"
    and talks: "\<And>n t. dk_talks d n = Some t \<Longrightarrow> talk_ok ?w n t"
    and waits: "\<And>n v o1. dk_talks d n = Some (Waiting v o1) \<Longrightarrow> n \<in> w_waiting ?w"
    using assms(2) by (auto simp: desk_inv_def)
  have old: "dk_talks d (w_next ?w) = None"
    using talks [of "w_next ?w"] by (cases "dk_talks d (w_next ?w)") (auto simp: talk_ok_def)
  from assms(1) show ?thesis
  proof cases
    case (desk_queue v o1)
    let ?w' = "enqueue o1 ?w"
    have step: "worker_step ?w ?w'" using desk_queue(3,4) by (rule step_enqueue)
    have "talk_ok ?w' n t" if "dk_talks d n = Some t" for n t
      by (rule talk_ok_frame [OF talks [OF that]]) (auto simp: enqueue_def pending_def)
    moreover have "talk_ok ?w' (w_next ?w) (Waiting v o1)"
      using inv by (auto simp: talk_ok_def enqueue_def pending_def worker_inv_def channels_inv_def)
    ultimately show ?thesis
      using desk_queue(1) worker_inv_step [OF step inv] ok waits
      by (auto simp: desk_inv_def enqueue_def)
  next
    case (desk_result n v o1 m ms)
    let ?w' = "take_result n ?w"
    have step: "worker_step ?w ?w'"
      using waits [OF desk_result(2)] desk_result(4) by (intro step_result) simp_all
    have "talk_ok ?w' k t" if "dk_talks d k = Some t" "k \<noteq> n" for k t
      by (rule talk_ok_frame [OF talks [OF that(1)]]) (use that(2) in \<open>auto simp: take_result_def pending_def\<close>)
    moreover have "talk_ok ?w' n (Ended v o1 (Arrived m))"
      using talks [OF desk_result(2)] desk_result(4)
      by (auto simp: talk_ok_def take_result_def chan_made_def answered_def)
    ultimately show ?thesis
      using desk_result(1) worker_inv_step [OF step inv] ok waits
      by (auto simp: desk_inv_def take_result_def)
  next
    case (desk_closed n v o1)
    have False using talks [OF desk_closed(2)] desk_closed(4,5)
      by (auto simp: talk_ok_def chan_made_def answered_def)
    then show ?thesis ..
  next
    case (desk_timeout n v o1 e)
    let ?w' = "?w\<lparr>w_waiting := w_waiting ?w - {n}\<rparr>"
    have "worker_step ?w ?w'" using waits [OF desk_timeout(2)] by (rule step_timeout)
    moreover have "talk_ok ?w' k t" if "dk_talks d k = Some t" for k t
      by (rule talk_ok_frame [OF talks [OF that]]) (simp_all add: pending_def)
    moreover have "talk_ok ?w' n (Ended v o1 (ResultTimeout e))"
      using talks [OF desk_timeout(2)] by (simp add: talk_ok_def)
    ultimately show ?thesis
      using desk_timeout(1) worker_inv_step [OF _ inv, of ?w'] ok waits by (auto simp: desk_inv_def)
  next
    case (desk_worker w)
    have g: "db_ok (w_db w)" "grows (w_db ?w) (w_db w)"
      using worker_step_tx [OF desk_worker(2)] db_tx_ok db_tx_grows ok by blast+
    have "talk_ok w n t" if "dk_talks d n = Some t" for n t
      using desk_worker(2)
    proof cases
      case (step_tick env)
      with talk_ok_tick [OF inv _ ok talks [OF that]] show ?thesis by simp
    next
      case step_receive
      with talk_ok_frame [OF talks [OF that]] show ?thesis by simp
    next
      case (step_result k)
      with desk_worker(4) have "k \<in> w_waiting ?w - {k}" by (simp add: take_result_def)
      then show ?thesis by simp
    next
      case (step_timeout k)
      with desk_worker(4) have "k \<in> w_waiting ?w - {k}" by simp
      then show ?thesis by simp
    next
      case (step_enqueue param)
      with desk_worker(3) show ?thesis by (simp add: enqueue_def)
    next
      case step_stop
      with talk_ok_frame [OF talks [OF that], of w] show ?thesis by (simp add: pending_def)
    qed
    with desk_worker worker_inv_step [OF desk_worker(2) inv] g waits show ?thesis by (auto simp: desk_inv_def)
  next
    case (desk_others db)
    let ?w' = "?w\<lparr>w_db := db\<rparr>"
    have g: "db_ok db" "grows (w_db ?w) db" using desk_others(2) db_tx_ok db_tx_grows ok by blast+
    have "talk_ok ?w' n t" if "dk_talks d n = Some t" for n t
      by (rule talk_ok_frame [OF talks [OF that]]) (use g in \<open>simp_all add: pending_def\<close>)
    moreover have "worker_inv ?w'"
      using inv by (simp add: worker_inv_def channels_inv_def unanswered_def poisoned_def pending_def)
    ultimately show ?thesis using desk_others(1) g waits by (auto simp: desk_inv_def)
  qed
qed

lemma desk_inv_run:
  assumes "desk_run site db0 d" and "db_ok db0"
  shows "desk_inv site d"
  using assms(1)
proof (induction rule: rtranclp_induct)
  case base
  show ?case using assms(2) by (simp add: desk_inv_def desk_start_def worker_inv_start) (simp add: worker_start_def)
next
  case (step d1 d2)
  then show ?case by (blast intro: desk_inv_step)
qed

section \<open>Replies\<close>

text \<open>A status other than those of the middlewares is one of the handler.\<close>

lemma replied_body:
  "replied (reply c (failed k m)) code \<longleftrightarrow> code = k \<and> ctx_requestId c \<noteq> None"
  "replied (reply c (success k m x)) code \<longleftrightarrow> code = k \<and> ctx_requestId c \<noteq> None"
  by (cases "ctx_requestId c"; auto simp: replied_def reply_without_id reply_with_id failed_def success_def)+

lemma not_replied [simp]: "\<not> replied (Panic m) code" "\<not> replied (Ret None) code" "\<not> replied Blocked code"
  by (simp_all add: replied_def)

lemma apply_middlewares_replied:
  assumes "replied (snd (apply_middlewares parse newId mws h c r s)) code" and "code \<noteq> 401" and "code \<noteq> 500"
  shows "\<exists>c'. replied (snd (h c' r s)) code"
  using assms(1)
proof (induction mws arbitrary: c)
  case Nil
  then show ?case by (auto simp: apply_middlewares_def)
next
  case (Cons m mws)
  let ?h = "apply_middlewares parse newId mws h"
  have step: "apply_middlewares parse newId (m # mws) h = apply_middleware parse newId m ?h"
    by (simp add: apply_middlewares_def)
  have "\<exists>c'. replied (snd (?h c' r s)) code"
  proof (cases m)
    case MwTrace
    with Cons.prems show ?thesis unfolding step by auto
  next
    case MwLogging
    with Cons.prems show ?thesis unfolding step by (auto simp: Logging_def)
  next
    case MwRecoverPanic
    with Cons.prems assms(3) show ?thesis unfolding step
      by (auto simp: RecoverPanic_def replied_body split: prod.splits outcome.splits) (metis snd_conv)+
  next
    case MwAuth
    with Cons.prems assms(2) show ?thesis unfolding step
      by (auto simp: Auth_def Let_def replied_body split: if_splits list.splits sum.splits)
  qed
  with Cons.IH show ?case by blast
qed

lemma order_handler_confirms:
  assumes "replied (snd (order_handler f1 f2 validate wait e c r w)) 201"
  shows "\<exists>m. wait = Arrived m \<and> res_Err m = None"
proof -
  have find: "replied (and_then out k) 201 \<Longrightarrow> \<exists>x. replied (k x) 201" for out :: "'a outcome" and k
    by (cases out) auto
  have "\<not> replied (OrderController_FindOrderById f1 f2 c r (w_db w)) 201"
    by (auto simp: OrderController_FindOrderById_def replied_body dest!: find split: sum.splits)
  moreover have "\<not> replied (OrderController_FindOrders f1 c r (w_db w)) 201"
    by (auto simp: OrderController_FindOrders_def Let_def replied_body split: sum.splits)
  moreover have "\<exists>m. wait = Arrived m \<and> res_Err m = None"
    if "replied (snd (OrderController_Checkout validate c r wait)) 201"
    using that
    by (auto simp: OrderController_Checkout_def timeout_reply_def result_reply_def replied_body
        split: outcome.splits sum.splits option.splits checkout_wait.splits)
  ultimately show ?thesis
    using assms by (cases e) (auto simp: order_handler_def split: prod.splits option.splits)
qed

lemma confirmed_arrived:
  assumes "talk_confirmed site v wait w"
  shows "\<exists>m. wait = Arrived m \<and> res_Err m = None"
proof (cases "serve (si_clean site) order_routes (vi_meth v) (vi_path v)")
  case (Served mws e vs)
  with assms apply_middlewares_replied [where code = 201] order_handler_confirms show ?thesis
    by (fastforce simp: talk_confirmed_def talk_def ask_def run_service_served [OF Served])
qed (use assms in \<open>auto simp: talk_confirmed_def talk_def ask_def run_service_def\<close>)

text \<open>Every handler at the desk came with a request that may queue its order.\<close>

lemma talk_asks:
  assumes "fst (talk site v (vi_wait v) w) = enqueue o1 w"
  shows "\<exists>o2. asks_for site (AtOrders, v) o2 \<and> co_ID o2 = co_ID o1"
proof -
  let ?s = "\<lparr>sys_worker = w, sys_cache = undefined\<rparr>"
  have v: "sys_worker (fst (visit_part site AtOrders v ?s)) = enqueue o1 w"
    using assms by (simp add: on_worker_def talk_def)
  show ?thesis
  proof (rule visit_orders [of site v ?s])
    assume "sys_worker (fst (visit_part site AtOrders v ?s)) = sys_worker ?s"
    with v have "w_queue w = w_queue (enqueue o1 w)" by simp
    then show ?thesis by (simp add: enqueue_def)
  next
    fix o2
    assume o2: "asks_for site (AtOrders, v) o2"
      and "sys_worker (fst (visit_part site AtOrders v ?s)) = enqueue o2 (sys_worker ?s)"
    with v have "w_queue (enqueue o1 w) = w_queue (enqueue o2 w)" by simp
    then have "o1\<lparr>co_ResultChannel := Some (w_next w)\<rparr> = o2\<lparr>co_ResultChannel := Some (w_next w)\<rparr>"
      by (simp add: enqueue_def)
    from arg_cong [OF this, of co_ID] o2 show ?thesis by auto
  qed
qed

lemma desk_asked:
  assumes "desk_run site db0 d"
    and "dk_talks d n = Some (Waiting v o1) \<or> dk_talks d n = Some (Ended v o1 wait)"
  shows "\<exists>o2. asks_for site (AtOrders, v) o2 \<and> co_ID o2 = co_ID o1"
  using assms
proof (induction arbitrary: n v o1 wait rule: rtranclp_induct)
  case base
  then show ?case by (simp add: desk_start_def)
next
  case (step d1 d2)
  note IH = step.IH
  from step.hyps(2) step.prems show ?case
    by cases (auto split: if_splits intro: IH talk_asks)
qed

lemma desk_steps_grow:
  assumes "(desk_step site)\<^sup>*\<^sup>* d d'"
  shows "grows (w_db (dk_worker d)) (w_db (dk_worker d'))"
  using assms
proof (induction rule: rtranclp_induct)
  case (step d1 d2)
  from step.hyps(2) have "db_tx (w_db (dk_worker d1)) (w_db (dk_worker d2))"
    by cases (auto simp: enqueue_def take_result_def tx_none intro: worker_step_tx)
  with step.IH show ?case by (blast intro: grows_trans db_tx_grows)
qed simp

lemma confirmed_placed:
  assumes "desk_run site db0 d" and "db_ok db0" and "dk_talks d n = Some (Ended v o1 wait)" and "talk_confirmed site v wait w"
  shows "placed (w_db (dk_worker d)) (co_ID o1)"
  using desk_inv_run [OF assms(1,2)] assms(3) confirmed_arrived [OF assms(4)]
  by (force simp: desk_inv_def talk_ok_def honest_def)

end
