(* ===== verification/Peers.thy ===== *)
theory Peers
  imports System CacheTypes
begin

text \<open>
  The requests the cart service sends: to the user service, whether it knows a user, and to the order
  service, the order made from a cart. How such a request arrives at a service, and what is made of
  the reply.
\<close>

section \<open>Requests that are sent\<close>

definition URL_USER_SERVICE :: string where
  "URL_USER_SERVICE = ''http://user-service/users''"

definition URL_ORDER_SERVICE :: string where
  "URL_ORDER_SERVICE = ''http://order-service/orders''"

definition MethodGet :: string where "MethodGet = ''GET''"

definition MethodPost :: string where "MethodPost = ''POST''"

text \<open>A request as \<open>http.NewRequestWithContext\<close> makes it, with the two headers the service adds.\<close>

record sent_request =
  sr_method :: string
  sr_url :: string
  sr_requestId :: string
  sr_Authorization :: string
  sr_body :: "json option"

definition findUserReq :: "uuid \<Rightarrow> string \<Rightarrow> sent_request" where
  "findUserReq userID requestId =
     \<lparr>sr_method = MethodGet, sr_url = URL_USER_SERVICE @ ''/'' @ uuid_String userID,
      sr_requestId = requestId, sr_Authorization = [], sr_body = None\<rparr>"

definition checkoutReq :: "string \<Rightarrow> create_order \<Rightarrow> string \<Rightarrow> sent_request" where
  "checkoutReq authorization order requestId =
     \<lparr>sr_method = MethodPost, sr_url = URL_ORDER_SERVICE @ ''/'' @ ''checkout'',
      sr_requestId = requestId, sr_Authorization = authorization, sr_body = Some (create_order_json order)\<rparr>"

section \<open>Requests that arrive\<close>

text \<open>The host names are those of the containers; each service listens on port 80.\<close>

primrec host_of :: "part \<Rightarrow> string" where
  "host_of AtProducts = ''product-service''"
| "host_of AtCarts = ''cart-service''"
| "host_of AtUsers = ''user-service''"
| "host_of AtOrders = ''order-service''"

definition arrives :: "sent_request \<Rightarrow> part \<Rightarrow> visit \<Rightarrow> bool" where
  "arrives g p v \<longleftrightarrow> sr_url g = ''http://'' @ host_of p @ vi_path v \<and> vi_meth v = sr_method g \<and>
     rq_requestId (vi_request v) = sr_requestId g \<and> rq_Authorization (vi_request v) = sr_Authorization g \<and>
     (\<forall>j. sr_body g = Some j \<longrightarrow> rq_body (vi_request v) = Inr j)"

text \<open>The status the sender reads. A handler that panics outside \<open>RecoverPanic\<close> breaks the connection; one that
  writes nothing has answered 200.\<close>

definition no_answer :: go_error where
  "no_answer = ErrNew ''EOF''"

definition status_read :: "nat + reply \<Rightarrow> go_error + nat" where
  "status_read x = (case x of
     Inl code \<Rightarrow> Inr code
   | Inr (Ret (Some r)) \<Rightarrow> Inr (hr_code r)
   | Inr (Ret None) \<Rightarrow> Inr 200
   | Inr (Panic m) \<Rightarrow> Inl no_answer
   | Inr Blocked \<Rightarrow> Inl no_answer)"

lemma status_read_replied: "replied out code \<Longrightarrow> status_read (Inr out) = Inr code"
  by (auto simp: status_read_def replied_def)

lemma hexByte_no_slash: "CHR ''/'' \<notin> set (hexByte b)"
proof -
  have "hexChar n \<noteq> CHR ''/''" if "n < 16" for n
    using xvalues_hexChar [OF that] hexChar_not_255 [OF that] by (auto simp: xvalues_def)
  moreover have "unat b < 256" using unsigned_less [of b, where ?'a = nat] by simp
  ultimately show ?thesis unfolding hexByte_def by (auto dest: sym)
qed

lemma uuid_String_no_slash: "CHR ''/'' \<notin> set (uuid_String u)"
  by (cases u) (simp add: uuid_String_expand hexByte_no_slash)

lemma arrives_findUserReq:
  assumes "arrives (findUserReq i requestId) AtUsers v"
  shows "vi_meth v = ''GET''" "vi_path v = ''/users/'' @ uuid_String i"
  using assms
  by (simp_all add: arrives_def findUserReq_def URL_USER_SERVICE_def MethodGet_def)

lemma arrives_checkoutReq:
  assumes "arrives (checkoutReq t o1 requestId) AtOrders v"
  shows "vi_meth v = ''POST''" "vi_path v = ''/orders/checkout''" "rq_Authorization (vi_request v) = t"
    "rq_body (vi_request v) = Inr (create_order_json o1)"
  using assms by (simp_all add: arrives_def checkoutReq_def URL_ORDER_SERVICE_def MethodPost_def)

section \<open>Whether a user is known\<close>

text \<open>The reply of the user service to the question of the cart service is the one of its operation.\<close>

definition user_reply :: "'s site \<Rightarrow> visit \<Rightarrow> 's shop_state \<Rightarrow> nat + reply" where
  "user_reply site v st = snd (ask site v user_routes (user_handler (si_ops site) (si_crypto site) (si_text site)
     (si_login site) (si_register site) (vi_env v)) st)"

lemma user_service_replies:
  assumes "arrives (findUserReq i requestId) AtUsers v" and "si_clean site (vi_path v) = vi_path v"
  shows "status_read (user_reply site v st) =
    Inr (case UserService_FindUserById (si_ops site) (vi_env v) i st of (st', Ret (Inr user)) \<Rightarrow> 200 | (st', Ret (Inl e)) \<Rightarrow> 400
         | _ \<Rightarrow> 500)"
proof -
  note v = arrives_findUserReq [OF assms(1)]
  have "last_segment ''/users/'' (vi_path v) = Some (uuid_String i)"
    by (simp add: last_segment_Some v(2) uuid_String_no_slash)
  then have s: "serve (si_clean site) user_routes (vi_meth v) (vi_path v) =
      Served public_chain FindUserByIdE [(''userId'', uuid_String i)]"
    using v unfolding user_routes_serve [of "si_clean site", OF assms(2)] by auto
  obtain st' out where f: "UserService_FindUserById (si_ops site) (vi_env v) i st = (st', out)" by (metis surj_pair)
  have "\<exists>r. out = Ret r" using f
    by (auto simp: UserService_FindUserById_def split: option.splits sum.splits prod.splits)
  then obtain r where r: "out = Ret r" by blast
  show ?thesis
    using f r by (cases r)
      (auto simp: user_reply_def ask_def run_service_served [OF s] public1_def Logging_def RecoverPanic_def
        user_handler_def UserController_FindUserById_def answer_def reply_with_id failed_def success_def status_read_def)
qed

text \<open>With typed tables and a typed cache: 200 exactly for the users in the table.\<close>

lemma known_users_are_registered:
  assumes "proper_db (ss_db st)" and "cache_typed (si_ops site) (ss_db st) (ss_cache st)"
    and "arrives (findUserReq i requestId) AtUsers v" and "si_clean site (vi_path v) = vi_path v"
    and "qe_fault (vi_env v) 0 = None" and "\<forall>w. fst (JSONSet (si_ops site) (user_key i) w (ss_cache st)) = None"
  shows "status_read (user_reply site v st) = Inr 200 \<longleftrightarrow> i \<in> user_ID ` set (db_users (ss_db st))"
proof -
  let ?f = "UserService_FindUserById (si_ops site) (vi_env v) i st"
  have "i \<in> user_ID ` set (db_users (ss_db st))" if "?f = (st', Ret (Inr user))" for st' user
    using typed_user_found [OF conjI [OF assms(1,2)] that] by blast
  moreover have "\<exists>st' user. ?f = (st', Ret (Inr user))" if i: "i \<in> user_ID ` set (db_users (ss_db st))"
  proof (cases "cache_hit (si_ops site) (user_key i) (ss_cache st)")
    case None
    from i have "filter (\<lambda>u. user_ID u = i) (db_users (ss_db st)) \<noteq> []" by (auto simp: filter_empty_conv)
    then obtain user where "FindById (ss_db st) i = Inr user"
      by (cases "FindById (ss_db st) i") (auto simp: FindById_def one_row_Inl_iff)
    moreover obtain cache' where "JSONSet (si_ops site) (user_key i) (user_row_json user) (ss_cache st) = (None, cache')"
      using assms(6) by (metis prod.collapse)
    ultimately show ?thesis using None assms(5) by (simp add: UserService_FindUserById_def db_call_def)
  next
    case (Some j)
    with assms(2) obtain u where "u \<in> set (db_users (ss_db st))" "j = user_row_json u"
      using typed_hit unfolding typed_entry_def by metis
    with Some assms(1) show ?thesis by (auto simp: UserService_FindUserById_def user_codec.dec_enc proper_db_def)
  qed
  ultimately show ?thesis
    unfolding user_service_replies [OF assms(3,4)]
    by (auto split: prod.splits outcome.splits sum.splits)
qed

end
