(* ===== verification/PeerClaims.thy ===== *)
theory PeerClaims
  imports Checkouts Peers SystemClaims CartClaims
begin

text \<open>
  What the services tell each other, from end to end: what a confirmation of the order service is worth,
  there and at the cart service that asked for it, and what the user service says about a user. The
  instance sends one order through the desk of the small shop.
\<close>

section \<open>Confirmations of the order service\<close>

text \<open>C2: whenever a handler of \<open>POST /orders/checkout\<close> replies 201, however its wait, the worker, the other
  handlers and the other services interleave, the order of its request is in the table of the orders with
  at least one item, and it stays there: no confirmation is given for an order that was not written.\<close>

theorem confirmed_checkouts_are_placed:
  assumes "desk_run site db0 d" and "db_ok db0"
    and "dk_talks d n = Some (Ended v o1 wait)" and "talk_confirmed site v wait w"
  shows "placed (w_db (dk_worker d)) (co_ID o1) \<and>
    (\<forall>d'. (desk_step site)\<^sup>*\<^sup>* d d' \<longrightarrow> placed (w_db (dk_worker d')) (co_ID o1))"
  using confirmed_placed [OF assms] desk_steps_grow placed_grows by blast

text \<open>A request that finds the queue empty and is served: the conversation until its confirmation.\<close>

abbreviation order_visit :: "create_order \<Rightarrow> visit" where
  "order_visit o1 \<equiv> web_visit ''POST'' ''/orders/checkout'' (create_order_json o1)"

abbreviation sent_order :: "create_order \<Rightarrow> create_order" where
  "sent_order o1 \<equiv> (plain_order o1)\<lparr>co_ResultChannel := Some 0\<rparr>"

lemma web_talk:
  "\<forall>e. wait \<noteq> QueueTimeout e \<Longrightarrow> fst (talk web_site (order_visit o1) wait w) = enqueue (plain_order o1) w"
  "res_Err m = None \<Longrightarrow> talk_confirmed web_site (order_visit o1) (Arrived m) w"
proof -
  have t: "talk web_site (order_visit o1) wait w = ask web_site (order_visit o1) order_routes
      (order_handler None None (\<lambda>b. None) wait) w" for wait
    by (simp add: talk_def) (simp add: web_site_def web_visit_def)
  show "\<forall>e. wait \<noteq> QueueTimeout e \<Longrightarrow> fst (talk web_site (order_visit o1) wait w) = enqueue (plain_order o1) w"
    by (simp add: t web_ask)
  show "res_Err m = None \<Longrightarrow> talk_confirmed web_site (order_visit o1) (Arrived m) w"
    by (simp add: talk_confirmed_def t web_ask result_reply_def replied_body web_user_ctx_def)
qed

lemma sole_order_confirmed:
  assumes "batch_valid db [sent_order o1]" and "confirmed db [sent_order o1] (co_ID o1)"
    and "db_ok db" and "stock_nonneg db" and "env_enumerates env [sent_order o1]" and "no_faults env"
  shows "\<exists>d m. desk_run web_site db d \<and> dk_talks d 0 = Some (Ended (order_visit o1) (plain_order o1) (Arrived m)) \<and>
    talk_confirmed web_site (order_visit o1) (Arrived m) (dk_worker d)"
proof -
  let ?v = "order_visit o1"
  let ?d1 = "(desk_start db)\<lparr>dk_worker := enqueue (plain_order o1) (worker_start db),
    dk_talks := Map.empty(0 \<mapsto> Waiting ?v (plain_order o1))\<rparr>"
  have "desk_step web_site (desk_start db) ?d1"
    using desk_queue [of web_site ?v "desk_start db" "plain_order o1"] web_talk(1) [of "vi_wait ?v"]
    by (simp add: desk_start_def worker_start_def crashed_def queue_capacity_def web_visit_def)
  then have r1: "desk_run web_site db ?d1" by (rule r_into_rtranclp)
  let ?w = "receive (enqueue (plain_order o1) (worker_start db))"
  have w: "w_status ?w = Running" "w_batch ?w = [sent_order o1]" "w_db ?w = db" "w_next ?w = 1" "w_waiting ?w = {0}"
    and ch: "w_chans ?w 0 = chan_made"
    by (simp_all add: receive_def enqueue_def worker_start_def)
  have "desk_step web_site ?d1 (?d1\<lparr>dk_worker := ?w\<rparr>)"
    by (rule desk_worker, simp, rule step_receive) (simp_all add: enqueue_def worker_start_def receive_def)
  with r1 have r2: "desk_run web_site db (?d1\<lparr>dk_worker := ?w\<rparr>)" by (rule rtranclp.rtrancl_into_rtrancl)
  have ready: "channels_ready [sent_order o1] (w_chans ?w)" using ch by (simp add: channels_ready_def)
  have wf: "batch_wf [sent_order o1]" using assms(1) by (simp add: batch_valid_def batch_admitted_def)
  obtain bd db' res cs' where b: "batch_decide env db [sent_order o1] = Ret (Inr bd)" "batch_write env bd db = Inr (db', res)"
    "BatchCreateOrder env db (w_chans ?w) [sent_order o1] = (db', Ret (cs', Inr res))"
    using admitted_batch_commits [OF _ _ assms(3-6) ready] assms(1) totals_nonneg_fit by (auto simp: batch_valid_def)
  let ?t = "tick env ?w" and ?m = "order_result_of res (sent_order o1)"
  have m: "cs' 0 = answered ?m"
    using BatchCreateOrder_answers [OF b(3) _ ready] by simp
  have none: "res_Err ?m = None"
    using response_of [OF wf b(1,2) assms(3,5), of "sent_order o1"] assms(2) by (simp add: order_result_of_def)
  have t: "w_status ?t = Running" "w_chans ?t = cs'" "w_waiting ?t = {0}" "w_next ?t = 1"
    using b(3) w by (simp_all add: tick_def)
  let ?d3 = "?d1\<lparr>dk_worker := ?t\<rparr>"
  have "desk_step web_site (?d1\<lparr>dk_worker := ?w\<rparr>) ?d3"
    using desk_worker [of "?d1\<lparr>dk_worker := ?w\<rparr>" ?t web_site] step_tick [of ?w env] w t assms(5) by simp
  with r2 have r3: "desk_run web_site db ?d3" by (rule rtranclp.rtrancl_into_rtrancl)
  have "desk_step web_site ?d3 (?d3\<lparr>dk_worker := take_result 0 ?t,
      dk_talks := (dk_talks ?d3)(0 \<mapsto> Ended ?v (plain_order o1) (Arrived ?m))\<rparr>)"
    using desk_result [of ?d3 0 ?v "plain_order o1" ?m "[]" web_site] t m by (simp add: crashed_def answered_def)
  with r3 show ?thesis using web_talk(2) [OF none] by (fastforce dest: rtranclp.rtrancl_into_rtrancl)
qed

lemma one_order_confirmed:
  "\<exists>d m. desk_run web_site shop_db d \<and>
     dk_talks d 0 = Some (Ended checkout_visit (plain_order (shop_order 10 20 2 0)) (Arrived m)) \<and>
     talk_confirmed web_site checkout_visit (Arrived m) (dk_worker d)"
proof -
  let ?o = "shop_order 10 20 2 0"
  have p: "sent_order ?o = ?o"
    by (simp add: plain_order_def plain_order_item_def shop_order_def shop_item_def shop_price_def plain_decimal_id
        decimal_Coefficient_def)
  have "kept shop_db [?o] (uid 2) = [shop_item 10 20 2 1]"
    by (simp add: kept_def retained_def fits_def shop_defs)
  then have "confirmed shop_db [?o] (co_ID ?o)"
    by (auto simp: confirmed_iff shop_order_def shop_item_def intro!: exI [of _ "uid 2"])
  then show ?thesis
    using sole_order_confirmed [of shop_db ?o one_env] one_order_valid shop_db_ok shop_stock unfolding p by blast
qed

theorem confirmed_checkouts_are_placed_witness:
  "\<exists>d m. desk_run web_site shop_db d \<and> talk_confirmed web_site checkout_visit (Arrived m) (dk_worker d) \<and>
     placed (w_db (dk_worker d)) (uid 10)"
proof -
  obtain d m where d: "desk_run web_site shop_db d"
    "dk_talks d 0 = Some (Ended checkout_visit (plain_order (shop_order 10 20 2 0)) (Arrived m))"
    "talk_confirmed web_site checkout_visit (Arrived m) (dk_worker d)"
    using one_order_confirmed by blast
  from confirmed_checkouts_are_placed [OF d(1) shop_db_ok d(2,3)] d show ?thesis by (auto simp: shop_order_def)
qed

section \<open>Carts that are checked out\<close>

text \<open>An order service whose answers are those of the desk: it says 201 only where some handler to which
  this request arrived said so.\<close>

definition answered_by_desk :: "'s site \<Rightarrow> desk \<Rightarrow> peers \<Rightarrow> bool" where
  "answered_by_desk site d ps \<longleftrightarrow> (\<forall>t o1 message. checkout_order ps t o1 = Inr (201, Inr message) \<longrightarrow>
     (\<exists>requestId n v o2 wait. dk_talks d n = Some (Ended v o2 wait) \<and>
        arrives (checkoutReq t o1 requestId) AtOrders v \<and> talk_confirmed site v wait (dk_worker d)))"

text \<open>C20: a cart that is checked out becomes an order. When \<open>CheckoutCart\<close> succeeds, the order made from the cart was
  handed over under the caller's own token and is in the order service's table with at least one item;
  and neither the database nor the cache has the cart any more, and no item of it is left.\<close>

theorem checked_out_carts_become_orders:
  assumes "cache_store ops" and "db_ok (ss_db st)"
    and "CartService_CheckoutCart ops ps env c jwt param st = (st', Ret (Inr cart))"
    and "desk_run site db0 d" and "db_ok db0" and "answered_by_desk site d ps"
  shows "placed (w_db (dk_worker d)) (sc_ID cart) \<and>
    (\<exists>message. checkout_order ps (''Bearer '' @ jwt_Raw jwt) (Cart_Order cart) = Inr (201, Inr message)) \<and>
    find_user ps (cc_UserId param) = Inr 200 \<and>
    cc_CartId param \<notin> cart_ID ` set (db_carts (ss_db st')) \<and>
    items_of_cart (ss_db st') (cc_CartId param) = [] \<and>
    cache_hit ops (cart_key (cc_CartId param)) (ss_cache st') = None"
proof -
  note gone = checkout_hands_over_and_removes [OF assms(1-3)]
  from gone assms(6) obtain n v o2 wait where talk: "dk_talks d n = Some (Ended v o2 wait)"
    "rq_body (vi_request v) = Inr (create_order_json (Cart_Order cart))" "talk_confirmed site v wait (dk_worker d)"
    unfolding answered_by_desk_def by (metis arrives_checkoutReq(4))
  from desk_asked [OF assms(4)] talk(1) obtain o3 where "asks_for site (AtOrders, v) o3" "co_ID o3 = co_ID o2" by blast
  with talk(2) cart_order_arrives [of cart] have "co_ID o2 = sc_ID cart"
    by (auto simp: asks_for_def decode_body_def Cart_Order_def)
  with confirmed_placed [OF assms(4,5) talk(1,3)] gone show ?thesis by simp
qed

text \<open>The cart of the example, in a shop whose user service knows everybody and whose order service is the desk.\<close>

definition desk_peers :: peers where
  "desk_peers = \<lparr>find_user = (\<lambda>u. Inr 200), checkout_order = (\<lambda>t o1.
     if t = ''Bearer t'' \<and> create_order_json o1 = create_order_json (Cart_Order (plain_cart demo_cart))
     then Inr (201, Inr ''ok'') else Inl redis_down)\<rparr>"

definition desk_jwt :: jwt_token where
  "desk_jwt = \<lparr>jwt_Raw = ''t'', jwt_Subject = uuid_String (uid 9), jwt_Valid = True\<rparr>"

definition demo_order_env :: batch_env where
  "demo_order_env = shop_env [uuid_String (uid 2)] [uuid_String (uid 30)]"

lemma demo_order:
  "sent_order (Cart_Order (plain_cart demo_cart)) = \<lparr>co_OrderItems = [\<lparr>roi_CreatedAt = 7, roi_UpdatedAt = 7, roi_ID = uid 31,
     roi_OrderID = uid 30, roi_ProductID = uid 2, roi_Price = shop_price, roi_Quantity = 1\<rparr>],
     co_CreatedAt = 7, co_UpdatedAt = 7, co_ID = uid 30, co_UserId = uid 1, co_ResultChannel = Some 0\<rparr>"
  by (simp add: plain_order_def plain_order_item_def Cart_Order_def cart_item_to_order_item_def plain_cart_def
      plain_cart_item_def demo_cart_def res_cart_item_of_row_def demo_row_def shop_price_def plain_decimal_id
      decimal_Coefficient_def decimal_Exponent_def numeric_of_decimal_def timestamptz_of_time_def)

lemma demo_order_confirmed:
  "\<exists>d m. desk_run web_site shop_db d \<and> dk_talks d 0 = Some (Ended (order_visit (Cart_Order (plain_cart demo_cart)))
       (plain_order (Cart_Order (plain_cart demo_cart))) (Arrived m)) \<and>
     talk_confirmed web_site (order_visit (Cart_Order (plain_cart demo_cart))) (Arrived m) (dk_worker d)"
proof (rule sole_order_confirmed [OF _ _ shop_db_ok shop_stock, where env = demo_order_env])
  let ?o = "sent_order (Cart_Order (plain_cart demo_cart))"
  show "batch_valid shop_db [?o]" unfolding demo_order
    by (simp add: batch_valid_def batch_admitted_def batch_wf_def quantities_fit_def shop_defs)
  have "kept shop_db [?o] (uid 2) = co_OrderItems ?o"
    unfolding demo_order by (simp add: kept_def retained_def fits_def shop_defs)
  then show "confirmed shop_db [?o] (co_ID (Cart_Order (plain_cart demo_cart)))"
    unfolding confirmed_iff demo_order by (auto simp: Cart_Order_def plain_cart_def demo_cart_def intro!: exI [of _ "uid 2"])
  show "env_enumerates demo_order_env [?o]"
    unfolding demo_order by (auto simp: env_enumerates_def enumerates_def mergeOrderItems_dom
        mergeOrderItems_mapOrder_dom demo_order_env_def shop_defs)
  show "no_faults demo_order_env" by (simp add: no_faults_def demo_order_env_def shop_env_def)
qed

theorem checked_out_carts_become_orders_witness:
  "\<exists>d. desk_run web_site shop_db d \<and> placed (w_db (dk_worker d)) (uid 30)"
proof -
  obtain d m where d: "desk_run web_site shop_db d"
    "dk_talks d 0 = Some (Ended (order_visit (Cart_Order (plain_cart demo_cart)))
       (plain_order (Cart_Order (plain_cart demo_cart))) (Arrived m))"
    "talk_confirmed web_site (order_visit (Cart_Order (plain_cart demo_cart))) (Arrived m) (dk_worker d)"
    using demo_order_confirmed by blast
  have a: "answered_by_desk web_site d desk_peers"
    unfolding answered_by_desk_def
  proof (intro allI impI)
    fix t o1 message
    assume "checkout_order desk_peers t o1 = Inr (201, Inr message)"
    then have "t = ''Bearer t''" "create_order_json o1 = create_order_json (Cart_Order (plain_cart demo_cart))"
      by (auto simp: desk_peers_def split: if_splits)
    moreover have "arrives (checkoutReq ''Bearer t'' o2 []) AtOrders (order_visit o3)"
      if "create_order_json o2 = create_order_json o3" for o2 o3
      using that by (simp add: arrives_def checkoutReq_def URL_ORDER_SERVICE_def MethodPost_def web_visit_def web_request_def)
    ultimately show "\<exists>requestId n v o2 wait. dk_talks d n = Some (Ended v o2 wait) \<and>
        arrives (checkoutReq t o1 requestId) AtOrders v \<and> talk_confirmed web_site v wait (dk_worker d)"
      using d(2,3) by metis
  qed
  obtain st' where st': "CartService_CheckoutCart redis_ops desk_peers demo_env demo_ctx desk_jwt demo_checkout demo_after =
      (st', Ret (Inr (plain_cart demo_cart)))"
    using demo_checks_out [of desk_peers desk_jwt "''ok''"] by (auto simp: desk_peers_def desk_jwt_def)
  have "db_ok (ss_db demo_after)" using demo_db_ok by (simp add: demo_after_def)
  from checked_out_carts_become_orders [OF redis_cache.cache_store_axioms this st' d(1) shop_db_ok a] d(1)
  show ?thesis by (auto simp: plain_cart_def demo_cart_def)
qed

section \<open>Users that are known\<close>

text \<open>C31: who has registered is known to the other services. A registration that succeeds, with the look-up of the
  address having answered, adds exactly one user with the address, the name and the hash of the password, and
  the address was new. After any history of the shop from there, the user service answers the question of the
  cart service about an identifier with 200 exactly when it is one of a registered user, if the call to the
  database and the write to the cache go through.\<close>

theorem registered_users_are_known:
  assumes "cache_store (si_ops site)" and "proper_db (ss_db st)" and "cache_typed (si_ops site) (ss_db st) (ss_cache st)"
    and "UserService_Register (si_ops site) (si_crypto site) env param st = (st', Ret (Inr user))" and "qe_fault env 0 = None"
    and "st2 = shop_run (si_ops site) ps (si_crypto site) h st'"
    and "arrives (findUserReq i requestId) AtUsers v" and "si_clean site (vi_path v) = vi_path v"
    and "qe_fault (vi_env v) 0 = None" and "\<forall>w. fst (JSONSet (si_ops site) (user_key i) w (ss_cache st2)) = None"
  shows "rr_Email param \<notin> user_Email ` set (db_users (ss_db st)) \<and>
    db_users (ss_db st') = db_users (ss_db st) @ [user] \<and> user_Email user = rr_Email param \<and>
    user_Username user = rr_Username param \<and>
    GenerateFromPassword (si_crypto site) (rr_Password param) = Inr (user_Password user) \<and>
    user \<in> set (db_users (ss_db st2)) \<and>
    (status_read (user_reply site v st2) = Inr 200 \<longleftrightarrow> i \<in> user_ID ` set (db_users (ss_db st2)))"
proof -
  note new = register_adds_one_user [OF assms(4,5)]
  have "shop_run (si_ops site) ps (si_crypto site) [OpRegister env param] st = st'"
    using assms(4) by (simp add: shop_run_def)
  with history_typed [OF assms(1-3), of ps "si_crypto site" "[OpRegister env param]"]
  have "proper_db (ss_db st')" "cache_typed (si_ops site) (ss_db st') (ss_cache st')" by auto
  from history_typed [OF assms(1) this, of ps "si_crypto site" h]
  have typed: "proper_db (ss_db st2)" "cache_typed (si_ops site) (ss_db st2) (ss_cache st2)" using assms(6) by auto
  have "prefix (db_users (ss_db st')) (db_users (ss_db st2))"
    using shop_run_grows [of st' "si_ops site" ps "si_crypto site" h] assms(6) by (simp add: grows_def)
  with new have "user \<in> set (db_users (ss_db st2))" using set_mono_prefix by fastforce
  with new known_users_are_registered [OF typed assms(7-10)] show ?thesis by blast
qed

definition bob :: register_request where
  "bob = \<lparr>rr_Username = ''bob'', rr_Email = ''bob@shop'', rr_Password = ''x''\<rparr>"

definition bob_row :: user_row where
  "bob_row = \<lparr>user_ID = uid 50, user_Username = ''bob'', user_Email = ''bob@shop'', user_Password = ''hash'',
     user_CreatedAt = timestamptz_of_time 9, user_UpdatedAt = timestamptz_of_time 9\<rparr>"

definition bob_state :: "redis shop_state" where
  "bob_state = \<lparr>ss_db = shop_db\<lparr>db_users := [shop_user, bob_row]\<rparr>,
     ss_cache = \<lparr>rd_keys = [user_key (uid 50) \<mapsto> RJson (user_row_json bob_row)], rd_down = False\<rparr>\<rparr>"

lemma bob_registers: "UserService_Register redis_ops web_crypto web_env bob web_state = (bob_state, Ret (Inr bob_row))"
  by (simp add: UserService_Register_def db_call_def FindByEmail_def one_row_def InsertUser_def Let_def bob_def
      web_env_def web_state_def web_crypto_def shop_db_def shop_user_def redis_set bob_state_def bob_row_def)

definition ask_for_bob :: visit where
  "ask_for_bob = (web_visit ''GET'' (''/users/'' @ uuid_String (uid 50)) JNull)\<lparr>vi_request := web_request\<rparr>"

theorem registered_users_are_known_witness:
  "UserService_Register redis_ops web_crypto web_env bob web_state = (bob_state, Ret (Inr bob_row)) \<and>
   status_read (user_reply web_site ask_for_bob bob_state) = Inr 200"
proof -
  have site: "si_ops web_site = redis_ops" "si_crypto web_site = web_crypto" "si_clean web_site p = p" for p
    by (simp_all add: web_site_def)
  have a: "arrives (findUserReq (uid 50) []) AtUsers ask_for_bob" "qe_fault (vi_env ask_for_bob) 0 = None"
    by (simp_all add: arrives_def findUserReq_def URL_USER_SERVICE_def MethodGet_def ask_for_bob_def web_visit_def
        web_request_def web_env_def)
  have w: "\<forall>w. fst (JSONSet redis_ops (user_key (uid 50)) w (ss_cache bob_state)) = None"
    by (simp add: redis_set bob_state_def)
  have "qe_fault web_env 0 = None" by (simp add: web_env_def)
  from registered_users_are_known [of web_site web_state web_env bob bob_state bob_row bob_state web_peers "[]" "uid 50",
    unfolded site, OF redis_cache.cache_store_axioms web_typed bob_registers this _ a(1) refl a(2) w]
  have "status_read (user_reply web_site ask_for_bob bob_state) = Inr 200 \<longleftrightarrow>
      uid 50 \<in> user_ID ` set (db_users (ss_db bob_state))"
    by (simp add: shop_run_def)
  moreover have "uid 50 \<in> user_ID ` set (db_users (ss_db bob_state))" by (simp add: bob_state_def bob_row_def)
  ultimately show ?thesis using bob_registers by simp
qed

end
