(* ===== verification/Migrations.thy ===== *)
theory Migrations
  imports Repository
begin

text \<open>
  The schema scripts of \<open>migrations/\<close> and golang-migrate, which runs them:
  \<open>migrate.go\<close> (\<open>Up\<close>, \<open>Down\<close>, \<open>readUp\<close>, \<open>readDown\<close>, \<open>runMigrations\<close>), the index of
  \<open>source/migration.go\<close> and the Postgres driver's version table. Each call to the driver may
  fail; a script is one implicit transaction, so a script that fails leaves no trace.
  Reading a script that exists never fails here, and nobody sends on \<open>GracefulStop\<close>.
\<close>

section \<open>Scripts\<close>

datatype table_name = Users | Products | Carts | CartItems | Orders | OrderItems

text \<open>The statements of the scripts. A table comes with the tables its columns reference and the
  enum types they have; its columns are those of the row records.\<close>

datatype ddl =
    DropIndexIfExists string
  | DropTableIfExists table_name
  | DropTypeIfExists string
  | CreateTypeEnum string "string list"
  | CreateTableIfNotExists table_name "table_name list" "string list"
  | CreateIndexIfNotExists string table_name

definition users_up :: "ddl list" where
  "users_up = [CreateTableIfNotExists Users [] [],
     CreateIndexIfNotExists ''idx_username'' Users, CreateIndexIfNotExists ''idx_email'' Users]"

definition users_down :: "ddl list" where
  "users_down = [DropIndexIfExists ''idx_username'', DropIndexIfExists ''idx_email'',
     DropTableIfExists Users]"

definition products_up :: "ddl list" where
  "products_up = [CreateTableIfNotExists Products [] [],
     CreateIndexIfNotExists ''idx_product_name'' Products]"

definition products_down :: "ddl list" where
  "products_down = [DropIndexIfExists ''idx_product_name'', DropTableIfExists Products]"

definition carts_up :: "ddl list" where
  "carts_up = [CreateTableIfNotExists Carts [Users] [],
     CreateTableIfNotExists CartItems [Carts, Products] []]"

definition carts_down :: "ddl list" where
  "carts_down = [DropTableIfExists CartItems, DropTableIfExists Carts]"

definition orders_up :: "ddl list" where
  "orders_up = [CreateTypeEnum ''order_status''
       [''WAITING_PAYMENT'', ''SHIPPING'', ''COMPLETED'', ''EXPIRED'', ''CANCELLED''],
     CreateTableIfNotExists Orders [Users] [''order_status''],
     CreateTableIfNotExists OrderItems [Orders, Products] []]"

definition orders_down :: "ddl list" where
  "orders_down = [DropTableIfExists OrderItems, DropTableIfExists Orders,
     DropTypeIfExists ''order_status'']"

lemmas scripts = users_up_def users_down_def products_up_def products_down_def carts_up_def
  carts_down_def orders_up_def orders_down_def

section \<open>The catalog\<close>

text \<open>\<open>cat_version\<close> is the row of \<open>schema_migrations\<close>: a version and whether it is dirty.\<close>

record catalog =
  cat_tables :: "(table_name \<times> table_name list \<times> string list) list"
  cat_types :: "string list"
  cat_indexes :: "(string \<times> table_name) list"
  cat_db :: database
  cat_version :: "(int \<times> bool) option"

definition db_empty :: database where
  "db_empty = \<lparr>db_users = [], db_products = [], db_carts = [], db_cart_items = [],
     db_orders = [], db_order_items = []\<rparr>"

fun drop_rows :: "table_name \<Rightarrow> database \<Rightarrow> database" where
  "drop_rows Users db = db\<lparr>db_users := []\<rparr>"
| "drop_rows Products db = db\<lparr>db_products := []\<rparr>"
| "drop_rows Carts db = db\<lparr>db_carts := []\<rparr>"
| "drop_rows CartItems db = db\<lparr>db_cart_items := []\<rparr>"
| "drop_rows Orders db = db\<lparr>db_orders := []\<rparr>"
| "drop_rows OrderItems db = db\<lparr>db_order_items := []\<rparr>"

definition has_table :: "catalog \<Rightarrow> table_name \<Rightarrow> bool" where
  "has_table cat t \<longleftrightarrow> t \<in> set (map fst (cat_tables cat))"

text \<open>A table others reference, or a type a column has, cannot be dropped without \<open>CASCADE\<close>.\<close>

definition referenced :: "catalog \<Rightarrow> table_name \<Rightarrow> bool" where
  "referenced cat t \<longleftrightarrow> list_ex (\<lambda>(t', refs, tys). t' \<noteq> t \<and> t \<in> set refs) (cat_tables cat)"

definition type_used :: "catalog \<Rightarrow> string \<Rightarrow> bool" where
  "type_used cat ty \<longleftrightarrow> list_ex (\<lambda>(t, refs, tys). ty \<in> set tys) (cat_tables cat)"

definition pg_error :: "string \<Rightarrow> go_error" where
  "pg_error msg = ErrNew (''migration failed: '' @ msg)"

fun exec_ddl :: "catalog \<Rightarrow> ddl \<Rightarrow> go_error + catalog" where
  "exec_ddl cat (DropIndexIfExists i) =
     Inr (cat\<lparr>cat_indexes := filter (\<lambda>(j, t). j \<noteq> i) (cat_indexes cat)\<rparr>)"
| "exec_ddl cat (DropTableIfExists t) =
     (if \<not> has_table cat t then Inr cat
      else if referenced cat t then Inl (pg_error ''cannot drop table because other objects depend on it'')
      else Inr (cat\<lparr>cat_tables := filter (\<lambda>(t', refs, tys). t' \<noteq> t) (cat_tables cat),
                    cat_indexes := filter (\<lambda>(j, t'). t' \<noteq> t) (cat_indexes cat),
                    cat_db := drop_rows t (cat_db cat)\<rparr>))"
| "exec_ddl cat (DropTypeIfExists ty) =
     (if ty \<notin> set (cat_types cat) then Inr cat
      else if type_used cat ty then Inl (pg_error ''cannot drop type because other objects depend on it'')
      else Inr (cat\<lparr>cat_types := removeAll ty (cat_types cat)\<rparr>))"
| "exec_ddl cat (CreateTypeEnum ty vs) =
     (if ty \<in> set (cat_types cat) then Inl (pg_error ''type already exists'')
      else Inr (cat\<lparr>cat_types := cat_types cat @ [ty]\<rparr>))"
| "exec_ddl cat (CreateTableIfNotExists t refs tys) =
     (if has_table cat t then Inr cat
      else if \<not> list_all (\<lambda>t'. t' = t \<or> has_table cat t') refs then Inl (pg_error ''relation does not exist'')
      else if \<not> list_all (\<lambda>ty. ty \<in> set (cat_types cat)) tys then Inl (pg_error ''type does not exist'')
      else Inr (cat\<lparr>cat_tables := cat_tables cat @ [(t, refs, tys)]\<rparr>))"
| "exec_ddl cat (CreateIndexIfNotExists i t) =
     (if i \<in> set (map fst (cat_indexes cat)) then Inr cat
      else if \<not> has_table cat t then Inl (pg_error ''relation does not exist'')
      else Inr (cat\<lparr>cat_indexes := cat_indexes cat @ [(i, t)]\<rparr>))"

fun exec_script :: "catalog \<Rightarrow> ddl list \<Rightarrow> go_error + catalog" where
  "exec_script cat [] = Inr cat"
| "exec_script cat (s # ss) = if_ok (exec_ddl cat s) (\<lambda>cat'. exec_script cat' ss)"

section \<open>The source of migrations\<close>

record migration_files =
  mf_version :: nat
  mf_up :: "ddl list option"
  mf_down :: "ddl list option"

text \<open>The files of \<open>migrations/\<close>.\<close>

definition shop_migrations :: "migration_files list" where
  "shop_migrations =
     [\<lparr>mf_version = 20241112144824, mf_up = Some users_up, mf_down = Some users_down\<rparr>,
      \<lparr>mf_version = 20241118072912, mf_up = Some products_up, mf_down = Some products_down\<rparr>,
      \<lparr>mf_version = 20241119141816, mf_up = Some carts_up, mf_down = Some carts_down\<rparr>,
      \<lparr>mf_version = 20241125115439, mf_up = Some orders_up, mf_down = Some orders_down\<rparr>]"

text \<open>\<open>buildIndex\<close>: the versions, sorted. \<open>First\<close>, \<open>Prev\<close> and \<open>Next\<close> look at neighbours in it; in
  a sorted index the neighbours are the next smaller and the next greater version.\<close>

definition source_index :: "migration_files list \<Rightarrow> nat list" where
  "source_index src = sort (remdups (map mf_version src))"

definition First :: "migration_files list \<Rightarrow> nat option" where
  "First src = (case source_index src of [] \<Rightarrow> None | v # vs \<Rightarrow> Some v)"

definition Prev :: "migration_files list \<Rightarrow> nat \<Rightarrow> nat option" where
  "Prev src v =
     (if v \<notin> set (source_index src) then None
      else case filter (\<lambda>u. u < v) (source_index src) of [] \<Rightarrow> None | us \<Rightarrow> Some (last us))"

definition Next_version :: "migration_files list \<Rightarrow> nat \<Rightarrow> nat option" where
  "Next_version src v =
     (if v \<notin> set (source_index src) then None
      else case filter (\<lambda>u. v < u) (source_index src) of [] \<Rightarrow> None | u # us \<Rightarrow> Some u)"

definition ReadUp :: "migration_files list \<Rightarrow> nat \<Rightarrow> ddl list option" where
  "ReadUp src v = (case find (\<lambda>m. mf_version m = v) src of None \<Rightarrow> None | Some m \<Rightarrow> mf_up m)"

definition ReadDown :: "migration_files list \<Rightarrow> nat \<Rightarrow> ddl list option" where
  "ReadDown src v = (case find (\<lambda>m. mf_version m = v) src of None \<Rightarrow> None | Some m \<Rightarrow> mf_down m)"

section \<open>Which migrations run\<close>

definition ErrNoChange :: go_error where
  "ErrNoChange = ErrVar ''migrate.ErrNoChange'' ''no change''"

definition ErrLocked :: go_error where
  "ErrLocked = ErrVar ''migrate.ErrLocked'' ''database locked''"

definition ErrNotExist :: go_error where
  "ErrNotExist = ErrVar ''os.ErrNotExist'' ''file does not exist''"

definition ErrDirty :: "int \<Rightarrow> go_error" where
  "ErrDirty v = ErrNew (''Dirty database version '' @ format_d v @ ''. Fix and force version.'')"

text \<open>A \<open>*Migration\<close>: the target version and the body, if there is a file.\<close>

record migration =
  mg_target :: int
  mg_body :: "ddl list option"

definition newMigration :: "migration_files list \<Rightarrow> nat \<Rightarrow> int \<Rightarrow> migration" where
  "newMigration src version target =
     \<lparr>mg_target = target,
      mg_body = (if int version \<le> target then ReadUp src version else ReadDown src version)\<rparr>"

definition versionExists :: "migration_files list \<Rightarrow> nat \<Rightarrow> go_error option" where
  "versionExists src v =
     (if ReadUp src v \<noteq> None \<or> ReadDown src v \<noteq> None then None
      else Some (ErrWrap (''no migration found for version '' @ format_d (int v) @ '': '') ErrNotExist))"

lemma Prev_less: "Prev src v = Some u \<Longrightarrow> u \<in> set (source_index src) \<and> u < v"
  using last_in_set [of "filter (\<lambda>u. u < v) (source_index src)"]
  by (auto simp: Prev_def split: if_splits list.splits)

lemma Next_greater: "Next_version src v = Some u \<Longrightarrow> u \<in> set (source_index src) \<and> v < u"
  using list.set_intros(1)
  by (fastforce simp: Next_version_def split: if_splits list.splits dest: filter_eq_ConsD)

lemma shorter_filter:
  assumes "u \<in> set xs" and "P u" and "\<not> Q u" and "\<And>x. Q x \<Longrightarrow> P x"
  shows "length (filter Q xs) < length (filter P xs)"
proof -
  have "filter Q xs = filter Q (filter P xs)"
    using assms(4) by (simp add: conj_absorb) (metis filter_cong)
  moreover have "\<exists>x \<in> set (filter P xs). \<not> Q x" using assms(1-3) by auto
  ultimately show ?thesis by (metis length_filter_less)
qed

text \<open>
  \<open>readDown\<close> and \<open>readUp\<close> without a limit: what they put on the channel, migrations and possibly an
  error at the end. Version \<open>-1\<close> is "nothing applied".
\<close>

function readDown_loop :: "migration_files list \<Rightarrow> nat \<Rightarrow> (go_error + migration) list" where
  "readDown_loop src from1 =
     (case Prev src from1 of
        None \<Rightarrow>
          (case First src of
             None \<Rightarrow> [Inl ErrNotExist]
           | Some firstVersion \<Rightarrow> [Inr (newMigration src firstVersion (-1))])
      | Some prev \<Rightarrow> Inr (newMigration src from1 (int prev)) # readDown_loop src prev)"
  by auto
termination
  by (relation "measure (\<lambda>(src, v). length (filter (\<lambda>u. u < v) (source_index src)))")
    (auto dest!: Prev_less intro!: shorter_filter)

definition readDown :: "migration_files list \<Rightarrow> int \<Rightarrow> (go_error + migration) list" where
  "readDown src from1 =
     (if 0 \<le> from1 \<and> versionExists src (nat from1) \<noteq> None
      then [Inl (the (versionExists src (nat from1)))]
      else if from1 = -1 then [Inl ErrNoChange]
      else readDown_loop src (nat from1))"

function readUp_loop :: "migration_files list \<Rightarrow> nat \<Rightarrow> nat \<Rightarrow> (go_error + migration) list" where
  "readUp_loop src from1 applied =
     (case Next_version src from1 of
        None \<Rightarrow> (if applied = 0 then [Inl ErrNoChange] else [])
      | Some next1 \<Rightarrow> Inr (newMigration src next1 (int next1)) # readUp_loop src next1 (Suc applied))"
  by auto
termination
  by (relation "measure (\<lambda>(src, v, n). length (filter (\<lambda>u. v < u) (source_index src)))")
    (auto dest!: Next_greater intro!: shorter_filter)

definition readUp :: "migration_files list \<Rightarrow> int \<Rightarrow> (go_error + migration) list" where
  "readUp src from1 =
     (if 0 \<le> from1 \<and> versionExists src (nat from1) \<noteq> None
      then [Inl (the (versionExists src (nat from1)))]
      else if from1 = -1 then
        (case First src of
           None \<Rightarrow> [Inl ErrNotExist]
         | Some firstVersion \<Rightarrow>
             Inr (newMigration src firstVersion (int firstVersion)) # readUp_loop src firstVersion 1)
      else readUp_loop src (nat from1) 0)"

declare readDown_loop.simps [simp del] readUp_loop.simps [simp del]

section \<open>Running them\<close>

text \<open>The calls to the database driver, each of which may fail.\<close>

datatype driver_call = DLock | DUnlock | DVersion | DSetVersion int bool | DRun int

type_synonym driver_faults = "driver_call \<Rightarrow> go_error option"

text \<open>\<open>mig_locked\<close> is the flag \<open>isLocked\<close> of the \<open>Migrate\<close> object.\<close>

record migrator =
  mig_locked :: bool
  mig_cat :: catalog

definition SetVersion :: "driver_faults \<Rightarrow> int \<Rightarrow> bool \<Rightarrow> catalog \<Rightarrow> go_error option \<times> catalog" where
  "SetVersion f version dirty cat =
     (case f (DSetVersion version dirty) of
        Some e \<Rightarrow> (Some e, cat)
      | None \<Rightarrow> (None, cat\<lparr>cat_version :=
                   (if 0 \<le> version \<or> (version = -1 \<and> dirty) then Some (version, dirty) else None)\<rparr>))"

definition Version :: "driver_faults \<Rightarrow> catalog \<Rightarrow> go_error + (int \<times> bool)" where
  "Version f cat =
     (case f DVersion of
        Some e \<Rightarrow> Inl e
      | None \<Rightarrow> Inr (case cat_version cat of None \<Rightarrow> (-1, False) | Some vd \<Rightarrow> vd))"

definition Run :: "driver_faults \<Rightarrow> migration \<Rightarrow> catalog \<Rightarrow> go_error option \<times> catalog" where
  "Run f m cat =
     (case mg_body m of
        None \<Rightarrow> (None, cat)
      | Some body \<Rightarrow>
          (case f (DRun (mg_target m)) of
             Some e \<Rightarrow> (Some e, cat)
           | None \<Rightarrow> (case exec_script cat body of Inl e \<Rightarrow> (Some e, cat) | Inr cat' \<Rightarrow> (None, cat'))))"

definition run_one :: "driver_faults \<Rightarrow> migration \<Rightarrow> catalog \<Rightarrow> go_error option \<times> catalog" where
  "run_one f m cat =
     (case SetVersion f (mg_target m) True cat of
        (Some e, cat1) \<Rightarrow> (Some e, cat1)
      | (None, cat1) \<Rightarrow>
          (case Run f m cat1 of
             (Some e, cat2) \<Rightarrow> (Some e, cat2)
           | (None, cat2) \<Rightarrow> SetVersion f (mg_target m) False cat2))"

fun runMigrations :: "driver_faults \<Rightarrow> (go_error + migration) list \<Rightarrow> catalog \<Rightarrow> go_error option \<times> catalog" where
  "runMigrations f [] cat = (None, cat)"
| "runMigrations f (Inl e # rs) cat = (Some e, cat)"
| "runMigrations f (Inr m # rs) cat =
     (case run_one f m cat of
        (Some e, cat') \<Rightarrow> (Some e, cat')
      | (None, cat') \<Rightarrow> runMigrations f rs cat')"

definition unlockErr :: "driver_faults \<Rightarrow> go_error option \<times> catalog \<Rightarrow> go_error option \<times> migrator" where
  "unlockErr f r =
     (case f DUnlock of
        Some e \<Rightarrow> (errors_Join [fst r, Some e], \<lparr>mig_locked = True, mig_cat = snd r\<rparr>)
      | None \<Rightarrow> (fst r, \<lparr>mig_locked = False, mig_cat = snd r\<rparr>))"

text \<open>\<open>Up\<close> and \<open>Down\<close> differ in what they read.\<close>

definition locked_run :: "(int \<Rightarrow> (go_error + migration) list) \<Rightarrow> driver_faults \<Rightarrow> migrator \<Rightarrow>
    go_error option \<times> migrator" where
  "locked_run read f m =
     (if mig_locked m then (Some ErrLocked, m)
      else case f DLock of
        Some e \<Rightarrow> (Some e, m)
      | None \<Rightarrow>
          unlockErr f
            (case Version f (mig_cat m) of
               Inl e \<Rightarrow> (Some e, mig_cat m)
             | Inr (curVersion, dirty) \<Rightarrow>
                 if dirty then (Some (ErrDirty curVersion), mig_cat m)
                 else runMigrations f (read curVersion) (mig_cat m)))"

definition Up :: "migration_files list \<Rightarrow> driver_faults \<Rightarrow> migrator \<Rightarrow> go_error option \<times> migrator" where
  "Up src = locked_run (readUp src)"

definition Down :: "migration_files list \<Rightarrow> driver_faults \<Rightarrow> migrator \<Rightarrow> go_error option \<times> migrator" where
  "Down src = locked_run (readDown src)"

end
