(* ===== verification/MigrationLaws.thy ===== *)
theory MigrationLaws
  imports Migrations
begin

text \<open>
  What the migrations of the shop do, with any failures of the driver: from a schema at rest, \<open>Down\<close>
  drops every table or stops on the way, \<open>Up\<close> creates every table or stops on the way, and what is
  left is again at rest or marked dirty. A dirty schema is never touched again.
\<close>

section \<open>Schemas at rest\<close>

definition empty_catalog :: catalog where
  "empty_catalog = \<lparr>cat_tables = [], cat_types = [], cat_indexes = [], cat_db = db_empty, cat_version = None\<rparr>"

definition ver :: "nat \<Rightarrow> int" where
  "ver k = (if k = 0 then -1 else int (mf_version (shop_migrations ! (k - 1))))"

definition up_script :: "nat \<Rightarrow> ddl list" where
  "up_script k = [[], users_up, products_up, carts_up, orders_up] ! k"

definition down_script :: "nat \<Rightarrow> ddl list" where
  "down_script k = [[], users_down, products_down, carts_down, orders_down] ! k"

text \<open>The schema after the first \<open>k\<close> up scripts.\<close>

primrec schema :: "nat \<Rightarrow> catalog" where
  "schema 0 = empty_catalog"
| "schema (Suc k) = (case exec_script (schema k) (up_script (Suc k)) of Inr cat \<Rightarrow> cat | Inl e \<Rightarrow> schema k)"

definition version_row :: "nat \<Rightarrow> (int \<times> bool) option" where
  "version_row k = (if k = 0 then None else Some (ver k, False))"

text \<open>The first \<open>k\<close> scripts have run; the tables hold any rows, and there are no rows without a table.\<close>

definition rows_in :: "nat \<Rightarrow> database \<Rightarrow> bool" where
  "rows_in k db \<longleftrightarrow> (\<forall>t. \<not> has_table (schema k) t \<longrightarrow> drop_rows t db = db)"

definition at_rest :: "nat \<Rightarrow> catalog \<Rightarrow> bool" where
  "at_rest k cat \<longleftrightarrow> k \<le> 4 \<and> rows_in k (cat_db cat) \<and>
     cat = (schema k)\<lparr>cat_db := cat_db cat, cat_version := version_row k\<rparr>"

definition dirty :: "catalog \<Rightarrow> bool" where
  "dirty cat \<longleftrightarrow> (\<exists>v. cat_version cat = Some (v, True))"

lemma le4_cases: "k \<le> 4 \<Longrightarrow> k = 0 \<or> k = 1 \<or> k = 2 \<or> k = 3 \<or> k = (4::nat)"
  by arith

lemmas script_simps = scripts has_table_def referenced_def type_used_def

lemma schema_1: "schema 1 = empty_catalog\<lparr>cat_tables := [(Users, [], [])],
    cat_indexes := [(''idx_username'', Users), (''idx_email'', Users)]\<rparr>"
  by (simp add: up_script_def script_simps empty_catalog_def)

lemma schema_2: "schema 2 = empty_catalog\<lparr>cat_tables := [(Users, [], []), (Products, [], [])],
    cat_indexes := [(''idx_username'', Users), (''idx_email'', Users), (''idx_product_name'', Products)]\<rparr>"
  using schema_1 by (simp add: numeral_2_eq_2 up_script_def script_simps empty_catalog_def)

lemma schema_3: "schema 3 = empty_catalog\<lparr>cat_tables := [(Users, [], []), (Products, [], []),
      (Carts, [Users], []), (CartItems, [Carts, Products], [])],
    cat_indexes := [(''idx_username'', Users), (''idx_email'', Users), (''idx_product_name'', Products)]\<rparr>"
proof -
  have "schema 3 = schema (Suc 2)" by simp
  then show ?thesis by (simp only: schema.simps schema_2) (simp add: up_script_def script_simps empty_catalog_def)
qed

lemma schema_4: "schema 4 = empty_catalog\<lparr>cat_tables := [(Users, [], []), (Products, [], []),
      (Carts, [Users], []), (CartItems, [Carts, Products], []),
      (Orders, [Users], [''order_status'']), (OrderItems, [Orders, Products], [])],
    cat_types := [''order_status''],
    cat_indexes := [(''idx_username'', Users), (''idx_email'', Users), (''idx_product_name'', Products)]\<rparr>"
proof -
  have "schema 4 = schema (Suc 3)" by simp
  then show ?thesis by (simp only: schema.simps schema_3) (simp add: up_script_def script_simps empty_catalog_def)
qed

lemmas schemas = schema.simps(1) schema_1 schema_1 [unfolded One_nat_def]
  schema_2 schema_2 [unfolded numeral_2_eq_2] schema_3 schema_4

lemma all_tables: "(\<forall>t. P t) \<longleftrightarrow> P Users \<and> P Products \<and> P Carts \<and> P CartItems \<and> P Orders \<and> P OrderItems"
  by (metis table_name.exhaust)

lemma no_rows [simp]:
  fixes db :: database
  shows "db\<lparr>db_users := []\<rparr> = db \<longleftrightarrow> db_users db = []"
    and "db\<lparr>db_products := []\<rparr> = db \<longleftrightarrow> db_products db = []"
    and "db\<lparr>db_carts := []\<rparr> = db \<longleftrightarrow> db_carts db = []"
    and "db\<lparr>db_cart_items := []\<rparr> = db \<longleftrightarrow> db_cart_items db = []"
    and "db\<lparr>db_orders := []\<rparr> = db \<longleftrightarrow> db_orders db = []"
    and "db\<lparr>db_order_items := []\<rparr> = db \<longleftrightarrow> db_order_items db = []"
  by (cases db, auto)+

lemma rows_in_0: "rows_in 0 db \<longleftrightarrow> db = db_empty"
  by (cases db) (auto simp: rows_in_def all_tables has_table_def empty_catalog_def db_empty_def)

lemma at_rest_0: "at_rest 0 cat \<longleftrightarrow> cat = empty_catalog"
  by (cases cat) (auto simp: at_rest_def rows_in_0 empty_catalog_def version_row_def)

lemma at_rest_version: "at_rest k cat \<Longrightarrow> cat_version cat = version_row k"
  by (simp add: at_rest_def) (metis catalog.select_convs(5) catalog.surjective catalog.update_convs(5))

section \<open>One script\<close>

lemma at_rest_cat: "at_rest k cat \<Longrightarrow> cat\<lparr>cat_version := v\<rparr> = (schema k)\<lparr>cat_db := cat_db cat, cat_version := v\<rparr>"
  unfolding at_rest_def by (metis catalog.update_convs(5) catalog.surjective)

definition down_db :: "nat \<Rightarrow> database \<Rightarrow> database" where
  "down_db k = [id, drop_rows Users, drop_rows Products, drop_rows Carts \<circ> drop_rows CartItems,
     drop_rows Orders \<circ> drop_rows OrderItems] ! k"

lemma down_script_exec:
  assumes "0 < k" and "k \<le> 4"
  shows "exec_script ((schema k)\<lparr>cat_db := db, cat_version := v\<rparr>) (down_script k) =
    Inr ((schema (k - 1))\<lparr>cat_db := down_db k db, cat_version := v\<rparr>)"
  using le4_cases [OF assms(2)] assms(1)
  by (elim disjE)
    (simp_all del: schema.simps add: schemas down_script_def down_db_def script_simps empty_catalog_def)

lemma down_rows:
  assumes "0 < k" and "k \<le> 4" and "rows_in k db"
  shows "rows_in (k - 1) (down_db k db)"
  using le4_cases [OF assms(2)] assms(1,3)
  by (elim disjE)
    (simp_all del: schema.simps add: schemas rows_in_def all_tables has_table_def down_db_def empty_catalog_def)

lemma up_script_exec:
  assumes "k < 4"
  shows "exec_script ((schema k)\<lparr>cat_db := db, cat_version := v\<rparr>) (up_script (Suc k)) =
    Inr ((schema (Suc k))\<lparr>cat_db := db, cat_version := v\<rparr>)"
proof -
  from assms have "k = 0 \<or> k = 1 \<or> k = 2 \<or> k = 3" by arith
  then show ?thesis
    by (elim disjE)
      (simp_all del: schema.simps add: schemas up_script_def script_simps empty_catalog_def)
qed

lemma up_rows:
  assumes "k < 4" and "rows_in k db"
  shows "rows_in (Suc k) db"
proof -
  from assms have "k = 0 \<or> k = 1 \<or> k = 2 \<or> k = 3" by arith
  with assms(2) show ?thesis
    by (elim disjE)
      (simp_all del: schema.simps add: schemas rows_in_def all_tables has_table_def empty_catalog_def)
qed

section \<open>What is read from the files\<close>

definition down_mig :: "nat \<Rightarrow> migration" where
  "down_mig k = \<lparr>mg_target = ver (k - 1), mg_body = Some (down_script k)\<rparr>"

definition up_mig :: "nat \<Rightarrow> migration" where
  "up_mig k = \<lparr>mg_target = ver k, mg_body = Some (up_script k)\<rparr>"

lemma shop_index: "source_index shop_migrations = [20241112144824, 20241118072912, 20241119141816, 20241125115439]"
  by (simp add: source_index_def shop_migrations_def)

lemma shop_neighbours:
  "First shop_migrations = Some 20241112144824"
  "Prev shop_migrations 20241112144824 = None"
  "Next_version shop_migrations 20241112144824 = Some 20241118072912"
  "Prev shop_migrations 20241118072912 = Some 20241112144824"
  "Next_version shop_migrations 20241118072912 = Some 20241119141816"
  "Prev shop_migrations 20241119141816 = Some 20241118072912"
  "Next_version shop_migrations 20241119141816 = Some 20241125115439"
  "Prev shop_migrations 20241125115439 = Some 20241119141816"
  "Next_version shop_migrations 20241125115439 = None"
  by (simp_all add: First_def Prev_def Next_version_def shop_index)

lemma shop_files:
  "ReadUp shop_migrations 20241112144824 = Some users_up" "ReadDown shop_migrations 20241112144824 = Some users_down"
  "ReadUp shop_migrations 20241118072912 = Some products_up" "ReadDown shop_migrations 20241118072912 = Some products_down"
  "ReadUp shop_migrations 20241119141816 = Some carts_up" "ReadDown shop_migrations 20241119141816 = Some carts_down"
  "ReadUp shop_migrations 20241125115439 = Some orders_up" "ReadDown shop_migrations 20241125115439 = Some orders_down"
  by (simp_all add: ReadUp_def ReadDown_def shop_migrations_def)

lemma vers: "ver 0 = -1" "ver 1 = 20241112144824" "ver (Suc 0) = 20241112144824" "ver 2 = 20241118072912" "ver 3 = 20241119141816" "ver 4 = 20241125115439"
  "ver (Suc (Suc 0)) = 20241118072912" "ver (Suc (Suc (Suc 0))) = 20241119141816"
  "ver (Suc (Suc (Suc (Suc 0)))) = 20241125115439"
  by (simp_all add: ver_def shop_migrations_def)

lemmas shop_source = shop_neighbours shop_files vers newMigration_def versionExists_def

lemma readDown_shop:
  assumes "k \<le> 4"
  shows "readDown shop_migrations (ver k) =
    (if k = 0 then [Inl ErrNoChange] else map (\<lambda>j. Inr (down_mig j)) (rev [1..<Suc k]))"
  using le4_cases [OF assms]
  by (elim disjE)
    (simp_all add: readDown_def shop_source readDown_loop.simps down_mig_def down_script_def upt_conv_Cons)

lemma readUp_shop:
  assumes "k \<le> 4"
  shows "readUp shop_migrations (ver k) =
    map (\<lambda>j. Inr (up_mig j)) [Suc k..<5] @ (if k = 4 then [Inl ErrNoChange] else [])"
  using le4_cases [OF assms]
  by (elim disjE)
    (simp_all add: readUp_def shop_source readUp_loop.simps up_mig_def up_script_def upt_conv_Cons)

section \<open>Runs from a schema at rest\<close>

lemma SetVersion_Some: "SetVersion f v d cat = (Some e, cat') \<Longrightarrow> f (DSetVersion v d) = Some e \<and> cat' = cat"
  by (auto simp: SetVersion_def split: option.splits)

lemma ver_ge: "-1 \<le> ver k"
  by (simp add: ver_def)

lemma SetVersion_dirty: "SetVersion f (ver k) True cat = (None, cat') \<Longrightarrow>
    cat' = cat\<lparr>cat_version := Some (ver k, True)\<rparr>"
  using ver_ge [of k] by (auto simp: SetVersion_def split: option.splits if_splits)

lemma SetVersion_clean: "SetVersion f (ver k) False cat = (None, cat') \<Longrightarrow>
    cat' = cat\<lparr>cat_version := version_row k\<rparr>"
  by (auto simp: SetVersion_def version_row_def ver_def split: option.splits if_splits)

lemma run_one_at_rest:
  assumes "at_rest k cat" and "j \<le> 4"
    and "\<And>v. exec_script ((schema k)\<lparr>cat_db := cat_db cat, cat_version := v\<rparr>) body =
      Inr ((schema j)\<lparr>cat_db := db', cat_version := v\<rparr>)"
    and "rows_in j db'"
    and "run_one f \<lparr>mg_target = ver j, mg_body = Some body\<rparr> cat = (r, cat')"
  shows "case r of None \<Rightarrow> at_rest j cat' \<and> cat_db cat' = db'
    | Some e \<Rightarrow> (\<exists>c. f c = Some e) \<and> (at_rest k cat' \<or> dirty cat')"
proof -
  let ?dirty = "Some (ver j, True)"
  let ?mid = "(schema j)\<lparr>cat_db := db', cat_version := ?dirty\<rparr>"
  have cat: "cat\<lparr>cat_version := ?dirty\<rparr> = (schema k)\<lparr>cat_db := cat_db cat, cat_version := ?dirty\<rparr>"
    using assms(1) by (rule at_rest_cat)
  show ?thesis
  proof (cases "SetVersion f (ver j) True cat")
    case (Pair r1 cat1)
    show ?thesis
    proof (cases r1)
      case (Some e)
      with Pair assms(1,5) show ?thesis
        using SetVersion_Some [of f "ver j" True cat e cat1] by (auto simp: run_one_def)
    next
      case None
      with Pair have c1: "cat1 = cat\<lparr>cat_version := ?dirty\<rparr>" by (auto dest: SetVersion_dirty)
      show ?thesis
      proof (cases "f (DRun (ver j))")
        case (Some e)
        with None Pair c1 assms(5) have "r = Some e" "dirty cat'"
          by (auto simp: run_one_def Run_def dirty_def)
        with Some show ?thesis by auto
      next
        case run: None
        have "Run f \<lparr>mg_target = ver j, mg_body = Some body\<rparr> cat1 = (None, ?mid)"
          using run by (simp add: Run_def c1 cat assms(3))
        with None Pair assms(5) have s: "SetVersion f (ver j) False ?mid = (r, cat')"
          by (simp add: run_one_def)
        show ?thesis
        proof (cases r)
          case (Some e)
          with s SetVersion_Some [of f "ver j" False ?mid e cat'] show ?thesis
            by (auto simp: dirty_def)
        next
          case None
          with s have "cat' = ?mid\<lparr>cat_version := version_row j\<rparr>" by (auto dest: SetVersion_clean)
          with None assms(2,4) show ?thesis by (simp add: at_rest_def)
        qed
      qed
    qed
  qed
qed

text \<open>What a run can leave behind: an error comes from the driver.\<close>

definition run_ends :: "driver_faults \<Rightarrow> (catalog \<Rightarrow> bool) \<Rightarrow> go_error option \<Rightarrow> catalog \<Rightarrow> bool" where
  "run_ends f P r cat \<longleftrightarrow> (case r of None \<Rightarrow> P cat
     | Some e \<Rightarrow> (\<exists>c. f c = Some e) \<and> ((\<exists>j. at_rest j cat) \<or> dirty cat))"

lemma run_down_one:
  assumes "at_rest (Suc k) cat" and "run_one f (down_mig (Suc k)) cat = (r, cat')"
  shows "run_ends f (at_rest k) r cat'"
proof -
  have k: "Suc k \<le> 4" "rows_in (Suc k) (cat_db cat)" using assms(1) by (simp_all add: at_rest_def)
  then have "case r of None \<Rightarrow> at_rest k cat' \<and> cat_db cat' = down_db (Suc k) (cat_db cat)
    | Some e \<Rightarrow> (\<exists>c. f c = Some e) \<and> (at_rest (Suc k) cat' \<or> dirty cat')"
    using assms(2) down_script_exec [of "Suc k"] down_rows [of "Suc k"]
    by (intro run_one_at_rest [OF assms(1), of k "down_script (Suc k)"]) (simp_all add: down_mig_def)
  then show ?thesis by (auto simp: run_ends_def split: option.splits)
qed

lemma run_up_one:
  assumes "at_rest k cat" and "k < 4" and "run_one f (up_mig (Suc k)) cat = (r, cat')"
  shows "run_ends f (\<lambda>c. at_rest (Suc k) c \<and> cat_db c = cat_db cat) r cat'"
proof -
  have k: "rows_in k (cat_db cat)" using assms(1) by (simp add: at_rest_def)
  then have "case r of None \<Rightarrow> at_rest (Suc k) cat' \<and> cat_db cat' = cat_db cat
    | Some e \<Rightarrow> (\<exists>c. f c = Some e) \<and> (at_rest k cat' \<or> dirty cat')"
    using assms(2,3) up_script_exec [OF assms(2)] up_rows [OF assms(2)]
    by (intro run_one_at_rest [OF assms(1), of "Suc k" "up_script (Suc k)"]) (simp_all add: up_mig_def)
  then show ?thesis by (auto simp: run_ends_def split: option.splits)
qed

lemma run_all_down:
  assumes "at_rest k cat" and "runMigrations f (map (\<lambda>j. Inr (down_mig j)) (rev [1..<Suc k])) cat = (r, cat')"
  shows "run_ends f (at_rest 0) r cat'"
  using assms
proof (induction k arbitrary: cat)
  case 0
  then show ?case by (auto simp: run_ends_def)
next
  case (Suc k)
  obtain r1 cat1 where one: "run_one f (down_mig (Suc k)) cat = (r1, cat1)" by (metis surj_pair)
  note first = run_down_one [OF Suc.prems(1) one]
  show ?case
  proof (cases r1)
    case None
    with first one Suc.prems(2) show ?thesis by (intro Suc.IH [of cat1]) (simp_all add: run_ends_def)
  next
    case (Some e)
    with one Suc.prems(2) have "r = Some e" "cat' = cat1" by simp_all
    with first Some show ?thesis by (simp add: run_ends_def)
  qed
qed

lemma run_all_up:
  assumes "at_rest k cat" and "runMigrations f (map (\<lambda>j. Inr (up_mig j)) [Suc k..<5]) cat = (r, cat')"
  shows "run_ends f (\<lambda>c. at_rest 4 c \<and> cat_db c = cat_db cat) r cat'"
  using assms
proof (induction "4 - k" arbitrary: k cat)
  case 0
  moreover from 0 have "k = 4" by (simp add: at_rest_def)
  ultimately show ?case by (auto simp: run_ends_def)
next
  case (Suc d)
  then have k: "k < 4" by simp
  then have up: "[Suc k..<5] = Suc k # [Suc (Suc k)..<5]" by (simp add: upt_conv_Cons)
  obtain r1 cat1 where one: "run_one f (up_mig (Suc k)) cat = (r1, cat1)" by (metis surj_pair)
  note first = run_up_one [OF Suc.prems(1) k one]
  show ?case
  proof (cases r1)
    case None
    with first have f1: "at_rest (Suc k) cat1" "cat_db cat1 = cat_db cat" by (simp_all add: run_ends_def)
    have "run_ends f (\<lambda>c. at_rest 4 c \<and> cat_db c = cat_db cat1) r cat'"
      using None one Suc.prems(2) Suc.hyps(2) f1(1) by (intro Suc.hyps(1)) (simp_all add: up)
    with f1(2) show ?thesis by simp
  next
    case (Some e)
    with one Suc.prems(2) have "r = Some e" "cat' = cat1" by (simp_all add: up)
    with first Some show ?thesis by (simp add: run_ends_def)
  qed
qed

section \<open>Down and Up\<close>

text \<open>The caller's test \<open>err != nil && !errors.Is(err, migrate.ErrNoChange)\<close>, negated.\<close>

definition passed :: "go_error option \<Rightarrow> bool" where
  "passed r \<longleftrightarrow> (case r of None \<Rightarrow> True | Some e \<Rightarrow> errors_Is e ErrNoChange)"

text \<open>No failure of the driver is \<open>ErrNoChange\<close>.\<close>

definition real_faults :: "driver_faults \<Rightarrow> bool" where
  "real_faults f \<longleftrightarrow> (\<forall>c e. f c = Some e \<longrightarrow> \<not> errors_Is e ErrNoChange)"

lemma passed_simps [simp]:
  "passed None" "passed (Some ErrNoChange)" "\<not> passed (Some ErrLocked)" "\<not> passed (Some (ErrDirty v))"
  by (simp_all add: passed_def ErrNoChange_def ErrLocked_def ErrDirty_def)

lemma real_faults_pass: "real_faults f \<Longrightarrow> f c = Some e \<Longrightarrow> \<not> passed (Some e)"
  by (simp add: real_faults_def passed_def)

definition settled :: "catalog \<Rightarrow> bool" where
  "settled cat \<longleftrightarrow> (\<exists>k. at_rest k cat) \<or> dirty cat"

lemma settled_empty [simp]: "settled empty_catalog"
  using at_rest_0 [of empty_catalog] by (auto simp: settled_def)

lemma unlockErr_cat [simp]: "mig_cat (snd (unlockErr f r)) = snd r"
  by (simp add: unlockErr_def split: option.split)

lemma passed_unlockErr: "real_faults f \<Longrightarrow> passed (fst (unlockErr f r)) \<Longrightarrow> passed (fst r)"
  by (cases "fst r") (auto simp: unlockErr_def passed_def real_faults_def split: option.splits)

text \<open>A locked run at rest, from what the migrations read do.\<close>

lemma locked_run_at_rest:
  assumes "at_rest k cat" and "real_faults f"
    and "\<And>r cat'. runMigrations f (read (ver k)) cat = (r, cat') \<Longrightarrow>
      settled cat' \<and> (passed r \<longrightarrow> P cat')"
  shows "settled (mig_cat (snd (locked_run read f \<lparr>mig_locked = l, mig_cat = cat\<rparr>))) \<and>
    (passed (fst (locked_run read f \<lparr>mig_locked = l, mig_cat = cat\<rparr>)) \<longrightarrow>
      P (mig_cat (snd (locked_run read f \<lparr>mig_locked = l, mig_cat = cat\<rparr>))))"
proof -
  have rest: "settled cat" using assms(1) by (auto simp: settled_def)
  have v: "Version f cat = Inr (ver k, False) \<or> (\<exists>e. Version f cat = Inl e \<and> f DVersion = Some e)"
    using at_rest_version [OF assms(1)]
    by (auto simp: Version_def version_row_def ver_def split: option.split)
  obtain r1 cat1 where run: "runMigrations f (read (ver k)) cat = (r1, cat1)" by (metis surj_pair)
  show ?thesis
    using rest v assms(3) [OF run] run
    by (auto simp: locked_run_def split: option.split
        dest!: passed_unlockErr [OF assms(2)] dest: real_faults_pass [OF assms(2)])
qed

lemma Down_at_rest:
  assumes "at_rest k cat" and "real_faults f"
  shows "settled (mig_cat (snd (Down shop_migrations f \<lparr>mig_locked = l, mig_cat = cat\<rparr>))) \<and>
    (passed (fst (Down shop_migrations f \<lparr>mig_locked = l, mig_cat = cat\<rparr>)) \<longrightarrow>
      mig_cat (snd (Down shop_migrations f \<lparr>mig_locked = l, mig_cat = cat\<rparr>)) = empty_catalog)"
  unfolding Down_def
proof (rule locked_run_at_rest [OF assms])
  fix r cat'
  assume run: "runMigrations f (readDown shop_migrations (ver k)) cat = (r, cat')"
  have k: "k \<le> 4" using assms(1) by (simp add: at_rest_def)
  show "settled cat' \<and> (passed r \<longrightarrow> cat' = empty_catalog)"
  proof (cases "k = 0")
    case True
    with run k assms(1) have "cat' = cat" "cat = empty_catalog" by (auto simp: readDown_shop at_rest_0)
    with assms(1) show ?thesis by (auto simp: settled_def)
  next
    case False
    with run have "run_ends f (at_rest 0) r cat'"
      by (intro run_all_down [OF assms(1)]) (simp only: readDown_shop [OF k] if_False)
    then show ?thesis
      using real_faults_pass [OF assms(2)]
      by (cases r) (auto simp: run_ends_def at_rest_0 simp flip: settled_def)
  qed
qed

lemma Up_at_rest:
  assumes "at_rest k cat" and "real_faults f"
  shows "settled (mig_cat (snd (Up shop_migrations f \<lparr>mig_locked = l, mig_cat = cat\<rparr>))) \<and>
    (passed (fst (Up shop_migrations f \<lparr>mig_locked = l, mig_cat = cat\<rparr>)) \<longrightarrow>
      at_rest 4 (mig_cat (snd (Up shop_migrations f \<lparr>mig_locked = l, mig_cat = cat\<rparr>))) \<and>
      cat_db (mig_cat (snd (Up shop_migrations f \<lparr>mig_locked = l, mig_cat = cat\<rparr>))) = cat_db cat)"
  unfolding Up_def
proof (rule locked_run_at_rest [OF assms])
  fix r cat'
  assume run: "runMigrations f (readUp shop_migrations (ver k)) cat = (r, cat')"
  have k: "k \<le> 4" using assms(1) by (simp add: at_rest_def)
  show "settled cat' \<and> (passed r \<longrightarrow> at_rest 4 cat' \<and> cat_db cat' = cat_db cat)"
  proof (cases "k = 4")
    case True
    with run k assms(1) show ?thesis by (auto simp: readUp_shop settled_def)
  next
    case False
    with run have "run_ends f (\<lambda>c. at_rest 4 c \<and> cat_db c = cat_db cat) r cat'"
      by (intro run_all_up [OF assms(1)]) (simp only: readUp_shop [OF k] if_False append_Nil2)
    then show ?thesis
      using real_faults_pass [OF assms(2)]
      by (cases r) (auto simp: run_ends_def settled_def)
  qed
qed

text \<open>A dirty schema stops every run before its first statement.\<close>

lemma locked_run_dirty:
  assumes "dirty cat" and "real_faults f"
  shows "mig_cat (snd (locked_run read f \<lparr>mig_locked = l, mig_cat = cat\<rparr>)) = cat \<and>
    \<not> passed (fst (locked_run read f \<lparr>mig_locked = l, mig_cat = cat\<rparr>))"
  using assms(1)
  by (auto simp: dirty_def locked_run_def Version_def split: option.split
      dest!: passed_unlockErr [OF assms(2)] dest: real_faults_pass [OF assms(2)])

text \<open>Without failures every run gets through.\<close>

lemma run_ends_calm: "run_ends f P r cat \<Longrightarrow> \<forall>c. f c = None \<Longrightarrow> r = None \<and> P cat"
  by (cases r) (simp_all add: run_ends_def)

lemma locked_run_calm:
  assumes "at_rest k cat" and "\<forall>c. f c = None" and "passed (fst (runMigrations f (read (ver k)) cat))"
  shows "passed (fst (locked_run read f \<lparr>mig_locked = False, mig_cat = cat\<rparr>)) \<and>
    \<not> mig_locked (snd (locked_run read f \<lparr>mig_locked = False, mig_cat = cat\<rparr>))"
proof -
  have "Version f cat = Inr (ver k, False)"
    using at_rest_version [OF assms(1)] assms(2) by (simp add: Version_def version_row_def ver_def)
  with assms(2,3) show ?thesis by (simp add: locked_run_def unlockErr_def)
qed

lemma Down_calm:
  assumes "at_rest k cat" and "\<forall>c. f c = None"
  shows "passed (fst (Down shop_migrations f \<lparr>mig_locked = False, mig_cat = cat\<rparr>)) \<and>
    \<not> mig_locked (snd (Down shop_migrations f \<lparr>mig_locked = False, mig_cat = cat\<rparr>))"
  unfolding Down_def
proof (rule locked_run_calm [OF assms])
  have k: "k \<le> 4" using assms(1) by (simp add: at_rest_def)
  obtain r cat' where run: "runMigrations f (readDown shop_migrations (ver k)) cat = (r, cat')"
    by (metis surj_pair)
  show "passed (fst (runMigrations f (readDown shop_migrations (ver k)) cat))"
  proof (cases "k = 0")
    case True
    with k show ?thesis by (simp add: readDown_shop)
  next
    case False
    with run have "run_ends f (at_rest 0) r cat'"
      by (intro run_all_down [OF assms(1)]) (simp only: readDown_shop [OF k] if_False)
    with run_ends_calm [OF this assms(2)] run show ?thesis by simp
  qed
qed

lemma Up_calm:
  assumes "at_rest 0 cat" and "\<forall>c. f c = None"
  shows "passed (fst (Up shop_migrations f \<lparr>mig_locked = False, mig_cat = cat\<rparr>))"
proof -
  obtain r cat' where run: "runMigrations f (readUp shop_migrations (ver 0)) cat = (r, cat')"
    by (metis surj_pair)
  then have "run_ends f (\<lambda>c. at_rest 4 c \<and> cat_db c = cat_db cat) r cat'"
    by (intro run_all_up [OF assms(1)]) (simp add: readUp_shop)
  with run_ends_calm [OF this assms(2)] run
  have "passed (fst (runMigrations f (readUp shop_migrations (ver 0)) cat))" by simp
  from locked_run_calm [where k = 0 and read = "readUp shop_migrations", OF assms this]
  show ?thesis by (simp add: Up_def)
qed

end
