(* ===== verification/Infra.thy ===== *)
theory Infra
  imports MigrationLaws Json
begin

text \<open>
  Configuration and clients: \<open>internal/config/config.go\<close>, \<open>internal/infra/database.go\<close> and
  \<open>internal/infra/cache.go\<close>. The file, the network and the libraries' constructors answer through
  an environment; \<open>logger.Fatal\<close> ends the process.
\<close>

section \<open>Configuration\<close>

record app_config =
  app_Env :: string
  app_Host :: string
  app_SecretKey :: string
  app_Port :: int

record db_config =
  dbc_Name :: string
  dbc_Host :: string
  dbc_MigrationPath :: string
  dbc_Password :: string
  dbc_TimeZone :: string
  dbc_Username :: string
  dbc_MaxConnections :: int
  dbc_MinConnections :: int
  dbc_Port :: "16 word"

record cache_config =
  cch_Host :: string
  cch_Password :: string
  cch_Database :: int
  cch_Port :: "16 word"

record otel_config =
  otl_Host :: string
  otl_Port :: int

record config =
  cfg_Database :: db_config
  cfg_Cache :: cache_config
  cfg_Application :: app_config
  cfg_Otel :: otel_config

text \<open>The two \<open>MarshalJSON\<close> methods replace the password; the other structs are written as they are.\<close>

definition Database_MarshalJSON :: "db_config \<Rightarrow> json" where
  "Database_MarshalJSON d0 =
     (let d = d0\<lparr>dbc_Password := ''***''\<rparr> in
      JObj [(''name'', JStr (dbc_Name d)), (''host'', JStr (dbc_Host d)),
        (''migration_path'', JStr (dbc_MigrationPath d)), (''password'', JStr (dbc_Password d)),
        (''timezone'', JStr (dbc_TimeZone d)), (''username'', JStr (dbc_Username d)),
        (''max_connections'', JNum (dbc_MaxConnections d) 0),
        (''min_connections'', JNum (dbc_MinConnections d) 0), (''port'', JNum (uint (dbc_Port d)) 0)])"

definition Cache_MarshalJSON :: "cache_config \<Rightarrow> json" where
  "Cache_MarshalJSON c0 =
     (let c = c0\<lparr>cch_Password := ''***''\<rparr> in
      JObj [(''host'', JStr (cch_Host c)), (''password'', JStr (cch_Password c)),
        (''database'', JNum (cch_Database c) 0), (''port'', JNum (uint (cch_Port c)) 0)])"

text \<open>What the two configurations write into a log line: fields of the event.\<close>

definition Database_MarshalZerologObject :: "db_config \<Rightarrow> (string \<times> json) list" where
  "Database_MarshalZerologObject d =
     [(''name'', JStr (dbc_Name d)), (''host'', JStr (dbc_Host d)), (''username'', JStr (dbc_Username d)),
      (''migration_path'', JStr (dbc_MigrationPath d)), (''password'', JStr ''***'')]"

definition Cache_MarshalZerologObject :: "cache_config \<Rightarrow> (string \<times> json) list" where
  "Cache_MarshalZerologObject c =
     [(''host'', JStr (cch_Host c)), (''database'', JNum (cch_Database c) 0), (''password'', JStr ''***'')]"

text \<open>Neither the JSON nor the log line tells two configurations apart that differ in a password only.\<close>

lemma passwords_hidden:
  "Database_MarshalJSON (d\<lparr>dbc_Password := p\<rparr>) = Database_MarshalJSON d"
  "Cache_MarshalJSON (c\<lparr>cch_Password := q\<rparr>) = Cache_MarshalJSON c"
  "Database_MarshalZerologObject (d\<lparr>dbc_Password := p\<rparr>) = Database_MarshalZerologObject d"
  "Cache_MarshalZerologObject (c\<lparr>cch_Password := q\<rparr>) = Cache_MarshalZerologObject c"
  by (simp_all add: Database_MarshalJSON_def Cache_MarshalJSON_def Database_MarshalZerologObject_def
      Cache_MarshalZerologObject_def)

definition Application_json :: "app_config \<Rightarrow> json" where
  "Application_json a =
     JObj [(''env'', JStr (app_Env a)), (''host'', JStr (app_Host a)),
       (''secret_key'', JStr (app_SecretKey a)), (''port'', JNum (app_Port a) 0)]"

definition Otel_json :: "otel_config \<Rightarrow> json" where
  "Otel_json a = JObj [(''host'', JStr (otl_Host a)), (''port'', JNum (otl_Port a) 0)]"

text \<open>\<open>Config\<close> embeds two structs with a \<open>MarshalJSON\<close>, so it has none of its own.\<close>

definition Config_json :: "config \<Rightarrow> json" where
  "Config_json c =
     JObj [(''db'', Database_MarshalJSON (cfg_Database c)), (''cache'', Cache_MarshalJSON (cfg_Cache c)),
       (''application'', Application_json (cfg_Application c)), (''otel'', Otel_json (cfg_Otel c))]"

text \<open>A call that may end the process: \<open>Fatal\<close> is \<open>os.Exit(1)\<close> after the log line.\<close>

datatype 'a start = Fatal go_error | Started 'a

text \<open>\<open>Get\<close>: \<open>read\<close> is \<open>viper.ReadInConfig\<close> on the named file, \<open>decode\<close> is \<open>viper.Unmarshal\<close>. The second
  component is the configuration it logs.\<close>

definition Get :: "(string \<Rightarrow> go_error + 'raw) \<Rightarrow> ('raw \<Rightarrow> go_error + config) \<Rightarrow> string \<Rightarrow>
    config start \<times> json list" where
  "Get read decode filename =
     (case read filename of
        Inl e \<Rightarrow> (Fatal (ErrWrap ''error when reading config with error='' e), [])
      | Inr raw \<Rightarrow>
          (case decode raw of
             Inl e \<Rightarrow> (Fatal (ErrWrap ''error unmarshaling config with error='' e), [])
           | Inr cfg \<Rightarrow> (Started cfg, [Config_json cfg])))"

section \<open>The database client\<close>

text \<open>A \<open>pgxpool.Pool\<close>, as far as \<open>Close\<close> looks at it: the connections that were taken and not given
  back. \<open>Close\<close> waits for them (\<open>destructWG\<close> of puddle).\<close>

record pgx_pool =
  pl_acquired :: nat

record db_env =
  de_ParseConfig :: "string \<Rightarrow> go_error option"
  de_NewWithConfig :: "go_error option"
  de_Ping :: "go_error option"
  de_WithInstance :: "go_error option"
  de_NewWithDatabaseInstance :: "string \<Rightarrow> go_error option"
  de_down :: driver_faults
  de_up :: driver_faults

definition postgresUrl :: "db_config \<Rightarrow> string" where
  "postgresUrl cfg = ''postgres://'' @ dbc_Username cfg @ '':'' @ dbc_Password cfg @ ''@'' @ dbc_Host cfg @
     '':'' @ format_d (uint (dbc_Port cfg)) @ ''/'' @ dbc_Name cfg @ ''?sslmode=disable''"

text \<open>\<open>if err != nil { logger.Fatal() }\<close> around a call.\<close>

definition or_fatal :: "catalog \<Rightarrow> string \<Rightarrow> go_error option \<Rightarrow> catalog \<times> 'a start \<Rightarrow> catalog \<times> 'a start" where
  "or_fatal cat msg err rest = (case err of Some e \<Rightarrow> (cat, Fatal (ErrWrap msg e)) | None \<Rightarrow> rest)"

text \<open>
  \<open>NewDatabaseClient\<close>. \<open>pool\<close> is the package variable that \<open>dbOnce\<close> fills. \<open>postgres.WithInstance\<close>
  takes a connection of the pool for the migrations and nobody gives it back. The migrations run down
  and up again.
\<close>

definition NewDatabaseClient :: "db_env \<Rightarrow> db_config \<Rightarrow> pgx_pool option \<Rightarrow> catalog \<Rightarrow>
    catalog \<times> pgx_pool start" where
  "NewDatabaseClient env cfg pool cat =
     (case pool of
        Some p \<Rightarrow> (cat, Started p)
      | None \<Rightarrow>
          or_fatal cat ''failed creating pgx config with error='' (de_ParseConfig env (postgresUrl cfg))
          (or_fatal cat ''failed creating connection pool with error='' (de_NewWithConfig env)
          (or_fatal cat ''failed ping db with error='' (de_Ping env)
          (or_fatal cat ''failed creating postgres driver to do migration with error='' (de_WithInstance env)
          (or_fatal cat ''failed migration postgres with error=''
             (de_NewWithDatabaseInstance env (dbc_MigrationPath cfg))
             (case Down shop_migrations (de_down env) \<lparr>mig_locked = False, mig_cat = cat\<rparr> of
                (err, m1) \<Rightarrow>
                  if \<not> passed err
                  then (mig_cat m1, Fatal (ErrWrap ''failed migration down with error='' (the err)))
                  else (case Up shop_migrations (de_up env) m1 of
                     (err2, m2) \<Rightarrow>
                       if \<not> passed err2
                       then (mig_cat m2, Fatal (ErrWrap ''failed migration up with error='' (the err2)))
                       else (mig_cat m2, Started \<lparr>pl_acquired = 1\<rparr>))))))))"

section \<open>The cache client\<close>

record cache_env =
  ce_tracing :: "go_error option"
  ce_metrics :: "go_error option"
  ce_ping :: "go_error option"

definition NewCacheClient :: "cache_env \<Rightarrow> bool \<Rightarrow> unit start" where
  "NewCacheClient env cacheOnce =
     (if cacheOnce then Started ()
      else case ce_tracing env of
        Some e \<Rightarrow> Fatal (ErrWrap ''failed initializing otel redis tracing with error='' e)
      | None \<Rightarrow>
      case ce_metrics env of
        Some e \<Rightarrow> Fatal (ErrWrap ''failed initializing otel redis metric with error='' e)
      | None \<Rightarrow>
      case ce_ping env of
        Some e \<Rightarrow> Fatal (ErrWrap ''failed to pinging to redis with error='' e)
      | None \<Rightarrow> Started ())"

section \<open>What starting does to the schema\<close>

lemma NewDatabaseClient_settled:
  assumes "settled cat" and "real_faults (de_down env)" and "real_faults (de_up env)"
  shows "settled (fst (NewDatabaseClient env cfg pool cat))"
proof -
  obtain err m1 where d: "Down shop_migrations (de_down env) \<lparr>mig_locked = False, mig_cat = cat\<rparr> = (err, m1)"
    by (metis surj_pair)
  obtain err2 m2 where u: "Up shop_migrations (de_up env) m1 = (err2, m2)" by (metis surj_pair)
  have m1: "m1 = \<lparr>mig_locked = mig_locked m1, mig_cat = mig_cat m1\<rparr>" by simp
  have "settled (mig_cat m1) \<and> settled (mig_cat m2)"
  proof (cases "dirty cat")
    case True
    from locked_run_dirty [OF True assms(2), of "readDown shop_migrations" False] d
    have "mig_cat m1 = cat" by (simp add: Down_def)
    with True locked_run_dirty [OF True assms(3), of "readUp shop_migrations" "mig_locked m1"] u m1
    show ?thesis using assms(1) by (metis Up_def snd_conv)
  next
    case False
    with assms(1) obtain k where k: "at_rest k cat" by (auto simp: settled_def)
    from Down_at_rest [OF k assms(2), of False] d have s1: "settled (mig_cat m1)" by simp
    then have "settled (mig_cat m2)"
    proof (cases "dirty (mig_cat m1)")
      case True
      with locked_run_dirty [OF True assms(3), of "readUp shop_migrations" "mig_locked m1"] u m1 s1
      show ?thesis by (metis Up_def snd_conv)
    next
      case False
      with s1 obtain j where "at_rest j (mig_cat m1)" by (auto simp: settled_def)
      from Up_at_rest [OF this assms(3), of "mig_locked m1"] u m1 show ?thesis by (metis snd_conv)
    qed
    with s1 show ?thesis by simp
  qed
  with assms(1) d u show ?thesis
    by (simp add: NewDatabaseClient_def or_fatal_def split: option.split)
qed

text \<open>A client that starts found a schema at rest, and hands over an empty one; it keeps a connection.\<close>

lemma NewDatabaseClient_started:
  assumes "settled cat" and "real_faults (de_down env)" and "real_faults (de_up env)"
    and "NewDatabaseClient env cfg None cat = (cat', Started p)"
  shows "\<not> dirty cat \<and> at_rest 4 cat' \<and> cat_db cat' = db_empty \<and> pl_acquired p = 1"
proof -
  obtain err m1 where d: "Down shop_migrations (de_down env) \<lparr>mig_locked = False, mig_cat = cat\<rparr> = (err, m1)"
    by (metis surj_pair)
  obtain err2 m2 where u: "Up shop_migrations (de_up env) m1 = (err2, m2)" by (metis surj_pair)
  from assms(4) d u have p: "passed err" "passed err2" "cat' = mig_cat m2" "pl_acquired p = 1"
    by (auto simp: NewDatabaseClient_def or_fatal_def split: option.splits if_splits)
  have nd: "\<not> dirty cat"
    using locked_run_dirty [OF _ assms(2), of cat "readDown shop_migrations" False] p(1) d
    by (auto simp: Down_def)
  with assms(1) obtain k where k: "at_rest k cat" by (auto simp: settled_def)
  from Down_at_rest [OF k assms(2), of False] d p(1) have e: "mig_cat m1 = empty_catalog" by simp
  have m1: "m1 = \<lparr>mig_locked = mig_locked m1, mig_cat = empty_catalog\<rparr>"
    using e by (cases m1) simp
  have "at_rest 0 empty_catalog" by (simp add: at_rest_0)
  moreover have "Up shop_migrations (de_up env) \<lparr>mig_locked = mig_locked m1, mig_cat = empty_catalog\<rparr> = (err2, m2)"
    by (subst m1 [symmetric]) (rule u)
  ultimately have "at_rest 4 (mig_cat m2) \<and> cat_db (mig_cat m2) = cat_db empty_catalog"
    using Up_at_rest [of 0 empty_catalog "de_up env" "mig_locked m1"] assms(3) p(2) by simp
  then have "at_rest 4 (mig_cat m2) \<and> cat_db (mig_cat m2) = db_empty"
    by (simp add: empty_catalog_def)
  with nd p show ?thesis by simp
qed

lemma NewDatabaseClient_dirty:
  assumes "dirty cat" and "real_faults (de_down env)"
  shows "fst (NewDatabaseClient env cfg None cat) = cat"
proof -
  obtain err m1 where d: "Down shop_migrations (de_down env) \<lparr>mig_locked = False, mig_cat = cat\<rparr> = (err, m1)"
    by (metis surj_pair)
  with locked_run_dirty [OF assms, of "readDown shop_migrations" False] have "mig_cat m1 = cat" "\<not> passed err"
    by (simp_all add: Down_def)
  with d show ?thesis by (simp add: NewDatabaseClient_def or_fatal_def split: option.split)
qed

definition calm_db :: "db_env \<Rightarrow> bool" where
  "calm_db env \<longleftrightarrow> (\<forall>url. de_ParseConfig env url = None) \<and> de_NewWithConfig env = None \<and>
     de_Ping env = None \<and> de_WithInstance env = None \<and> (\<forall>path. de_NewWithDatabaseInstance env path = None) \<and>
     (\<forall>c. de_down env c = None) \<and> (\<forall>c. de_up env c = None)"

text \<open>From a schema at rest, a start on which nothing fails succeeds.\<close>

lemma NewDatabaseClient_calm:
  assumes "at_rest k cat" and "calm_db env"
  shows "\<exists>cat'. NewDatabaseClient env cfg None cat = (cat', Started \<lparr>pl_acquired = 1\<rparr>)"
proof -
  obtain err m1 where d: "Down shop_migrations (de_down env) \<lparr>mig_locked = False, mig_cat = cat\<rparr> = (err, m1)"
    by (metis surj_pair)
  obtain err2 m2 where u: "Up shop_migrations (de_up env) m1 = (err2, m2)" by (metis surj_pair)
  have f: "\<forall>c. de_down env c = None" "\<forall>c. de_up env c = None" "real_faults (de_down env)"
    using assms(2) by (simp_all add: calm_db_def real_faults_def)
  from Down_calm [OF assms(1) f(1)] d have p1: "passed err" "\<not> mig_locked m1" by simp_all
  from Down_at_rest [OF assms(1) f(3), of False] d p1(1) have "mig_cat m1 = empty_catalog" by simp
  with p1(2) have m1: "m1 = \<lparr>mig_locked = False, mig_cat = empty_catalog\<rparr>" by (cases m1) simp
  have "at_rest 0 empty_catalog" by (simp add: at_rest_0)
  from Up_calm [OF this f(2)] u m1 have "passed err2" by simp
  with assms(2) d u p1(1) show ?thesis
    by (simp add: NewDatabaseClient_def or_fatal_def calm_db_def)
qed

text \<open>The URL goes to the log with the password that \<open>MarshalJSON\<close> hides.\<close>

lemma postgresUrl_password: "\<exists>pre post. postgresUrl cfg = pre @ '':'' @ dbc_Password cfg @ ''@'' @ post"
  unfolding postgresUrl_def by (metis append.assoc)

end
