(* ===== verification/Telemetry.thy ===== *)
theory Telemetry
  imports Infra Http
begin

text \<open>
  Telemetry: the providers of \<open>internal/otel\<close> (\<open>otel.go\<close>, \<open>trace/trace.go\<close>, \<open>metric/metric.go\<close>), what is
  recorded on a span (\<open>error.go\<close>), the logger of \<open>internal/log/log.go\<close> and the hook of
  \<open>internal/log/context.go\<close> that every log line of a request goes through. The exporters are
  libraries: what their constructors and \<open>Shutdown\<close> answer comes from the environment.
\<close>

section \<open>Providers\<close>

datatype provider = TracerProvider | MeterProvider

text \<open>\<open>oe_order\<close> is the order in which the goroutines of \<open>ShutdownOtel\<close> finish.\<close>

record otel_env =
  oe_resource :: "string \<Rightarrow> go_error option"
  oe_traceExporter :: "string \<Rightarrow> go_error option"
  oe_traceRes :: "string \<Rightarrow> go_error option"
  oe_metricExporter :: "string \<Rightarrow> go_error option"
  oe_shutdown :: "provider \<Rightarrow> go_error option"
  oe_order :: "provider list \<Rightarrow> provider list"

definition InitTracerProvider :: "otel_env \<Rightarrow> string \<Rightarrow> string \<Rightarrow> go_error + provider" where
  "InitTracerProvider env endpoint serviceName =
     (case oe_traceExporter env endpoint of
        Some e \<Rightarrow> Inl (ErrWrap ''failed creating traceExporter with error='' e)
      | None \<Rightarrow>
      case oe_traceRes env serviceName of
        Some e \<Rightarrow> Inl (ErrWrap ''failed creating traceRes with error='' e)
      | None \<Rightarrow> Inr TracerProvider)"

definition InitMetricProvider :: "otel_env \<Rightarrow> string \<Rightarrow> go_error + provider" where
  "InitMetricProvider env endpoint =
     (case oe_metricExporter env endpoint of
        Some e \<Rightarrow> Inl (ErrWrap ''failed to initializing otlpMetricExporter with error='' e)
      | None \<Rightarrow> Inr MeterProvider)"

text \<open>\<open>fmt.Sprintf("%s:%d", config.Host, config.Port)\<close>.\<close>

definition otel_endpoint :: "otel_config \<Rightarrow> string" where
  "otel_endpoint cfg = otl_Host cfg @ '':'' @ format_d (otl_Port cfg)"

definition InitOtelSdk :: "otel_env \<Rightarrow> string \<Rightarrow> otel_config \<Rightarrow> provider list \<times> go_error option" where
  "InitOtelSdk env serviceName cfg =
     (case oe_resource env serviceName of
        Some e \<Rightarrow> ([], Some (ErrWrap ''failed initializing otel tracerProvider with error='' e))
      | None \<Rightarrow>
      case InitTracerProvider env (otel_endpoint cfg) serviceName of
        Inl e \<Rightarrow> ([], Some (ErrWrap ''failed initializing otel tracerProvider with error='' e))
      | Inr tracerProvider \<Rightarrow>
      case InitMetricProvider env (otel_endpoint cfg) of
        Inl e \<Rightarrow> ([tracerProvider], Some (ErrWrap ''failed initializing otel meterProvider with error='' e))
      | Inr meterProvider \<Rightarrow> ([tracerProvider, meterProvider], None))"

text \<open>\<open>ShutdownOtel\<close>: one goroutine for each function; \<open>errors.Join(newErr)\<close> overwrites what an earlier
  one left.\<close>

definition ShutdownOtel :: "otel_env \<Rightarrow> provider list \<Rightarrow> go_error option" where
  "ShutdownOtel env shutdownFuncs =
     foldl (\<lambda>err shutdown. case oe_shutdown env shutdown of
              Some newErr \<Rightarrow> errors_Join [Some newErr]
            | None \<Rightarrow> err)
       None (oe_order env shutdownFuncs)"

text \<open>A start without an error has both providers, and only such a start.\<close>

lemma InitOtelSdk_None:
  "snd (InitOtelSdk env serviceName cfg) = None \<longleftrightarrow> fst (InitOtelSdk env serviceName cfg) = [TracerProvider, MeterProvider]"
  by (simp add: InitOtelSdk_def InitTracerProvider_def InitMetricProvider_def split: option.split)

lemma ShutdownOtel_last:
  "ShutdownOtel env fs = None \<longleftrightarrow> (\<forall>p \<in> set (oe_order env fs). oe_shutdown env p = None)"
proof -
  have "foldl (\<lambda>err shutdown. case oe_shutdown env shutdown of Some newErr \<Rightarrow> errors_Join [Some newErr] | None \<Rightarrow> err)
      e ps = None \<longleftrightarrow> e = None \<and> (\<forall>p \<in> set ps. oe_shutdown env p = None)" for e ps
    by (induction ps arbitrary: e) (auto simp: errors_Join_def map_filter_simps split: option.splits)
  then show ?thesis by (simp add: ShutdownOtel_def)
qed

section \<open>Spans and log lines\<close>

record span =
  spn_events :: "string list"
  spn_status :: "string option"
  spn_errors :: "go_error list"

definition RecordError :: "go_error option \<Rightarrow> span \<Rightarrow> span" where
  "RecordError err s =
     (case err of
        None \<Rightarrow> s
      | Some e \<Rightarrow> s\<lparr>spn_events := spn_events s @ [Error e], spn_status := Some (Error e),
                     spn_errors := spn_errors s @ [e]\<rparr>)"

datatype log_level = InfoLevel | TraceLevel

record logger =
  lg_level :: log_level
  lg_Filename :: string
  lg_Compress :: bool

text \<open>\<open>once.Do\<close>: the first call of the process decides; the file and the level of a later one are ignored.\<close>

definition log_Get :: "logger option \<Rightarrow> string \<Rightarrow> app_config \<Rightarrow> logger" where
  "log_Get once filepath config =
     (case once of
        Some logger \<Rightarrow> logger
      | None \<Rightarrow> \<lparr>lg_level = (if app_Env config = ''development'' then TraceLevel else InfoLevel),
                 lg_Filename = filepath, lg_Compress = True\<rparr>)"

text \<open>The hook of the request logger; the span is what \<open>trace.SpanContextFromContext\<close> finds.\<close>

record span_context =
  spc_TraceID :: string
  spc_SpanID :: string
  spc_IsValid :: bool

definition AttachTraceIdFromContext ::
    "span_context \<Rightarrow> ctx \<Rightarrow> (string \<times> string) list \<Rightarrow> (string \<times> string) list outcome" where
  "AttachTraceIdFromContext spanCtx c e =
     and_then (RequestIDFromContext c) (\<lambda>reqId.
       Ret (e @ [(''request_id'', reqId)] @
            (if spc_IsValid spanCtx
             then [(''trace_id'', spc_TraceID spanCtx), (''span_id'', spc_SpanID spanCtx)] else [])))"

text \<open>\<open>Logging\<close> attaches the identifier before it installs the hook, so no log line of a request panics.\<close>

lemma hook_after_Logging:
  "\<exists>fields. AttachTraceIdFromContext spanCtx (AttachRequestIDToContext c reqId) e =
     Ret (e @ (''request_id'', reqId) # fields)"
  by (simp add: AttachTraceIdFromContext_def RequestIDFromContext_def AttachRequestIDToContext_def)

lemma hook_panics_without_id:
  "(\<exists>m. AttachTraceIdFromContext spanCtx c e = Panic m) \<longleftrightarrow> ctx_requestId c = None"
  by (simp add: AttachTraceIdFromContext_def RequestIDFromContext_def split: option.split)

end
