(* ===== verification/Lifecycle.thy ===== *)
theory Lifecycle
  imports Telemetry OrderWorker
begin

text \<open>
  The life of a service process: \<open>main.go\<close>, \<open>cmd/root.go\<close> and the five \<open>Run...Service\<close> functions. A
  function is the list of its steps; \<open>defer\<close> pushes on a stack that is run when the function
  returns. The goroutine that serves is taken to have come as far as listening, or failing to, before
  the signal arrives.
\<close>

section \<open>Processes\<close>

datatype event =
    OtelStarted | DbOpened | CacheOpened | Serving | ListenFailed | WorkerReturned
  | ServerStopped | ServerAbandoned | QueueClosed | CacheClosed | CacheNotClosed | DbClosed
  | OtelStopped | OtelNotStopped

datatype deferred = StopOtel | CloseDb | CloseCache | CloseQueue | StopServer

record process =
  pr_cat :: catalog
  pr_config :: "config option"
  pr_shutdownFuncs :: "provider list"
  pr_pool :: "pgx_pool option"
  pr_cacheOnce :: bool
  pr_defers :: "deferred list"
  pr_log :: "event list"

text \<open>How far a function comes: on to the next step, out by \<open>return\<close>, out of the process by
  \<open>os.Exit\<close> or a panic, or nowhere.\<close>

datatype progress = Continues | Returns | Exits go_error | Dies string | Waits

type_synonym step = "process \<Rightarrow> process \<times> progress"

fun run_steps :: "step list \<Rightarrow> step" where
  "run_steps [] p = (p, Continues)"
| "run_steps (s # ss) p =
     (case s p of
        (p', Continues) \<Rightarrow> run_steps ss p'
      | (p', out) \<Rightarrow> (p', out))"

definition note_event :: "event \<Rightarrow> process \<Rightarrow> process" where
  "note_event e p = p\<lparr>pr_log := pr_log p @ [e]\<rparr>"

record service_env =
  se_config :: "string \<Rightarrow> config start"
  se_otel :: otel_env
  se_db :: db_env
  se_cache :: cache_env
  se_listen :: "go_error option"
  se_interrupted :: bool
  se_busy :: bool
  se_worker :: worker_status
  se_cacheClose :: "go_error option"

section \<open>The steps of starting\<close>

definition read_config :: "service_env \<Rightarrow> string \<Rightarrow> step" where
  "read_config env app p =
     (case se_config env app of
        Fatal e \<Rightarrow> (p, Exits e)
      | Started cfg \<Rightarrow> (p\<lparr>pr_config := Some cfg\<rparr>, Continues))"

definition start_otel :: "service_env \<Rightarrow> string \<Rightarrow> step" where
  "start_otel env app p =
     (case pr_config p of
        None \<Rightarrow> (p, Dies ''no configuration'')
      | Some cfg \<Rightarrow>
          (case InitOtelSdk (se_otel env) app (cfg_Otel cfg) of
             (fs, Some e) \<Rightarrow> (p, Returns)
           | (fs, None) \<Rightarrow> (note_event OtelStarted (p\<lparr>pr_shutdownFuncs := fs\<rparr>), Continues)))"

definition defer_call :: "deferred \<Rightarrow> step" where
  "defer_call d p = (p\<lparr>pr_defers := d # pr_defers p\<rparr>, Continues)"

definition connect_db :: "service_env \<Rightarrow> step" where
  "connect_db env p =
     (case pr_config p of
        None \<Rightarrow> (p, Dies ''no configuration'')
      | Some cfg \<Rightarrow>
          (case NewDatabaseClient (se_db env) (cfg_Database cfg) (pr_pool p) (pr_cat p) of
             (cat, Fatal e) \<Rightarrow> (p\<lparr>pr_cat := cat\<rparr>, Exits e)
           | (cat, Started pool) \<Rightarrow>
               (note_event DbOpened (p\<lparr>pr_cat := cat, pr_pool := Some pool\<rparr>), Continues)))"

definition connect_cache :: "service_env \<Rightarrow> step" where
  "connect_cache env p =
     (case NewCacheClient (se_cache env) (pr_cacheOnce p) of
        Fatal e \<Rightarrow> (p, Exits e)
      | Started u \<Rightarrow> (note_event CacheOpened (p\<lparr>pr_cacheOnce := True\<rparr>), Continues))"

section \<open>Serving and stopping\<close>

definition shutdown_otel :: "service_env \<Rightarrow> process \<Rightarrow> process" where
  "shutdown_otel env p =
     note_event (if ShutdownOtel (se_otel env) (pr_shutdownFuncs p) = None then OtelStopped else OtelNotStopped) p"

text \<open>\<open>go func() { if err := server.ListenAndServe(); ... }()\<close>: a server that cannot listen only stops the
  telemetry; the process goes on without it.\<close>

definition serve_requests :: "service_env \<Rightarrow> step" where
  "serve_requests env p =
     (case se_listen env of
        None \<Rightarrow> (note_event Serving p, Continues)
      | Some e \<Rightarrow> (shutdown_otel env (note_event ListenFailed p), Continues))"

text \<open>\<open><-c.Done()\<close>.\<close>

definition await_interrupt :: "service_env \<Rightarrow> step" where
  "await_interrupt env p = (p, if se_interrupted env then Continues else Waits)"

text \<open>\<open>go orderWorker.StartWorker(c, &wg); wg.Wait()\<close>; how the worker ends is a state of
  \<open>OrderWorker\<close>.\<close>

definition await_worker :: "service_env \<Rightarrow> step" where
  "await_worker env p =
     (case se_worker env of
        Stopped \<Rightarrow> (note_event WorkerReturned p, Continues)
      | Running \<Rightarrow> (p, Waits)
      | Stuck \<Rightarrow> (p, Waits)
      | Crashed m \<Rightarrow> (p, Dies m))"

text \<open>\<open>server.Shutdown(c)\<close> waits for active connections until \<open>c\<close> is done; \<open>se_busy\<close> says that some are
  active.\<close>

definition Shutdown :: "service_env \<Rightarrow> go_error option" where
  "Shutdown env =
     (if se_busy env \<and> se_interrupted env then Some (ErrVar ''context.Canceled'' ''context canceled'') else None)"

definition stop_server :: "service_env \<Rightarrow> process \<Rightarrow> process" where
  "stop_server env p = note_event (if Shutdown env = None then ServerStopped else ServerAbandoned) p"

text \<open>\<open>if err = server.Shutdown(c); err != nil { return }\<close> in the body of a function.\<close>

definition stop_server_or_return :: "service_env \<Rightarrow> step" where
  "stop_server_or_return env p =
     (stop_server env p, if Shutdown env = None then Continues else Returns)"

definition stop_otel_or_return :: "service_env \<Rightarrow> step" where
  "stop_otel_or_return env p =
     (shutdown_otel env p,
      if ShutdownOtel (se_otel env) (pr_shutdownFuncs p) = None then Continues else Returns)"

text \<open>\<open>db.Close()\<close> waits until every connection has been given back.\<close>

fun run_deferred :: "service_env \<Rightarrow> deferred \<Rightarrow> step" where
  "run_deferred env StopOtel p = (shutdown_otel env p, Continues)"
| "run_deferred env CloseDb p =
     (case pr_pool p of
        None \<Rightarrow> (note_event DbClosed p, Continues)
      | Some pool \<Rightarrow> if pl_acquired pool = 0 then (note_event DbClosed p, Continues) else (p, Waits))"
| "run_deferred env CloseCache p =
     (note_event (if se_cacheClose env = None then CacheClosed else CacheNotClosed) p, Continues)"
| "run_deferred env CloseQueue p = (note_event QueueClosed p, Continues)"
| "run_deferred env StopServer p = (stop_server env p, Continues)"

text \<open>A function that returns, at its end or before, runs what it deferred, the last first.\<close>

definition run_main :: "service_env \<Rightarrow> step list \<Rightarrow> step" where
  "run_main env steps p =
     (case run_steps steps p of
        (p', Continues) \<Rightarrow> run_steps (map (run_deferred env) (pr_defers p')) p'
      | (p', Returns) \<Rightarrow> run_steps (map (run_deferred env) (pr_defers p')) p'
      | (p', out) \<Rightarrow> (p', out))"

section \<open>The services\<close>

definition RunUserService :: "service_env \<Rightarrow> step" where
  "RunUserService env = run_main env
     [read_config env ''user-service'',
      start_otel env ''user-service'', defer_call StopOtel,
      connect_db env, defer_call CloseDb,
      connect_cache env, defer_call CloseCache,
      serve_requests env,
      await_interrupt env]"

definition RunProductService :: "service_env \<Rightarrow> step" where
  "RunProductService env = run_main env
     [read_config env ''product-service'',
      start_otel env ''product-service'', defer_call StopOtel,
      connect_db env, defer_call CloseDb,
      connect_cache env, defer_call CloseCache,
      defer_call StopServer,
      serve_requests env,
      await_interrupt env]"

definition RunCartService :: "service_env \<Rightarrow> step" where
  "RunCartService env = run_main env
     [read_config env ''cart-service'',
      start_otel env ''cart-service'', defer_call StopOtel,
      connect_db env, defer_call CloseDb,
      connect_cache env, defer_call CloseCache,
      serve_requests env,
      await_interrupt env,
      stop_server_or_return env]"

definition RunOrderService :: "service_env \<Rightarrow> step" where
  "RunOrderService env = run_main env
     [read_config env ''order-service'',
      start_otel env ''order-service'', defer_call StopOtel,
      connect_db env, defer_call CloseDb,
      connect_cache env, defer_call CloseCache,
      defer_call CloseQueue,
      defer_call StopServer,
      serve_requests env,
      await_worker env,
      await_interrupt env]"

definition RunNotificationService :: "service_env \<Rightarrow> step" where
  "RunNotificationService env = run_main env
     [read_config env ''notification-service'',
      start_otel env ''notification-service'',
      serve_requests env,
      await_interrupt env,
      stop_server_or_return env,
      stop_otel_or_return env]"

section \<open>The commands\<close>

text \<open>The wrappers of \<open>cmd/*.go\<close>.\<close>

definition runUserService :: "service_env \<Rightarrow> step" where
  "runUserService c = RunUserService c"

definition runProductService :: "service_env \<Rightarrow> step" where
  "runProductService c = RunProductService c"

definition runCartService :: "service_env \<Rightarrow> step" where
  "runCartService c = RunCartService c"

definition runOrderService :: "service_env \<Rightarrow> step" where
  "runOrderService c = RunOrderService c"

definition runNotificationService :: "service_env \<Rightarrow> step" where
  "runNotificationService c = RunNotificationService c"

lemmas wrappers [step_simps] = runUserService_def runProductService_def runCartService_def runOrderService_def
  runNotificationService_def

datatype command = Cart | Notification | Order | Product | User

fun run_command :: "command \<Rightarrow> service_env \<Rightarrow> step" where
  "run_command Cart env = runCartService env"
| "run_command Notification env = runNotificationService env"
| "run_command Order env = runOrderService env"
| "run_command Product env = runProductService env"
| "run_command User env = runUserService env"

text \<open>\<open>Start\<close>: cobra looks the arguments up in the table of commands (\<open>find_command\<close>); without a command it
  prints the usage, with an unknown one it fails, which is fatal.\<close>

definition commands :: "(string \<times> command) list" where
  "commands = [(''cart'', Cart), (''notification'', Notification), (''order'', Order), (''product'', Product),
     (''user'', User)]"

definition Start :: "((string \<times> command) list \<Rightarrow> string list \<Rightarrow> go_error + command option) \<Rightarrow> string list \<Rightarrow>
    service_env \<Rightarrow> step" where
  "Start find_command args env p =
     (case find_command commands args of
        Inl e \<Rightarrow> (p, Exits e)
      | Inr None \<Rightarrow> (p, Returns)
      | Inr (Some cmd) \<Rightarrow>
          (case run_command cmd env p of
             (p', Continues) \<Rightarrow> (p', Returns)
           | (p', out) \<Rightarrow> (p', out)))"

text \<open>Every service has a name of its own, so a name starts exactly one of them.\<close>

lemma commands_total: "map_of commands nm = Some cmd \<longleftrightarrow> (nm, cmd) \<in> set commands" "cmd \<in> snd ` set commands"
  by (auto simp: commands_def) (cases cmd; simp)

definition new_process :: "catalog \<Rightarrow> process" where
  "new_process cat = \<lparr>pr_cat = cat, pr_config = None, pr_shutdownFuncs = [], pr_pool = None,
     pr_cacheOnce = False, pr_defers = [], pr_log = []\<rparr>"

lemmas start_steps [step_simps] = run_main_def read_config_def start_otel_def defer_call_def connect_db_def
  connect_cache_def new_process_def

end
