(* ===== verification/LifecycleLaws.thy ===== *)
theory LifecycleLaws
  imports Lifecycle
begin

text \<open>
  What the service functions have in common: they come up in the same order, nothing but the database
  client touches the schema, and the connection the migrations keep stays taken.
\<close>

section \<open>Running steps\<close>

lemma run_steps_append: "run_steps (xs @ ys) p =
    (case run_steps xs p of (p', Continues) \<Rightarrow> run_steps ys p' | (p', out) \<Rightarrow> (p', out))"
proof (induction xs arbitrary: p)
  case Nil
  then show ?case by simp
next
  case (Cons s xs)
  then show ?case by (cases "s p") (simp split: progress.split)
qed

lemma note_event_sel [simp]:
  "pr_cat (note_event e p) = pr_cat p" "pr_pool (note_event e p) = pr_pool p"
  "pr_defers (note_event e p) = pr_defers p" "pr_log (note_event e p) = pr_log p @ [e]"
  "pr_config (note_event e p) = pr_config p" "pr_shutdownFuncs (note_event e p) = pr_shutdownFuncs p"
  "pr_cacheOnce (note_event e p) = pr_cacheOnce p"
  by (simp_all add: note_event_def)

lemma shutdown_otel_sel [simp]:
  "pr_cat (shutdown_otel env p) = pr_cat p" "pr_pool (shutdown_otel env p) = pr_pool p"
  "pr_defers (shutdown_otel env p) = pr_defers p"
  by (simp_all add: shutdown_otel_def)

lemma stop_server_sel [simp]:
  "pr_cat (stop_server env p) = pr_cat p" "pr_pool (stop_server env p) = pr_pool p"
  "pr_defers (stop_server env p) = pr_defers p"
  by (simp_all add: stop_server_def)

text \<open>A step that neither touches the schema, the pool nor the deferred calls.\<close>

definition quiet :: "step \<Rightarrow> bool" where
  "quiet s \<longleftrightarrow> (\<forall>p. pr_cat (fst (s p)) = pr_cat p \<and> pr_pool (fst (s p)) = pr_pool p \<and>
     pr_defers (fst (s p)) = pr_defers p)"

lemma quiet_steps [simp]:
  "quiet (serve_requests env)" "quiet (await_interrupt env)" "quiet (await_worker env)"
  "quiet (stop_server_or_return env)" "quiet (stop_otel_or_return env)" "quiet (run_deferred env d)"
  by (simp_all add: quiet_def serve_requests_def await_interrupt_def await_worker_def stop_server_or_return_def
      stop_otel_or_return_def split: option.split worker_status.split)
    (cases d; simp split: option.split)

lemma run_quiet_steps:
  assumes "\<forall>s \<in> set ss. quiet s"
  shows "pr_cat (fst (run_steps ss p)) = pr_cat p \<and> pr_pool (fst (run_steps ss p)) = pr_pool p \<and>
    pr_defers (fst (run_steps ss p)) = pr_defers p"
  using assms
proof (induction ss arbitrary: p)
  case Nil
  then show ?case by simp
next
  case (Cons s ss)
  obtain p1 out where s: "s p = (p1, out)" by (metis surj_pair)
  have "quiet s" using Cons.prems by simp
  with s have "pr_cat p1 = pr_cat p" "pr_pool p1 = pr_pool p" "pr_defers p1 = pr_defers p"
    by (metis quiet_def fst_conv)+
  with s Cons show ?case by (cases out) simp_all
qed

section \<open>Coming up\<close>

text \<open>What the four services with a database do first.\<close>

definition bring_up :: "string \<Rightarrow> service_env \<Rightarrow> step list" where
  "bring_up app env =
     [read_config env app, start_otel env app, defer_call StopOtel, connect_db env, defer_call CloseDb,
      connect_cache env, defer_call CloseCache]"

text \<open>A step that only defers a call; the last two lists are the rest of the functions.\<close>

fun app_name :: "command \<Rightarrow> string" where
  "app_name Cart = ''cart-service''"
| "app_name Notification = ''notification-service''"
| "app_name Order = ''order-service''"
| "app_name Product = ''product-service''"
| "app_name User = ''user-service''"

fun more_defers :: "command \<Rightarrow> deferred list" where
  "more_defers Product = [StopServer]"
| "more_defers Order = [CloseQueue, StopServer]"
| "more_defers c = []"

fun rest_of :: "command \<Rightarrow> service_env \<Rightarrow> step list" where
  "rest_of Cart env = [serve_requests env, await_interrupt env, stop_server_or_return env]"
| "rest_of Order env = [serve_requests env, await_worker env, await_interrupt env]"
| "rest_of c env = [serve_requests env, await_interrupt env]"

lemma run_command_steps:
  assumes "c \<noteq> Notification"
  shows "run_command c env =
    run_main env (bring_up (app_name c) env @ map defer_call (more_defers c) @ rest_of c env)"
  using assms
  by (cases c) (simp_all add: wrappers RunCartService_def RunOrderService_def RunProductService_def
      RunUserService_def bring_up_def)

lemma rest_of_quiet: "\<forall>s \<in> set (rest_of c env). quiet s"
  by (cases c) simp_all

lemma run_defers: "run_steps (map defer_call ds) p = (p\<lparr>pr_defers := rev ds @ pr_defers p\<rparr>, Continues)"
  by (induction ds arbitrary: p) (simp_all add: defer_call_def)

text \<open>Either the service is up, with three calls deferred, or it stops before it serves; then only the
  telemetry can be waiting to be stopped.\<close>

lemma bring_up_cases:
  assumes "run_steps (bring_up app env) (new_process cat) = (p, out)"
  shows "(out = Continues \<and> pr_defers p = [CloseCache, CloseDb, StopOtel] \<and>
      pr_log p = [OtelStarted, DbOpened, CacheOpened] \<and>
      (\<exists>cfg pool. NewDatabaseClient (se_db env) cfg None cat = (pr_cat p, Started pool) \<and> pr_pool p = Some pool)) \<or>
    ((\<exists>e. out = Exits e) \<or> out = Returns \<and> pr_defers p = [] \<and> pr_cat p = cat) \<and> Serving \<notin> set (pr_log p) \<and>
      (pr_cat p = cat \<or> (\<exists>cfg. pr_cat p = fst (NewDatabaseClient (se_db env) cfg None cat)))"
proof (cases "se_config env app")
  case (Fatal e)
  with assms show ?thesis by (auto simp: bring_up_def read_config_def new_process_def)
next
  case cfg: (Started cfg)
  obtain fs err where otel: "InitOtelSdk (se_otel env) app (cfg_Otel cfg) = (fs, err)" by (metis surj_pair)
  show ?thesis
  proof (cases err)
    case (Some e)
    with assms cfg otel show ?thesis
      by (auto simp: bring_up_def read_config_def start_otel_def new_process_def)
  next
    case ok: None
    obtain cat' r where db: "NewDatabaseClient (se_db env) (cfg_Database cfg) None cat = (cat', r)"
      by (metis surj_pair)
    then have cat': "cat' = fst (NewDatabaseClient (se_db env) (cfg_Database cfg) None cat)" by simp
    show ?thesis
    proof (cases r)
      case (Fatal e)
      with assms cfg otel ok db have "p = note_event OtelStarted
          ((new_process cat)\<lparr>pr_config := Some cfg, pr_shutdownFuncs := fs\<rparr>)
            \<lparr>pr_defers := [StopOtel], pr_cat := cat'\<rparr>" "out = Exits e"
        by (simp_all add: bring_up_def read_config_def start_otel_def defer_call_def connect_db_def new_process_def)
      with cat' show ?thesis by (auto simp: new_process_def)
    next
      case (Started pool)
      show ?thesis
      proof (cases "NewCacheClient (se_cache env) False")
        case (Fatal e)
        with assms cfg otel ok db Started have "out = Exits e" "pr_cat p = cat'" "Serving \<notin> set (pr_log p)"
          by (auto simp: bring_up_def read_config_def start_otel_def defer_call_def connect_db_def
              connect_cache_def new_process_def)
        with cat' show ?thesis by auto
      next
        case up: (Started u)
        with assms cfg otel ok db Started show ?thesis
          by (auto simp: bring_up_def read_config_def start_otel_def defer_call_def connect_db_def
              connect_cache_def new_process_def)
      qed
    qed
  qed
qed

section \<open>A whole life\<close>

lemma run_main_cases: "run_steps ss p = (p2, st) \<Longrightarrow> run_main env ss p =
    (if st = Continues \<or> st = Returns then run_steps (map (run_deferred env) (pr_defers p2)) p2 else (p2, st))"
  by (cases st) (simp_all add: run_main_def)

lemma run_main_quiet:
  assumes "\<forall>s \<in> set ss. quiet s"
  shows "pr_cat (fst (run_main env ss p)) = pr_cat p"
proof -
  obtain p2 st where r: "run_steps ss p = (p2, st)" by (metis surj_pair)
  have "pr_cat p2 = pr_cat p" using run_quiet_steps [OF assms, of p] r by simp
  with run_main_cases [OF r] run_quiet_steps [of "map (run_deferred env) (pr_defers p2)" p2] show ?thesis by simp
qed

definition unfinished :: "progress \<Rightarrow> bool" where
  "unfinished out \<longleftrightarrow> out = Waits \<or> (\<exists>m. out = Dies m)"

text \<open>A service that came up: the rest of its function, then what it deferred.\<close>

lemma run_command_up:
  assumes "c \<noteq> Notification"
    and "run_steps (bring_up (app_name c) env) (new_process cat) = (p0, Continues)"
    and "run_command c env (new_process cat) = (p, out)"
  shows "\<exists>p2 st. run_steps (rest_of c env) (p0\<lparr>pr_defers := rev (more_defers c) @ pr_defers p0\<rparr>) = (p2, st) \<and>
    (if st = Continues \<or> st = Returns
     then run_steps (map (run_deferred env) (rev (more_defers c) @ pr_defers p0)) p2 = (p, out)
     else (p, out) = (p2, st))"
proof -
  let ?p1 = "p0\<lparr>pr_defers := rev (more_defers c) @ pr_defers p0\<rparr>"
  obtain p2 st where r: "run_steps (rest_of c env) ?p1 = (p2, st)" by (metis surj_pair)
  have "pr_defers p2 = pr_defers ?p1"
    using run_quiet_steps [OF rest_of_quiet, of c env ?p1] r by simp
  then have d: "pr_defers p2 = rev (more_defers c) @ pr_defers p0" by simp
  have "run_steps (bring_up (app_name c) env @ map defer_call (more_defers c) @ rest_of c env) (new_process cat) =
      (p2, st)"
    using assms(2) r by (simp add: run_steps_append run_defers split: progress.split)
  from run_main_cases [OF this, of env] assms(3) have
    "(if st = Continues \<or> st = Returns then run_steps (map (run_deferred env) (pr_defers p2)) p2 else (p2, st)) = (p, out)"
    by (simp only: run_command_steps [OF assms(1)])
  with r d show ?thesis by (auto simp del: map_append)
qed

lemma run_command_cat:
  assumes "c \<noteq> Notification" and "run_command c env (new_process cat) = (p, out)"
  shows "(\<exists>cfg pool. NewDatabaseClient (se_db env) cfg None cat = (pr_cat p, Started pool)) \<or>
    Serving \<notin> set (pr_log p) \<and>
      (pr_cat p = cat \<or> (\<exists>cfg. pr_cat p = fst (NewDatabaseClient (se_db env) cfg None cat)))"
proof -
  obtain p0 st where up: "run_steps (bring_up (app_name c) env) (new_process cat) = (p0, st)" by (metis surj_pair)
  show ?thesis
  proof (cases "st = Continues")
    case True
    from run_command_up [OF assms(1) _ assms(2)] up True obtain p2 st2 where
      r: "run_steps (rest_of c env) (p0\<lparr>pr_defers := rev (more_defers c) @ pr_defers p0\<rparr>) = (p2, st2)"
      and f: "if st2 = Continues \<or> st2 = Returns
        then run_steps (map (run_deferred env) (rev (more_defers c) @ pr_defers p0)) p2 = (p, out)
        else (p, out) = (p2, st2)" by blast
    have "pr_cat p2 = pr_cat p0"
      using run_quiet_steps [OF rest_of_quiet, of c env "p0\<lparr>pr_defers := rev (more_defers c) @ pr_defers p0\<rparr>"] r
      by simp
    moreover have "pr_cat p = pr_cat p2"
      using f run_quiet_steps [of "map (run_deferred env) (rev (more_defers c) @ pr_defers p0)" p2]
      by (auto split: if_splits simp del: map_append)
    ultimately show ?thesis using bring_up_cases [OF up] True by auto
  next
    case False
    with bring_up_cases [OF up] have s: "(\<exists>e. st = Exits e) \<or> st = Returns \<and> pr_defers p0 = []"
      "Serving \<notin> set (pr_log p0)"
      "pr_cat p0 = cat \<or> (\<exists>cfg. pr_cat p0 = fst (NewDatabaseClient (se_db env) cfg None cat))" by auto
    from s(1) assms(2) up have "p = p0"
      by (auto simp: run_command_steps [OF assms(1)] run_main_def run_steps_append)
    with s show ?thesis by simp
  qed
qed

text \<open>The notification service has no database.\<close>

lemma notification_cat: "pr_cat (fst (run_command Notification env (new_process cat))) = cat"
proof -
  have "quiet (read_config env app)" "quiet (start_otel env app)" for app
    by (simp_all add: quiet_def read_config_def start_otel_def split: start.split option.split prod.split)
  then have "pr_cat (fst (RunNotificationService env (new_process cat))) = pr_cat (new_process cat)"
    unfolding RunNotificationService_def by (intro run_main_quiet) simp
  then show ?thesis by (simp add: new_process_def wrappers)
qed

lemma run_command_settled:
  assumes "settled cat" and "real_faults (de_down (se_db env))" and "real_faults (de_up (se_db env))"
  shows "settled (pr_cat (fst (run_command c env (new_process cat))))"
proof (cases "c = Notification")
  case True
  then show ?thesis using assms(1) notification_cat by simp
next
  case False
  obtain p out where "run_command c env (new_process cat) = (p, out)" by (metis surj_pair)
  with run_command_cat [OF False this] NewDatabaseClient_settled [OF assms] assms(1) show ?thesis
    by (metis fst_conv)
qed

lemma served_client:
  assumes "c \<noteq> Notification" and "settled cat"
    and "real_faults (de_down (se_db env))" and "real_faults (de_up (se_db env))"
    and "run_command c env (new_process cat) = (p, out)" and "Serving \<in> set (pr_log p)"
  shows "\<not> dirty cat \<and> at_rest 4 (pr_cat p) \<and> cat_db (pr_cat p) = db_empty"
  using run_command_cat [OF assms(1,5)] assms(6) NewDatabaseClient_started [OF assms(2-4)] by blast

text \<open>What a service that came up with a taken connection does after the signal.\<close>

lemma served_end:
  assumes "c \<noteq> Notification" and "pr_pool p0 = Some pool" and "pl_acquired pool \<noteq> 0"
    and "pr_defers p0 = [CloseCache, CloseDb, StopOtel]" and "pr_log p0 = [OtelStarted, DbOpened, CacheOpened]"
    and "run_steps (rest_of c env) (p0\<lparr>pr_defers := rev (more_defers c) @ pr_defers p0\<rparr>) = (p2, st)"
    and "if st = Continues \<or> st = Returns
      then run_steps (map (run_deferred env) (rev (more_defers c) @ pr_defers p0)) p2 = (p, out)
      else (p, out) = (p2, st)"
    and "Serving \<in> set (pr_log p)"
  shows "unfinished out \<and> set (pr_log p) \<inter> {DbClosed, OtelStopped, OtelNotStopped} = {} \<and>
    (se_interrupted env \<and> se_worker env = Stopped \<longrightarrow>
      out = Waits \<and> last (pr_log p) \<in> {CacheClosed, CacheNotClosed})"
proof (cases "se_listen env")
  case None
  show ?thesis
    using assms(1-7) None
    by (cases c)
      (auto simp: serve_requests_def await_interrupt_def await_worker_def stop_server_or_return_def
        stop_server_def unfinished_def split: if_splits worker_status.splits)
next
  case (Some e)
  have "Serving \<notin> set (pr_log p)"
    using assms(1-7) Some
    by (cases c)
      (auto simp: serve_requests_def await_interrupt_def await_worker_def stop_server_or_return_def
        stop_server_def shutdown_otel_def split: if_splits worker_status.splits)
  with assms(8) show ?thesis by simp
qed

end
