(* ===== verification/Watchers.thy ===== *)
theory Watchers
  imports Infra Http
begin

text \<open>
  What \<open>config.Get\<close> leaves behind. Each call tells viper to watch the directory of the file
  (\<open>WatchConfig\<close>), which opens a watcher of its own that lives until the file is removed, and
  \<open>VerifyToken\<close> calls it for every token. The kernel allows a user so many watchers
  (\<open>fs.inotify.max_user_instances\<close>); when it refuses one, viper calls \<open>os.Exit(1)\<close>.
\<close>

section \<open>Watching\<close>

text \<open>\<open>fe_instances\<close> is the number of watchers the kernel allows; the rest is the directory \<open>./env/\<close>.\<close>

record 'raw file_env =
  fe_instances :: nat
  fe_found :: "string \<Rightarrow> bool"
  fe_read :: "string \<Rightarrow> go_error + 'raw"
  fe_decode :: "'raw \<Rightarrow> go_error + config"

text \<open>The global viper: one entry for each open watcher, the file it watches, and the callback, which is the
  file of the last \<open>Get\<close>.\<close>

record viper =
  vp_open :: "string list"
  vp_onConfigChange :: "string option"

definition ErrTooManyWatchers :: go_error where
  "ErrTooManyWatchers = ErrNew ''too many open files''"

definition WatchConfig :: "'raw file_env \<Rightarrow> string \<Rightarrow> viper \<Rightarrow> viper start" where
  "WatchConfig env filename v =
     (if length (vp_open v) < fe_instances env
      then Started (if fe_found env filename then v\<lparr>vp_open := vp_open v @ [filename]\<rparr> else v)
      else Fatal (ErrWrap ''failed to create watcher: '' ErrTooManyWatchers))"

text \<open>\<open>config.Get\<close> with what it does to viper.\<close>

definition config_Get :: "'raw file_env \<Rightarrow> string \<Rightarrow> viper \<Rightarrow> viper \<times> config start" where
  "config_Get env filename v =
     (case WatchConfig env filename v of
        Fatal e \<Rightarrow> (v, Fatal e)
      | Started v1 \<Rightarrow>
          (v1\<lparr>vp_onConfigChange := Some filename\<rparr>, fst (Get (fe_read env) (fe_decode env) filename)))"

text \<open>\<open>VerifyToken\<close>, from the configuration it reads to the token: the secret is the one the file has now.\<close>

definition VerifyToken_config :: "'raw file_env \<Rightarrow> (string \<Rightarrow> string \<Rightarrow> go_error + jwt_token) \<Rightarrow> string \<Rightarrow> viper \<Rightarrow>
    viper \<times> (go_error + jwt_token) start" where
  "VerifyToken_config env parse_with token v =
     (case config_Get env ''user-service'' v of
        (v', Fatal e) \<Rightarrow> (v', Fatal e)
      | (v', Started cfg) \<Rightarrow> (v', Started (VerifyToken (parse_with (app_SecretKey (cfg_Application cfg))) token)))"

text \<open>The tokens of one request after the other.\<close>

fun verify_tokens :: "'raw file_env \<Rightarrow> (string \<Rightarrow> string \<Rightarrow> go_error + jwt_token) \<Rightarrow> string list \<Rightarrow> viper \<Rightarrow>
    viper \<times> (go_error + jwt_token) list start" where
  "verify_tokens env parse_with [] v = (v, Started [])"
| "verify_tokens env parse_with (t # ts) v =
     (case VerifyToken_config env parse_with t v of
        (v', Fatal e) \<Rightarrow> (v', Fatal e)
      | (v', Started r) \<Rightarrow>
          (case verify_tokens env parse_with ts v' of
             (v'', Fatal e) \<Rightarrow> (v'', Fatal e)
           | (v'', Started rs) \<Rightarrow> (v'', Started (r # rs))))"

text \<open>One change of a file: each watcher it has at that moment calls the callback, which calls \<open>Get\<close>. Its
  removal ends its watchers.\<close>

fun call_back :: "'raw file_env \<Rightarrow> nat \<Rightarrow> viper \<Rightarrow> viper \<times> unit start" where
  "call_back env 0 v = (v, Started ())"
| "call_back env (Suc n) v =
     (case vp_onConfigChange v of
        None \<Rightarrow> call_back env n v
      | Some filename \<Rightarrow>
          (case config_Get env filename v of
             (v', Fatal e) \<Rightarrow> (v', Fatal e)
           | (v', Started cfg) \<Rightarrow> call_back env n v'))"

definition config_changed :: "'raw file_env \<Rightarrow> string \<Rightarrow> viper \<Rightarrow> viper \<times> unit start" where
  "config_changed env filename v = call_back env (length (filter (\<lambda>f. f = filename) (vp_open v))) v"

definition config_removed :: "string \<Rightarrow> viper \<Rightarrow> viper" where
  "config_removed filename v = v\<lparr>vp_open := filter (\<lambda>f. f \<noteq> filename) (vp_open v)\<rparr>"

section \<open>What the calls add up to\<close>

text \<open>A file that is there and right.\<close>

definition good_file :: "'raw file_env \<Rightarrow> string \<Rightarrow> config \<Rightarrow> bool" where
  "good_file env filename cfg \<longleftrightarrow> fe_found env filename \<and>
     (\<exists>raw. fe_read env filename = Inr raw \<and> fe_decode env raw = Inr cfg)"

definition watched :: "string \<Rightarrow> nat \<Rightarrow> viper \<Rightarrow> viper" where
  "watched filename n v =
     (if n = 0 then v
      else v\<lparr>vp_open := vp_open v @ replicate n filename, vp_onConfigChange := Some filename\<rparr>)"

lemma watched_open [simp]: "vp_open (watched filename n v) = vp_open v @ replicate n filename"
  by (simp add: watched_def)

lemma watched_0 [simp]: "watched filename 0 v = v"
  by (simp add: watched_def)

lemma watched_watched [simp]: "watched filename m (watched filename n v) = watched filename (n + m) v"
  by (simp add: watched_def replicate_add)

lemma watched_callback [simp]: "0 < n \<Longrightarrow> vp_onConfigChange (watched filename n v) = Some filename"
  by (simp add: watched_def)

lemma config_Get_good:
  assumes "good_file env filename cfg"
  shows "config_Get env filename v =
    (if length (vp_open v) < fe_instances env then (watched filename 1 v, Started cfg)
     else (v, Fatal (ErrWrap ''failed to create watcher: '' ErrTooManyWatchers)))"
  using assms by (auto simp: config_Get_def WatchConfig_def good_file_def Get_def watched_def)

text \<open>An edit that breaks the file ends the process of whoever watches it.\<close>

lemma config_Get_broken:
  assumes "fe_read env filename = Inl e"
  shows "\<exists>v' err. config_Get env filename v = (v', Fatal err)"
  using assms by (auto simp: config_Get_def Get_def split: start.split)

lemma broken_edit_exits:
  assumes "fe_read env f = Inl e" and "vp_onConfigChange v = Some f" and "filename \<in> set (vp_open v)"
  shows "\<exists>v' err. config_changed env filename v = (v', Fatal err)"
proof -
  have "filter (\<lambda>f. f = filename) (vp_open v) \<noteq> []" using assms(3) by (simp add: filter_empty_conv)
  then obtain n where "length (filter (\<lambda>f. f = filename) (vp_open v)) = Suc n"
    by (metis length_0_conv not0_implies_Suc)
  with assms(2) config_Get_broken [OF assms(1), of v] show ?thesis by (auto simp: config_changed_def)
qed

lemma verify_tokens_good:
  assumes "good_file env ''user-service'' cfg"
  shows "length (vp_open v) + length ts \<le> fe_instances env \<Longrightarrow>
      verify_tokens env parse_with ts v = (watched ''user-service'' (length ts) v,
        Started (map (VerifyToken (parse_with (app_SecretKey (cfg_Application cfg)))) ts))"
    and "length (vp_open v) \<le> fe_instances env \<Longrightarrow> fe_instances env < length (vp_open v) + length ts \<Longrightarrow>
      verify_tokens env parse_with ts v = (watched ''user-service'' (fe_instances env - length (vp_open v)) v,
        Fatal (ErrWrap ''failed to create watcher: '' ErrTooManyWatchers))"
  by (induction ts arbitrary: v) (auto simp: VerifyToken_config_def config_Get_good [OF assms] Suc_diff_Suc)

lemma call_back_good:
  assumes "good_file env filename cfg"
  shows "vp_onConfigChange v = Some filename \<Longrightarrow> length (vp_open v) + n \<le> fe_instances env \<Longrightarrow>
      call_back env n v = (watched filename n v, Started ())"
    and "vp_onConfigChange v = Some filename \<Longrightarrow> length (vp_open v) \<le> fe_instances env \<Longrightarrow>
      fe_instances env < length (vp_open v) + n \<Longrightarrow>
      call_back env n v = (watched filename (fe_instances env - length (vp_open v)) v,
        Fatal (ErrWrap ''failed to create watcher: '' ErrTooManyWatchers))"
  by (induction n arbitrary: v) (auto simp: config_Get_good [OF assms] Suc_diff_Suc)

end
