(* ===== verification/LifecycleClaims.thy ===== *)
theory LifecycleClaims
  imports LifecycleLaws Watchers ShopClaims
begin

text \<open>
  The properties of starting and stopping the services, of what a start means for a shop that is
  already there, and of the configuration that is read again while a service runs.
\<close>

section \<open>A start on which nothing fails\<close>

definition calm_env :: service_env where
  "calm_env =
     \<lparr>se_config = (\<lambda>app. Started
        \<lparr>cfg_Database = \<lparr>dbc_Name = ''postgres'', dbc_Host = ''postgres'', dbc_MigrationPath = ''file://migrations/'',
           dbc_Password = ''postgres'', dbc_TimeZone = ''Asia/Jakarta'', dbc_Username = ''postgres'',
           dbc_MaxConnections = 10, dbc_MinConnections = 5, dbc_Port = 5432\<rparr>,
         cfg_Cache = \<lparr>cch_Host = ''redis'', cch_Password = [], cch_Database = 0, cch_Port = 6379\<rparr>,
         cfg_Application = \<lparr>app_Env = ''development'', app_Host = ''0.0.0.0'', app_SecretKey = ''secret_key'', app_Port = 80\<rparr>,
         cfg_Otel = \<lparr>otl_Host = ''otel-collector'', otl_Port = 4317\<rparr>\<rparr>),
      se_otel = \<lparr>oe_resource = (\<lambda>n. None), oe_traceExporter = (\<lambda>a. None),
        oe_traceRes = (\<lambda>n. None), oe_metricExporter = (\<lambda>a. None), oe_shutdown = (\<lambda>p. None), oe_order = (\<lambda>ps. ps)\<rparr>,
      se_db = \<lparr>de_ParseConfig = (\<lambda>url. None), de_NewWithConfig = None, de_Ping = None, de_WithInstance = None,
        de_NewWithDatabaseInstance = (\<lambda>path. None), de_down = (\<lambda>c. None), de_up = (\<lambda>c. None)\<rparr>,
      se_cache = \<lparr>ce_tracing = None, ce_metrics = None, ce_ping = None\<rparr>,
      se_listen = None, se_interrupted = True, se_busy = True, se_worker = Stopped, se_cacheClose = None\<rparr>"

text \<open>The whole schema with the rows of the small shop.\<close>

definition shop_catalog :: catalog where
  "shop_catalog = (schema 4)\<lparr>cat_db := shop_db, cat_version := version_row 4\<rparr>"

lemma shop_catalog_at_rest: "at_rest 4 shop_catalog"
proof -
  have "rows_in 4 shop_db"
    by (simp del: schema.simps add: rows_in_def all_tables has_table_def schemas)
  then show ?thesis by (simp add: at_rest_def shop_catalog_def)
qed

lemma shop_catalog_settled: "settled shop_catalog"
  using shop_catalog_at_rest by (auto simp: settled_def)

lemma calm_faults: "real_faults (de_down (se_db calm_env))" "real_faults (de_up (se_db calm_env))"
  by (simp_all add: calm_env_def real_faults_def)

lemma calm_start: "\<exists>p out. run_command User calm_env (new_process shop_catalog) = (p, out) \<and> Serving \<in> set (pr_log p)"
proof -
  have "calm_db (se_db calm_env)" by (simp add: calm_db_def calm_env_def)
  from NewDatabaseClient_calm [OF shop_catalog_at_rest this] obtain cat' where
    "NewDatabaseClient (se_db calm_env) (cfg_Database (case se_config calm_env ''user-service'' of Started cfg \<Rightarrow> cfg))
       None shop_catalog = (cat', Started \<lparr>pl_acquired = 1\<rparr>)" by blast
  then show ?thesis
    by (simp add: RunUserService_def step_simps InitOtelSdk_def InitTracerProvider_def InitMetricProvider_def
        NewCacheClient_def serve_requests_def await_interrupt_def calm_env_def)
qed

section \<open>Starting\<close>

text \<open>C25: starting any service that has a database empties the shop: whatever rows the schema held, once the
  service serves every table is empty, because the client runs all migrations down and up again. The cache
  is not touched: it still knows users the database has lost; the user service finds them, but they cannot
  log in, and the cart service cannot give them a cart.\<close>

theorem starting_a_service_wipes_the_shop:
  assumes "c \<noteq> Notification" and "settled cat"
    and "real_faults (de_down (se_db env))" and "real_faults (de_up (se_db env))"
    and "run_command c env (new_process cat) = (p, out)" and "Serving \<in> set (pr_log p)"
    and "st = \<lparr>ss_db = cat_db (pr_cat p), ss_cache = cache\<rparr>"
  shows "ss_db st = db_empty \<and> at_rest 4 (pr_cat p) \<and>
    (\<forall>i user. cache_hit ops (user_key i) cache = Some (user_row_json user) \<and> finite_user user \<longrightarrow>
      UserService_FindUserById ops env1 i st = (st, Ret (Inr user)) \<and>
      (\<forall>st' res. CartService_InsertCart ops ps env1 ks cart i ctx st \<noteq> (st', Ret (Inr res)))) \<and>
    (\<forall>email password. cache_hit ops (login_key email) cache = None \<longrightarrow>
      (\<exists>e. UserService_Login ops cr env1 \<lparr>lr_Email = email, lr_Password = password\<rparr> st = (st, Ret (Inl e))))"
proof -
  have served: "ss_db st = db_empty" "at_rest 4 (pr_cat p)"
    using served_client [OF assms(1-6)] assms(7) by simp_all
  then have empty: "db_users (ss_db st) = []" by (simp add: db_empty_def)
  then have "insert_cart_tx env1 ks cart i (ss_db st) \<noteq> Inr r" for i r
    by (auto simp: insert_cart_tx_def InsertCart_def db_call_def Let_def split: option.splits sum.splits if_splits)
  then have "\<forall>st' res. CartService_InsertCart ops ps env1 ks cart i ctx st \<noteq> (st', Ret (Inr res))" for i
    by (auto simp: CartService_InsertCart_def split: outcome.splits sum.splits)
  moreover have "UserService_FindUserById ops env1 i st = (st, Ret (Inr user))"
    if "cache_hit ops (user_key i) cache = Some (user_row_json user)" "finite_user user" for i user
    using that assms(7) by (simp add: UserService_FindUserById_def user_codec.dec_enc)
  moreover have "\<exists>e. UserService_Login ops cr env1 \<lparr>lr_Email = email, lr_Password = password\<rparr> st = (st, Ret (Inl e))"
    if "cache_hit ops (login_key email) cache = None" for email password
    using that empty assms(7)
    by (auto simp: UserService_Login_def db_call_def FindByEmail_def one_row_def split: option.split)
  ultimately show ?thesis using served by blast
qed

definition ghost_cache :: redis where
  "ghost_cache = \<lparr>rd_keys = [user_key (uid 1) \<mapsto> RJson (user_row_json shop_user)], rd_down = False\<rparr>"

theorem starting_a_service_wipes_the_shop_witness:
  "\<exists>p out st. run_command User calm_env (new_process shop_catalog) = (p, out) \<and>
     db_products (cat_db shop_catalog) = [shop_product 1] \<and> db_products (cat_db (pr_cat p)) = [] \<and>
     st = \<lparr>ss_db = cat_db (pr_cat p), ss_cache = ghost_cache\<rparr> \<and>
     UserService_FindUserById redis_ops web_env (uid 1) st = (st, Ret (Inr shop_user))"
proof -
  obtain p out where p: "run_command User calm_env (new_process shop_catalog) = (p, out)" "Serving \<in> set (pr_log p)"
    using calm_start by blast
  have hit: "cache_hit redis_ops (user_key (uid 1)) ghost_cache = Some (user_row_json shop_user)"
    by (simp add: ghost_cache_def redis_hit)
  have fin: "finite_user shop_user"
    by (simp add: finite_user_def shop_user_def)
  have "User \<noteq> Notification" by simp
  note wiped = starting_a_service_wipes_the_shop [where ops = redis_ops and cache = ghost_cache and ?env1.0 = web_env,
    OF this shop_catalog_settled calm_faults p refl]
  have "UserService_FindUserById redis_ops web_env (uid 1) \<lparr>ss_db = cat_db (pr_cat p), ss_cache = ghost_cache\<rparr> =
      (\<lparr>ss_db = cat_db (pr_cat p), ss_cache = ghost_cache\<rparr>, Ret (Inr shop_user))"
    using wiped hit fin by blast
  moreover have "cat_db (pr_cat p) = db_empty" using wiped by simp
  moreover have "db_products (cat_db shop_catalog) = [shop_product 1]" by (simp add: shop_catalog_def shop_db_def)
  ultimately show ?thesis using p(1) by (auto simp: db_empty_def)
qed

section \<open>A migration that fails on the way\<close>

text \<open>The starts \<open>h\<close>, one after the other, on one database.\<close>

definition restarts :: "(command \<times> service_env) list \<Rightarrow> catalog \<Rightarrow> catalog" where
  "restarts h cat = foldl (\<lambda>cat (c, env). pr_cat (fst (run_command c env (new_process cat)))) cat h"

lemma dirty_start:
  assumes "dirty cat" and "real_faults (de_down (se_db env))" and "real_faults (de_up (se_db env))"
  shows "pr_cat (fst (run_command c env (new_process cat))) = cat \<and>
    (c \<noteq> Notification \<longrightarrow> Serving \<notin> set (pr_log (fst (run_command c env (new_process cat)))))"
proof (cases "c = Notification")
  case True
  with notification_cat show ?thesis by simp
next
  case False
  have s: "settled cat" using assms(1) by (simp add: settled_def)
  obtain p out where p: "run_command c env (new_process cat) = (p, out)" by (metis surj_pair)
  note same = NewDatabaseClient_dirty [OF assms(1,2)]
  show ?thesis
    using run_command_cat [OF False p] same NewDatabaseClient_started [OF s assms(2,3)] assms(1) p by auto
qed

text \<open>C23: a start that leaves the schema between two versions, because a script failed on the way, is the
  last: whatever is started afterwards leaves the schema as it is, and no service with a database ever
  serves again.\<close>

theorem failed_migration_blocks_every_start:
  assumes "settled cat" and "real_faults (de_down (se_db env0))" and "real_faults (de_up (se_db env0))"
    and "cat1 = pr_cat (fst (run_command c0 env0 (new_process cat)))" and "\<not> (\<exists>k. at_rest k cat1)"
    and "\<forall>(c, env) \<in> set h. real_faults (de_down (se_db env)) \<and> real_faults (de_up (se_db env))"
  shows "restarts h cat1 = cat1 \<and> (\<forall>(c, env) \<in> set h. c \<noteq> Notification \<longrightarrow>
    Serving \<notin> set (pr_log (fst (run_command c env (new_process cat1)))))"
proof -
  have d: "dirty cat1" using run_command_settled [OF assms(1-3), of c0] assms(4,5) by (auto simp: settled_def)
  have "restarts h' cat1 = cat1"
    if "\<forall>(c, env) \<in> set h'. real_faults (de_down (se_db env)) \<and> real_faults (de_up (se_db env))" for h'
    using that by (induction h') (auto simp: restarts_def dirty_start [OF d])
  with assms(6) dirty_start [OF d] show ?thesis by auto
qed

definition broken_env :: service_env where
  "broken_env = calm_env\<lparr>se_db := (se_db calm_env)\<lparr>de_down :=
     (\<lambda>c. if c = DRun (ver 3) then Some (ErrNew ''driver: bad connection'') else None)\<rparr>\<rparr>"

lemma broken_start: "pr_cat (fst (run_command User broken_env (new_process shop_catalog))) =
    shop_catalog\<lparr>cat_version := Some (ver 3, True)\<rparr>"
proof -
  have v: "Version (de_down (se_db broken_env)) shop_catalog = Inr (ver 4, False)"
    by (simp add: Version_def broken_env_def shop_catalog_def version_row_def del: schema.simps)
  have l: "map (\<lambda>j. Inr (down_mig j)) (rev [1..<Suc 4]) = Inr (down_mig 4) # map (\<lambda>j. Inr (down_mig j)) (rev [1..<4])"
    by (subst upt_Suc_append) (simp_all del: upt_Suc)
  have "Down shop_migrations (de_down (se_db broken_env)) \<lparr>mig_locked = False, mig_cat = shop_catalog\<rparr> =
      (Some (ErrNew ''driver: bad connection''),
       \<lparr>mig_locked = False, mig_cat = shop_catalog\<lparr>cat_version := Some (ver 3, True)\<rparr>\<rparr>)"
    by (simp only: Down_def locked_run_def migrator.select_convs if_False v sum.case prod.case readDown_shop order_refl
        zero_neq_numeral [symmetric] l)
      (simp add: run_one_def down_mig_def SetVersion_def Run_def unlockErr_def broken_env_def vers)
  then show ?thesis
    by (simp add: RunUserService_def step_simps InitOtelSdk_def InitTracerProvider_def InitMetricProvider_def
        NewDatabaseClient_def or_fatal_def passed_def broken_env_def calm_env_def)
qed

theorem failed_migration_blocks_every_start_witness:
  "restarts [(User, calm_env), (Order, calm_env)] (shop_catalog\<lparr>cat_version := Some (ver 3, True)\<rparr>) =
     shop_catalog\<lparr>cat_version := Some (ver 3, True)\<rparr>"
proof -
  let ?cat = "shop_catalog\<lparr>cat_version := Some (ver 3, True)\<rparr>"
  have f: "real_faults (de_down (se_db broken_env))" "real_faults (de_up (se_db broken_env))"
    by (simp_all add: real_faults_def broken_env_def calm_env_def)
  have "\<not> at_rest k ?cat" for k
    using at_rest_version [of k ?cat] by (auto simp: version_row_def split: if_splits)
  then have n: "\<not> (\<exists>k. at_rest k ?cat)" by blast
  have h: "\<forall>(c, env) \<in> set [(User, calm_env), (Order, calm_env)].
      real_faults (de_down (se_db env)) \<and> real_faults (de_up (se_db env))"
    using calm_faults by simp
  from failed_migration_blocks_every_start [OF shop_catalog_settled f broken_start [symmetric] n h] show ?thesis
    by (rule conjunct1)
qed

section \<open>Stopping\<close>

text \<open>C40: a service with a database that ever served never returns: the migrations keep a connection, so
  \<open>db.Close()\<close> waits for ever after the signal, and the telemetry behind it is never flushed.\<close>

theorem services_never_stop:
  assumes "c \<noteq> Notification" and "settled cat"
    and "real_faults (de_down (se_db env))" and "real_faults (de_up (se_db env))"
    and "run_command c env (new_process cat) = (p, out)" and "Serving \<in> set (pr_log p)"
  shows "(out = Waits \<or> (\<exists>m. out = Dies m)) \<and> set (pr_log p) \<inter> {DbClosed, OtelStopped, OtelNotStopped} = {} \<and>
    (se_interrupted env \<and> se_worker env = Stopped \<longrightarrow>
      out = Waits \<and> last (pr_log p) \<in> {CacheClosed, CacheNotClosed})"
proof -
  obtain p0 st where up: "run_steps (bring_up (app_name c) env) (new_process cat) = (p0, st)" by (metis surj_pair)
  have st: "st = Continues"
  proof (rule ccontr)
    assume "st \<noteq> Continues"
    with bring_up_cases [OF up] have "(\<exists>e. st = Exits e) \<or> st = Returns \<and> pr_defers p0 = []"
      "Serving \<notin> set (pr_log p0)" by auto
    with assms(5,6) up show False
      by (auto simp: run_command_steps [OF assms(1)] run_main_def run_steps_append)
  qed
  from bring_up_cases [OF up] st obtain cfg pool where b: "pr_defers p0 = [CloseCache, CloseDb, StopOtel]"
    "pr_log p0 = [OtelStarted, DbOpened, CacheOpened]" "pr_pool p0 = Some pool"
    "NewDatabaseClient (se_db env) cfg None cat = (pr_cat p0, Started pool)" by auto
  from NewDatabaseClient_started [OF assms(2-4) b(4)] have "pl_acquired pool \<noteq> 0" by simp
  from run_command_up [OF assms(1) up [unfolded st] assms(5)] served_end [OF assms(1) b(3) this b(1,2) _ _ assms(6)]
  show ?thesis unfolding unfinished_def by blast
qed

theorem services_never_stop_witness:
  "\<exists>p. run_command User calm_env (new_process shop_catalog) = (p, Waits) \<and> last (pr_log p) \<in> {CacheClosed, CacheNotClosed}"
proof -
  obtain p out where p: "run_command User calm_env (new_process shop_catalog) = (p, out)" "Serving \<in> set (pr_log p)"
    using calm_start by blast
  moreover have "se_interrupted calm_env \<and> se_worker calm_env = Stopped" by (simp add: calm_env_def)
  ultimately show ?thesis
    using services_never_stop [OF _ shop_catalog_settled calm_faults p] by auto
qed

section \<open>Reading the configuration again\<close>

text \<open>C35: every token that is checked, good or bad, costs the process a watcher that stays open: the tokens are
  all judged, with the secret the file has, as long as the watchers they open are within the number the
  kernel allows; one token more ends the process. And a change of the file opens as many watchers again
  as are watching it, so a process that has checked tokens may end at an edit of its configuration.\<close>

theorem every_token_costs_a_watcher:
  assumes "good_file env ''user-service'' cfg" and "length (vp_open v) \<le> fe_instances env"
    and "n = length (filter (\<lambda>f. f = ''user-service'') (vp_open v))"
  shows "verify_tokens env parse_with ts v =
      (if length (vp_open v) + length ts \<le> fe_instances env
       then (watched ''user-service'' (length ts) v,
             Started (map (VerifyToken (parse_with (app_SecretKey (cfg_Application cfg)))) ts))
       else (watched ''user-service'' (fe_instances env - length (vp_open v)) v,
             Fatal (ErrWrap ''failed to create watcher: '' ErrTooManyWatchers))) \<and>
    (vp_onConfigChange v = Some ''user-service'' \<longrightarrow> config_changed env ''user-service'' v =
      (if length (vp_open v) + n \<le> fe_instances env then (watched ''user-service'' n v, Started ())
       else (watched ''user-service'' (fe_instances env - length (vp_open v)) v,
             Fatal (ErrWrap ''failed to create watcher: '' ErrTooManyWatchers))))"
  using verify_tokens_good [OF assms(1), of v ts parse_with] call_back_good [OF assms(1), of v n] assms(2,3)
  by (simp add: config_changed_def)

definition calm_files :: "unit file_env" where
  "calm_files = \<lparr>fe_instances = 128, fe_found = (\<lambda>f. True), fe_read = (\<lambda>f. Inr ()),
     fe_decode = (\<lambda>raw. case se_config calm_env ''user-service'' of Started cfg \<Rightarrow> Inr cfg)\<rparr>"

definition cart_viper :: viper where
  "cart_viper = \<lparr>vp_open = [''cart-service''], vp_onConfigChange = Some ''cart-service''\<rparr>"

theorem every_token_costs_a_watcher_witness:
  "(\<exists>v rs. verify_tokens calm_files (\<lambda>k t. Inl ErrTokenInvalid) (replicate 127 ''t'') cart_viper = (v, Started rs)) \<and>
   (\<exists>v e. verify_tokens calm_files (\<lambda>k t. Inl ErrTokenInvalid) (replicate 128 ''t'') cart_viper = (v, Fatal e)) \<and>
   (\<exists>v e. config_changed calm_files ''user-service'' (watched ''user-service'' 64 cart_viper) = (v, Fatal e))"
proof -
  have g: "\<exists>cfg. good_file calm_files ''user-service'' cfg" by (simp add: good_file_def calm_files_def calm_env_def)
  then obtain cfg where g: "good_file calm_files ''user-service'' cfg" by blast
  have l: "length (vp_open cart_viper) \<le> fe_instances calm_files"
    "length (vp_open (watched ''user-service'' 64 cart_viper)) \<le> fe_instances calm_files"
    by (simp_all add: cart_viper_def calm_files_def)
  from every_token_costs_a_watcher [OF g l(1) refl, of "\<lambda>k t. Inl ErrTokenInvalid" "replicate 127 ''t''"]
    every_token_costs_a_watcher [OF g l(1) refl, of "\<lambda>k t. Inl ErrTokenInvalid" "replicate 128 ''t''"]
    every_token_costs_a_watcher [OF g l(2) refl]
  show ?thesis by (simp add: cart_viper_def calm_files_def)
qed

end
