(* ===== verification/Spec2Isabelle.thy ===== *)
theory Spec2Isabelle
  imports OrderClaims CartClaims ShopClaims SystemClaims PeerClaims LifecycleClaims
begin

text \<open>
  Hedonify is a small shop of four HTTP services, users, products, carts and orders, written in Go. The
  services are processes of one binary (\<open>cmd/root.go\<close>); they share one Postgres database and one Redis
  instance. The cart service calls the user service and the order service over HTTP. The order service
  answers a request through a queue: \<open>OrderController.Checkout\<close> puts the order on a channel, a worker
  collects orders into a batch, and every 300 ms the batch is one transaction whose outcome goes back on
  one result channel per request. This development models the services from their routers down to the
  SQL statements, and the life of a process from its configuration to its shutdown.

  The vocabulary. \<open>Prelude\<close> has the integers at their width (\<open>int32\<close> is a 32-bit word; Postgres'
  \<open>integer\<close> is the range \<open>int4_range\<close>), the outcome of a Go call (\<open>Ret\<close>, \<open>Panic\<close>, \<open>Blocked\<close>), loops whose body
  may panic, and iteration over Go maps: \<open>for k := range m\<close> visits the keys in an order the language
  leaves open, so the order is an argument \<open>ks\<close> with \<open>enumerates ks m\<close>. \<open>GoErrors\<close> has error values with
  \<open>%w\<close>, \<open>errors.Join\<close> and \<open>errors.Is\<close>; \<open>Uuid\<close> the text of identifiers (google/uuid); \<open>Decimal\<close> the decimals
  of shopspring and the numerics of pgx; \<open>Json\<close> and \<open>Models\<close> the structs of the packages \<open>request\<close>,
  \<open>response\<close> and \<open>repository\<close> with their encodings and decodings.

  The database. \<open>Repository\<close> has the six tables as one record of row lists and each statement of
  \<open>internal/repository/*.sql.go\<close> as a function of it that fails when a key or a foreign key of
  \<open>migrations/\<close> does not hold; \<open>db_ok\<close> is the schema's invariant. \<open>CopyFrom\<close> has the iterators behind
  \<open>COPY\<close>, \<open>Mapper\<close> the methods of \<open>mapper.go\<close>. \<open>RepositoryLaws\<close> states what a statement that changes the
  tables promises (the locale \<open>keeps_schema\<close>) and interprets it for each statement.

  The cache. \<open>CacheStore\<close> has the four Redis commands the services use as a record \<open>cache_ops\<close>, the laws
  they rely on as the locale \<open>cache_store\<close>, and Redis itself (\<open>redis_ops\<close>: a map, or down) as its
  instance; the locale of encodings that are read back is interpreted for every record that is cached.

  The order service (\<open>order/internal/service/order.go\<close>, \<open>order/cmd/listener.go\<close>). \<open>OrderMerge\<close> is
  \<open>mergeOrderItems\<close>; \<open>OrderCheck\<close> and \<open>OrderBalance\<close> are \<open>checkDecreaseQuantity\<close> with the slices it pops;
  \<open>OrderQuery\<close> is the text \<open>buildQuery\<close> writes, a reader of that text and its execution; \<open>OrderService\<close> is
  \<open>BatchCreateOrder\<close> with its result channels: \<open>batch_decide\<close> reads, \<open>batch_write\<close> writes. \<open>OrderStock\<close>,
  \<open>OrderOutcome\<close>, \<open>OrderAnswers\<close> and \<open>OrderAccept\<close> say what a batch does to the stock, to the orders and to
  the channels, and when it is accepted; \<open>OrderSpec\<close> is the sale a batch stands for, on integers and
  sets, and the refinement; \<open>OrderBounds\<close> relates the pieces a batch sells to those it takes from the stock.
  \<open>OrderWorker\<close> is the select loop as a step relation, \<open>OrderRuns\<close> relates its runs to sequences of sales,
  \<open>OrderController\<close> has the handlers.

  The other services: \<open>ProductService\<close>, \<open>UserService\<close> and \<open>CartService\<close> hold service and controller of
  \<open>product/\<close>, \<open>user/\<close> and \<open>cart/\<close>, as functions from the state (database and cache) to the state and an
  outcome; \<open>CartLaws\<close> what the cart transactions do. A call to the database, a peer or a library that
  can fail takes its failure from the environment of the request. \<open>Shop\<close> puts the operations of all
  services side by side and states what every history of them keeps; \<open>CacheTypes\<close> shows that tables and
  cache keep values of their types in such a history.

  HTTP. \<open>Http\<close> has requests, contexts, \<open>WriteJsonResponse\<close> and the middlewares; \<open>Router\<close> the matching of
  gorilla/mux; \<open>Routes\<close> the tables of the four services and what they serve; \<open>Services\<close> the services as
  functions from a request to a reply.

  The running system. \<open>System\<close> puts the four services and the worker on one database and one cache; its
  steps are requests by method and path and the worker's own steps, in any order. \<open>SystemLaws\<close> shows that
  a request runs at most one operation of \<open>Shop\<close>, or queues at most its own body, and lifts what the
  operations and the worker keep to every run. \<open>Checkouts\<close> takes a checkout apart: the handlers wait at
  their second \<open>select\<close> while the worker, the other handlers and the other services go on, and the
  conversation is followed from the request to the reply. \<open>Peers\<close> has the requests the cart service sends to
  the other two, how they arrive there and what it makes of the reply.

  The life of a process. \<open>Migrations\<close> has the scripts of \<open>migrations/\<close> and golang-migrate's \<open>Up\<close> and
  \<open>Down\<close> with every failure of the driver; \<open>MigrationLaws\<close> shows that a schema stays at rest or is marked
  dirty; \<open>Infra\<close> has the configuration and the clients; \<open>Telemetry\<close> the set-up and shut-down of the
  OpenTelemetry providers, \<open>RecordError\<close> and the logger's hook; \<open>Watchers\<close> what \<open>config.Get\<close> and
  \<open>VerifyToken\<close> do to viper, the file watchers they open and the callback they set; \<open>Lifecycle\<close> the five \<open>Run...Service\<close>
  functions as lists of steps with their deferred calls and the commands of \<open>cmd/\<close> that start them, and
  \<open>LifecycleLaws\<close> what they have in common.

  The properties C1 to C40 are in \<open>OrderClaims\<close> (C1, C3 to C16, C24, C32, C39), \<open>CartClaims\<close>
  (C17, C18, C21, C22), \<open>ShopClaims\<close> (C19, C26 to C30, C36), \<open>SystemClaims\<close> (C33, C34, C37, C38),
  \<open>PeerClaims\<close> (C2, C20, C31) and \<open>LifecycleClaims\<close> (C23, C25, C35, C40), each with a concrete instance.
  C1 and C3 bound and balance the stock; C2 and C20 say what the confirmation of an order is worth, C31 what the
  user service tells the others; C4, C5, C9 and C13 relate the batch to simpler
  definitions and C32 whole runs of the worker to the same sale; C10 and C29 say where 32 bits are not
  enough; C6 to C8, C11, C12, C24 and C39 say what the requesters are told; C14 to C16 are about \<open>COPY\<close>, an
  order that comes twice and two workers; C17, C18, C20 to C22, C26, C27 and C30 are the
  behaviour of the services against the cache and the database; C28 and C36 go through the
  routers; C19 holds in every history of the operations, C33, C34 and C37 in every run of the system, and C38
  says that requests between the reads and the writes of a batch do no harm; C23,
  C25 and C40 are about starting and stopping.
  Several of them state that the code does not do what it means to; the comments say so.

  Bounds and fuel. The queue has capacity 1 (\<open>queue_capacity\<close>), a result channel has capacity 1. The
  loop of \<open>checkDecreaseQuantity\<close> ends because each turn pops an item; \<open>readDown\<close> and \<open>readUp\<close> end because
  each turn moves to a smaller or greater version of the files; \<open>read_branches\<close> ends because each branch
  consumes text; the parser of route templates has one unit of fuel more than the template has
  characters, and consumes one in each turn.

  What is assumed of code that is not read: bcrypt, the JWT library, the validator and \<open>path.Clean\<close> are
  parameters; a JSON body is a value of the datatype \<open>json\<close>, and keys are matched exactly; Redis answers as
  \<open>cache_store\<close> says; no failure of the migration driver is \<open>ErrNoChange\<close>; a script that fails is rolled
  back whole.

  What is not modelled: spans, the values of metrics and log lines, except where a log leaks a secret
  (\<open>postgresUrl_password\<close>); the trace links of the orders; the parsing of the command line by cobra; what a
  reloaded configuration changes, for the services keep the one they started with; commits whose outcome the client cannot know. Within one request the clock is read once,
  except in the batch, which reads it for each row. Two statements of different transactions do not
  interleave, except in C16, which shows what happens when two batches do, and in C38, which shows that a batch
  and the requests to the other services may. In the system a request is one step: what
  it waits for, the answers of its peers and the result of a checkout, is given with it, and the
  order a peer puts into the queue is a request of its own; C2 and C20 follow the wait of a checkout step by
  step, and C20 takes the order service's answers from there. A redirect of a request between services,
  which the client would follow, does not occur. \<open>otelmux\<close> is the identity. The
  constants of \<open>internal/constants\<close> and the generated interfaces \<open>db.go\<close> and \<open>querier.go\<close> have no behaviour.
\<close>

end
